(* ===== verification/Prelude.thy ===== *)
theory Prelude
  imports Main "HOL-Library.Word" "HOL-Library.Finite_Map" "HOL-Library.List_Lexorder"
    "HOL-Library.Char_ord" "HOL-Library.Sublist"
begin

text \<open>
  Vocabulary shared by every theory of the development: machine integers at their width,
  fallible results with an error chain, the string operations of the Rust standard library
  that the sources use, files as the code sees them, and two locales with the induction
  arguments that several components reuse (a step function with an invariant, and a
  prefix codec read repeatedly from one stream).

  Strings are \<^typ>\<open>string\<close>, one \<^typ>\<open>char\<close> per byte of the UTF-8 text. The case and
  white-space functions act on ASCII characters; that is the domain on which they agree
  with \<^verbatim>\<open>str::to_lowercase\<close> and \<^verbatim>\<open>str::trim\<close>.
\<close>

section \<open>Types\<close>

type_synonym u8 = "8 word"
type_synonym u16 = "16 word"
type_synonym u32 = "32 word"
type_synonym i32 = "32 word"
type_synonym bytes = "u8 list"

text \<open>
  An \<^verbatim>\<open>anyhow::Error\<close> is a chain of messages, outermost context first; a Rust panic is
  kept apart from an error that is returned.
\<close>

datatype failure = Fail "string list" | Panic string

type_synonym 'a result = "failure + 'a"

abbreviation Err :: "failure \<Rightarrow> 'a result" where "Err \<equiv> Inl"
abbreviation Ok :: "'a \<Rightarrow> 'a result" where "Ok \<equiv> Inr"

definition bail :: "string \<Rightarrow> 'a result" where
  "bail msg = Err (Fail [msg])"

fun with_context :: "string \<Rightarrow> 'a result \<Rightarrow> 'a result" where
  "with_context msg (Inl (Fail es)) = Inl (Fail (msg # es))"
| "with_context msg (Inl (Panic p)) = Inl (Panic p)"
| "with_context msg (Inr x) = Inr x"

text \<open>\<^verbatim>\<open>format!("{}", e)\<close> prints the outermost message of the chain.\<close>

fun display_failure :: "failure \<Rightarrow> string" where
  "display_failure (Fail []) = []"
| "display_failure (Fail (m # ms)) = m"
| "display_failure (Panic p) = p"

definition is_ok :: "'a result \<Rightarrow> bool" where
  "is_ok r = (case r of Inl _ \<Rightarrow> False | Inr _ \<Rightarrow> True)"

text \<open>The \<^verbatim>\<open>?\<close> operator: the rest of the function runs only on a value.\<close>

definition and_then :: "'a result \<Rightarrow> ('a \<Rightarrow> 'b result) \<Rightarrow> 'b result" where
  "and_then r f = (case r of Inl e \<Rightarrow> Inl e | Inr x \<Rightarrow> f x)"

lemma and_then_simps [simp]: "and_then (Inl e) f = Inl e" "and_then (Inr x) f = f x"
  by (simp_all add: and_then_def)

lemma and_then_Inr_iff: "and_then r f = Inr y \<longleftrightarrow> (\<exists>x. r = Inr x \<and> f x = Inr y)"
  by (cases r) auto

lemma and_then_assoc: "and_then (and_then r f) g = and_then r (\<lambda>x. and_then (f x) g)"
  by (cases r) auto

lemma with_context_Inr [simp]: "with_context m r = Inr x \<longleftrightarrow> r = Inr x"
  by (cases "(m, r)" rule: with_context.cases) auto

lemma is_ok_simps [simp]: "is_ok (Inr x)" "\<not> is_ok (Inl e)"
  by (simp_all add: is_ok_def)

lemma is_ok_with_context [simp]: "is_ok (with_context m r) = is_ok r"
  by (cases "(m, r)" rule: with_context.cases) auto

lemma bail_not_Inr [simp]: "bail m \<noteq> Inr x" "\<not> is_ok (bail m)"
  by (simp_all add: bail_def)

lemma find_SomeD: "find P xs = Some x \<Longrightarrow> x \<in> set xs \<and> P x"
  by (induction xs) (auto split: if_splits)

lemma find_skip: "\<forall>u \<in> set us. \<not> P u \<Longrightarrow> find P (us @ xs) = find P xs"
  by (induction us) auto

lemma find_Some_split_iff:
  "find P l = Some e \<longleftrightarrow> (\<exists>us vs. l = us @ e # vs \<and> P e \<and> (\<forall>u \<in> set us. \<not> P u))"
proof
  show "find P l = Some e \<Longrightarrow> \<exists>us vs. l = us @ e # vs \<and> P e \<and> (\<forall>u \<in> set us. \<not> P u)"
  proof (induction l)
    case (Cons a l)
    show ?case
    proof (cases "P a")
      case True
      with Cons.prems have "a # l = [] @ e # l \<and> P e" by simp
      then show ?thesis by fastforce
    next
      case False
      with Cons obtain us vs where "l = us @ e # vs \<and> P e \<and> (\<forall>u \<in> set us. \<not> P u)" by auto
      with False have "a # l = (a # us) @ e # vs \<and> P e \<and> (\<forall>u \<in> set (a # us). \<not> P u)" by simp
      then show ?thesis by blast
    qed
  qed simp
qed (auto simp: find_skip)

lemma find_snd_unique:
  "distinct (map snd tbl) \<Longrightarrow> (m, bs) \<in> set tbl \<Longrightarrow> find (\<lambda>e. snd e = bs) tbl = Some (m, bs)"
  by (induction tbl) (auto simp: rev_image_eqI)

lemma distinct_sorted_list_of_fset [simp]: "distinct (sorted_list_of_fset A)"
  by (simp add: sorted_list_of_fset.rep_eq)

section \<open>Strings\<close>

definition squote :: "string \<Rightarrow> string" where
  "squote s = CHR 0x27 # s @ [CHR 0x27]"

definition newline :: string where
  "newline = [CHR 0x0A]"

definition is_ascii_space :: "char \<Rightarrow> bool" where
  "is_ascii_space c \<longleftrightarrow> (let n = of_char c :: nat in n = 32 \<or> (9 \<le> n \<and> n \<le> 13))"

definition trim :: "string \<Rightarrow> string" where
  "trim s = rev (dropWhile is_ascii_space (rev (dropWhile is_ascii_space s)))"

definition lower_char :: "char \<Rightarrow> char" where
  "lower_char c = (let n = of_char c :: nat in if 65 \<le> n \<and> n \<le> 90 then char_of (n + 32) else c)"

definition to_lowercase :: "string \<Rightarrow> string" where
  "to_lowercase s = map lower_char s"

text \<open>\<^verbatim>\<open>str::contains\<close> and \<^verbatim>\<open>str::starts_with\<close>.\<close>

definition str_contains :: "string \<Rightarrow> string \<Rightarrow> bool" where
  "str_contains hay needle = sublist needle hay"

definition starts_with :: "string \<Rightarrow> string \<Rightarrow> bool" where
  "starts_with s p = prefix p s"

lemma starts_with_refl [simp]: "starts_with s s"
  by (simp add: starts_with_def)

lemma starts_with_empty [simp]: "starts_with s []"
  by (simp add: starts_with_def)

text \<open>Decimal printing of an unsigned integer.\<close>

definition digit_char :: "nat \<Rightarrow> char" where
  "digit_char d = char_of (48 + d)"

fun show_nat :: "nat \<Rightarrow> string" where
  "show_nat n = (if n < 10 then [digit_char n] else show_nat (n div 10) @ [digit_char (n mod 10)])"

declare show_nat.simps [simp del]

lemma lower_char_idem [simp]: "lower_char (lower_char c) = lower_char c"
  by (auto simp: lower_char_def Let_def)

lemma to_lowercase_idem [simp]: "to_lowercase (to_lowercase s) = to_lowercase s"
  by (simp add: to_lowercase_def)

lemma dropWhile_spaces_idem:
  "dropWhile P (rev (dropWhile P (rev (dropWhile P s)))) = rev (dropWhile P (rev (dropWhile P s)))"
proof (cases "dropWhile P s")
  case Nil
  show ?thesis unfolding Nil by simp
next
  case (Cons c cs)
  then have c: "\<not> P c" by (metis dropWhile_eq_Cons_conv)
  then have "dropWhile P (rev cs @ [c]) = dropWhile P (rev cs) @ [c]"
    by (induction "rev cs" arbitrary: cs rule: list.induct) (auto simp: dropWhile_append3)
  with Cons c show ?thesis by simp
qed

lemma trim_idem [simp]: "trim (trim s) = trim s"
proof -
  let ?D = "dropWhile is_ascii_space"
  have "trim (trim s) = rev (?D (rev (?D (rev (?D (rev (?D s)))))))"
    by (simp add: trim_def)
  also have "\<dots> = rev (?D (?D (rev (?D s))))"
    by (simp add: dropWhile_spaces_idem)
  finally show ?thesis by (simp add: trim_def)
qed

section \<open>Files and paths\<close>

text \<open>
  What a program sees of one file: nothing there, something it cannot read as text, or its
  text. \<^verbatim>\<open>Path::exists\<close> holds of the last two.
\<close>

datatype disk_file = Missing | Unreadable | Text string

definition file_exists :: "disk_file \<Rightarrow> bool" where
  "file_exists f \<longleftrightarrow> f \<noteq> Missing"

text \<open>\<^verbatim>\<open>Path::join\<close> for a relative second part.\<close>

definition path_join :: "string \<Rightarrow> string \<Rightarrow> string" where
  "path_join base name =
     (if base = [] \<or> last base = CHR 0x2F then base @ name else base @ ''/'' @ name)"

section \<open>The process environment\<close>

text \<open>
  What the path rules read: environment variables, the user's home and configuration
  directories, and the files. \<^verbatim>\<open>std::env::var(v).unwrap_or_default()\<close> is \<open>var_or_default\<close>.
\<close>

record process_env =
  pe_var :: "string \<Rightarrow> string option"
  pe_home_dir :: "string option"
  pe_config_dir :: "string option"
  pe_file :: "string \<Rightarrow> disk_file"

definition var_or_default :: "process_env \<Rightarrow> string \<Rightarrow> string" where
  "var_or_default pe v = (case pe_var pe v of None \<Rightarrow> [] | Some s \<Rightarrow> s)"

definition var_set :: "process_env \<Rightarrow> string \<Rightarrow> bool" where
  "var_set pe v \<longleftrightarrow> pe_var pe v \<noteq> None"

section \<open>Step functions: invariants and provenance\<close>

text \<open>
  A component whose operations are one step function over an input type; \<open>ok\<close> names the
  inputs whose environment keeps its documented laws. An invariant of one step is an
  invariant of every finite run.
\<close>

locale invariant_step =
  fixes step :: "'s \<Rightarrow> 'e \<Rightarrow> 's"
    and ok :: "'e \<Rightarrow> bool"
    and inv :: "'s \<Rightarrow> bool"
  assumes step_inv: "inv s \<Longrightarrow> ok e \<Longrightarrow> inv (step s e)"
begin

lemma run_inv: "inv s \<Longrightarrow> \<forall>e \<in> set es. ok e \<Longrightarrow> inv (foldl step s es)"
  by (induction es arbitrary: s) (auto intro: step_inv)

end

text \<open>
  If a fact about the state can only come true by a step that is its cause, then after any
  run it held at the start or one of the steps of the run was its cause.
\<close>

locale traced_step = invariant_step step ok inv
  for step :: "'s \<Rightarrow> 'e \<Rightarrow> 's" and ok :: "'e \<Rightarrow> bool" and inv :: "'s \<Rightarrow> bool" +
  fixes holds :: "'s \<Rightarrow> 'x \<Rightarrow> bool"
    and cause :: "'s \<Rightarrow> 'e \<Rightarrow> 'x \<Rightarrow> bool"
  assumes step_cause: "inv s \<Longrightarrow> ok e \<Longrightarrow> holds (step s e) x \<Longrightarrow> holds s x \<or> cause s e x"
begin

lemma run_cause:
  "inv s \<Longrightarrow> \<forall>e \<in> set es. ok e \<Longrightarrow> holds (foldl step s es) x \<Longrightarrow> \<not> holds s x \<Longrightarrow>
   \<exists>es1 e es2. es = es1 @ e # es2 \<and> cause (foldl step s es1) e x"
proof (induction es rule: rev_induct)
  case Nil
  then show ?case by simp
next
  case (snoc e es)
  let ?t = "foldl step s es"
  have inv: "inv ?t" using snoc.prems by (intro run_inv) auto
  show ?case
  proof (cases "holds ?t x")
    case True
    with snoc obtain es1 e1 es2 where "es = es1 @ e1 # es2 \<and> cause (foldl step s es1) e1 x"
      by auto
    then have "es @ [e] = es1 @ e1 # (es2 @ [e]) \<and> cause (foldl step s es1) e1 x" by simp
    then show ?thesis by blast
  next
    case False
    with inv snoc.prems have "cause ?t e x" by (auto dest: step_cause)
    then show ?thesis by blast
  qed
qed

end

section \<open>Prefix codecs read from a stream\<close>

text \<open>
  \<open>reads get bs xs rest\<close>: repeated reading from \<open>bs\<close> gives the items \<open>xs\<close> and leaves
  \<open>rest\<close>. The locale has a writer and a reader of one item at the head of a stream.
\<close>

inductive reads :: "('b list \<Rightarrow> 'e + 'a \<times> 'b list) \<Rightarrow> 'b list \<Rightarrow> 'a list \<Rightarrow> 'b list \<Rightarrow> bool"
  for get where
  reads_Nil: "reads get bs [] bs"
| reads_Cons: "get bs = Inr (x, r) \<Longrightarrow> reads get r xs rest \<Longrightarrow> reads get bs (x # xs) rest"

inductive_simps reads_Nil_iff: "reads get bs [] rest"
inductive_cases reads_ConsE: "reads get bs (x # xs) rest"

locale stream_codec =
  fixes put :: "'a \<Rightarrow> 'b list"
    and get :: "'b list \<Rightarrow> ('e + 'a \<times> 'b list)"
    and sendable :: "'a \<Rightarrow> bool"
  assumes get_put: "sendable x \<Longrightarrow> get (put x @ rest) = Inr (x, rest)"
    and get_shrinks: "get bs = Inr (x, rest) \<Longrightarrow> length rest < length bs"
begin

lemma put_nonempty:
  assumes "sendable x"
  shows "put x \<noteq> []"
proof -
  from assms have "get (put x @ []) = Inr (x, [])" by (rule get_put)
  then have "length ([] :: 'b list) < length (put x @ [])" by (rule get_shrinks)
  then show ?thesis by simp
qed

lemma reads_concat:
  "\<forall>x \<in> set xs. sendable x \<Longrightarrow> reads get (concat (map put xs) @ rest) xs rest"
  by (induction xs) (auto intro!: reads.intros simp: get_put)

lemma reads_length: "reads get bs xs rest \<Longrightarrow> length rest + length xs \<le> length bs"
  by (induction rule: reads.induct) (auto dest: get_shrinks)

lemma put_inject:
  assumes "sendable x" and "sendable y" and "put x @ r = put y @ s"
  shows "x = y \<and> r = s"
proof -
  have "Inr (x, r) = get (put x @ r)" using assms(1) by (simp add: get_put)
  also have "\<dots> = Inr (y, s)" unfolding assms(3) using assms(2) by (simp add: get_put)
  finally show ?thesis by simp
qed

lemma concat_put_inject:
  "\<forall>x \<in> set xs. sendable x \<Longrightarrow> \<forall>y \<in> set ys. sendable y \<Longrightarrow>
   concat (map put xs) = concat (map put ys) \<Longrightarrow> xs = ys"
proof (induction xs arbitrary: ys)
  case Nil
  then show ?case by (cases ys) (auto dest: put_nonempty)
next
  case (Cons x xs)
  then obtain y ys' where ys: "ys = y # ys'"
    by (cases ys) (auto dest: put_nonempty)
  with Cons.prems have "x = y \<and> concat (map put xs) = concat (map put ys')"
    by (intro put_inject) auto
  with Cons.IH [of ys'] Cons.prems ys show ?case by auto
qed

end

end
