(* ===== verification/History.thy ===== *)
theory History
  imports Prelude
begin

text \<open>
  The client's list of known servers, \<^verbatim>\<open>src/history.rs\<close>: a list in a JSON file, newest entry
  first, with at most one entry per target and per host name. JSON and the file write are
  fields of an environment record, as for the trust store.
\<close>

section \<open>Data and operations\<close>

record known_server_info =
  ks_server_hostname :: string
  ks_target :: string
  ks_transport_type :: string
  ks_last_connected :: string

record history_env =
  he_to_json :: "known_server_info list \<Rightarrow> string + string"
  he_from_json :: "string \<Rightarrow> known_server_info list option"
  he_write :: "disk_file \<Rightarrow> string \<Rightarrow> bool \<times> disk_file"
  he_now :: string

record history_store =
  hs_store_path :: string
  hs_servers :: "known_server_info list"
  hs_file :: disk_file

definition history_env_ok :: "history_env \<Rightarrow> bool" where
  "history_env_ok env \<longleftrightarrow>
     (\<forall>l s. he_to_json env l = Inr s \<longrightarrow> he_from_json env s = Some l) \<and>
     (\<forall>f s f'. he_write env f s = (True, f') \<longrightarrow> f' = Text s)"

definition history_path :: "process_env \<Rightarrow> string option \<Rightarrow> string" where
  "history_path pe custom =
     (case custom of
        Some p \<Rightarrow> p
      | None \<Rightarrow>
          let base_dir = path_join (case pe_config_dir pe of None \<Rightarrow> ''.'' | Some d \<Rightarrow> d) ''joycast''
          in path_join base_dir ''known_servers.json'')"

definition load_history :: "history_env \<Rightarrow> disk_file \<Rightarrow> known_server_info list" where
  "load_history env f =
     (case f of
        Missing \<Rightarrow> []
      | Unreadable \<Rightarrow> []
      | Text content \<Rightarrow> (case he_from_json env content of None \<Rightarrow> [] | Some l \<Rightarrow> l))"

definition history_with_path :: "history_env \<Rightarrow> process_env \<Rightarrow> string option \<Rightarrow> history_store" where
  "history_with_path env pe custom =
     (let path = history_path pe custom; f = pe_file pe path
      in \<lparr>hs_store_path = path, hs_servers = load_history env f, hs_file = f\<rparr>)"

definition history_save :: "history_env \<Rightarrow> history_store \<Rightarrow> unit result \<times> history_store" where
  "history_save env st =
     (case he_to_json env (hs_servers st) of
        Inl e \<Rightarrow> (with_context ''Failed to serialize history data'' (bail e), st)
      | Inr json \<Rightarrow>
          (let (written, f) = he_write env (hs_file st) json
           in (if written then Ok ()
               else with_context ''Failed to write history file'' (bail ''io error''),
               st\<lparr>hs_file := f\<rparr>)))"

definition record_connection ::
  "history_env \<Rightarrow> string \<Rightarrow> string \<Rightarrow> string \<Rightarrow> history_store \<Rightarrow> unit result \<times> history_store" where
  "record_connection env server_hostname target transport_type st =
     (let now = he_now env;
          kept = filter (\<lambda>s. ks_target s \<noteq> target \<and> ks_server_hostname s \<noteq> server_hostname)
                   (hs_servers st);
          entry = \<lparr>ks_server_hostname = server_hostname, ks_target = target,
                    ks_transport_type = transport_type, ks_last_connected = now\<rparr>
      in history_save env (st\<lparr>hs_servers := entry # kept\<rparr>))"

definition list_servers :: "history_store \<Rightarrow> known_server_info list" where
  "list_servers st = hs_servers st"

definition get_by_index :: "history_store \<Rightarrow> nat \<Rightarrow> known_server_info option" where
  "get_by_index st index =
     (if index = 0 \<or> length (hs_servers st) < index then None
      else Some (hs_servers st ! (index - 1)))"

definition find_by_hostname :: "history_store \<Rightarrow> string \<Rightarrow> known_server_info option" where
  "find_by_hostname st hostname =
     (let needle = to_lowercase (trim hostname)
      in find (\<lambda>s. to_lowercase (ks_server_hostname s) = needle) (hs_servers st))"

section \<open>The list as a step function\<close>

definition history_wf :: "known_server_info list \<Rightarrow> bool" where
  "history_wf l \<longleftrightarrow> distinct (map ks_target l) \<and> distinct (map ks_server_hostname l)"

text \<open>A successful handshake: host name, target and transport, with the environment of the call.\<close>

type_synonym connection = "history_env \<times> string \<times> string \<times> string"

fun history_step :: "history_store \<Rightarrow> connection \<Rightarrow> history_store" where
  "history_step st (env, h, t, tr) = snd (record_connection env h t tr st)"

lemma history_save_frame [simp]:
  "hs_servers (snd (history_save env st)) = hs_servers st"
  "hs_store_path (snd (history_save env st)) = hs_store_path st"
  by (simp_all add: history_save_def Let_def split: sum.splits prod.splits)

lemma record_connection_servers:
  "hs_servers (snd (record_connection env h t tr st)) =
     \<lparr>ks_server_hostname = h, ks_target = t, ks_transport_type = tr, ks_last_connected = he_now env\<rparr>
     # filter (\<lambda>s. ks_target s \<noteq> t \<and> ks_server_hostname s \<noteq> h) (hs_servers st)"
  by (simp add: record_connection_def Let_def)

lemma distinct_map_filter: "distinct (map f xs) \<Longrightarrow> distinct (map f (filter P xs))"
  by (induction xs) auto

lemma history_wf_record:
  "history_wf (hs_servers st) \<Longrightarrow> history_wf (hs_servers (snd (record_connection env h t tr st)))"
  by (auto simp: history_wf_def record_connection_servers distinct_map_filter)

interpretation hist: invariant_step history_step "\<lambda>_. True" "\<lambda>st. history_wf (hs_servers st)"
proof
  fix st :: history_store and e
  assume "history_wf (hs_servers st)"
  then show "history_wf (hs_servers (history_step st e))"
    by (cases e) (auto intro: history_wf_record)
qed

lemma history_env_json: "history_env_ok env \<Longrightarrow> he_to_json env l = Inr s \<Longrightarrow> he_from_json env s = Some l"
  by (simp add: history_env_ok_def)

lemma history_env_write: "history_env_ok env \<Longrightarrow> he_write env f s = (True, f') \<Longrightarrow> f' = Text s"
  by (simp add: history_env_ok_def)

section \<open>An environment for examples\<close>

text \<open>A history whose only document forms are those of one entry for ''Desk''.\<close>

definition demo_known :: "string \<Rightarrow> known_server_info" where
  "demo_known t = \<lparr>ks_server_hostname = ''Desk'', ks_target = t, ks_transport_type = ''Direct UDP'',
     ks_last_connected = ''t''\<rparr>"

definition demo_history_env :: history_env where
  "demo_history_env = \<lparr>
     he_to_json = (\<lambda>l. case l of [k] \<Rightarrow> (if k = demo_known (ks_target k) then Inr (ks_target k) else Inl ''no'')
                                 | _ \<Rightarrow> Inl ''no''),
     he_from_json = (\<lambda>s. Some [demo_known s]), he_write = (\<lambda>f s. (True, Text s)), he_now = ''t''\<rparr>"

lemma demo_history_ok: "history_env_ok demo_history_env"
  by (auto simp: history_env_ok_def demo_history_env_def split: list.splits if_splits)

section \<open>Properties\<close>

text \<open>
  However many connections are recorded, the history holds each target at most once and
  each host name at most once.
\<close>

theorem history_run_distinct:
  assumes "history_wf (hs_servers st)"
  shows "history_wf (hs_servers (foldl history_step st cs))"
  using assms by (intro hist.run_inv) simp_all

theorem history_run_distinct_witness:
  "history_wf (hs_servers (foldl history_step
     \<lparr>hs_store_path = ''h'', hs_servers = [], hs_file = Missing\<rparr>
     [(demo_history_env, ''tron'', ''10.0.0.1:1'', ''Direct UDP''), (demo_history_env, ''tron'', ''10.0.0.2:1'', ''Direct UDP'')]))"
  by (rule history_run_distinct) (simp add: history_wf_def)

text \<open>
  Recording a connection puts it first and keeps, in their order, exactly the entries
  with another target and another host name; afterwards index 1 and a search for the host
  name in any letter case both give the new entry.
\<close>

theorem record_connection_effect:
  assumes "record_connection env h t tr st = (r, st')" and "to_lowercase (trim q) = to_lowercase h"
  shows "\<exists>e. ks_server_hostname e = h \<and> ks_target e = t \<and> ks_transport_type e = tr \<and>
    ks_last_connected e = he_now env \<and>
    list_servers st' = e # filter (\<lambda>s. ks_target s \<noteq> t \<and> ks_server_hostname s \<noteq> h) (list_servers st) \<and>
    get_by_index st' 1 = Some e \<and> find_by_hostname st' q = Some e"
proof -
  from assms(1) have "hs_servers st' = hs_servers (snd (record_connection env h t tr st))" by simp
  then show ?thesis
    by (simp add: record_connection_servers list_servers_def get_by_index_def
        find_by_hostname_def assms(2))
qed

theorem record_connection_effect_witness:
  "\<exists>e. find_by_hostname (snd (record_connection env ''Tron'' ''10.0.0.1:1'' ''Direct UDP'' st))
     '' tRON '' = Some e \<and> ks_target e = ''10.0.0.1:1''"
proof -
  have "to_lowercase (trim '' tRON '') = to_lowercase ''Tron''"
    by code_simp
  from record_connection_effect [OF prod.collapse [symmetric] this] show ?thesis by blast
qed

text \<open>
  What was recorded and written is what the next client loads: the store opened on the
  written file has the same list of servers.
\<close>

theorem record_then_load:
  assumes "history_env_ok env" and "record_connection env h t tr st = (Ok (), st')"
    and "pe_file pe (history_path pe custom) = hs_file st'"
  shows "list_servers (history_with_path env pe custom) = list_servers st'"
proof -
  from assms(2) obtain s where s: "he_to_json env (hs_servers st') = Inr s" and f: "hs_file st' = Text s"
    by (auto simp: record_connection_def history_save_def Let_def bail_def
        split: sum.splits prod.splits if_splits dest!: history_env_write [OF assms(1)])
  from history_env_json [OF assms(1) s] show ?thesis
    by (simp add: history_with_path_def Let_def assms(3) f load_history_def list_servers_def)
qed

theorem record_then_load_witness:
  "let e = \<lparr>ks_server_hostname = ''tron'', ks_target = ''n'', ks_transport_type = ''Iroh P2P'',
             ks_last_connected = ''t''\<rparr>;
       env = \<lparr>he_to_json = (\<lambda>l. if l = [e] then Inr ''J'' else Inl ''no''),
         he_from_json = (\<lambda>s. if s = ''J'' then Some [e] else None),
         he_write = (\<lambda>f s. (True, Text s)), he_now = ''t''\<rparr>;
       pe = \<lparr>pe_var = (\<lambda>_. None), pe_home_dir = None, pe_config_dir = None, pe_file = (\<lambda>_. Text ''J'')\<rparr>
   in list_servers (history_with_path env pe None) = [e]"
proof -
  let ?e = "\<lparr>ks_server_hostname = ''tron'', ks_target = ''n'', ks_transport_type = ''Iroh P2P'',
             ks_last_connected = ''t''\<rparr>"
  let ?env = "\<lparr>he_to_json = (\<lambda>l. if l = [?e] then Inr ''J'' else Inl ''no''),
         he_from_json = (\<lambda>s. if s = ''J'' then Some [?e] else None),
         he_write = (\<lambda>f s. (True, Text s)), he_now = ''t''\<rparr>"
  let ?pe = "\<lparr>pe_var = (\<lambda>_. None), pe_home_dir = None, pe_config_dir = None, pe_file = (\<lambda>_. Text ''J'')\<rparr>"
  let ?st = "\<lparr>hs_store_path = ''p'', hs_servers = [], hs_file = Missing\<rparr>"
  have "history_env_ok ?env" by (simp add: history_env_ok_def)
  moreover have rec: "record_connection ?env ''tron'' ''n'' ''Iroh P2P'' ?st =
      (Ok (), \<lparr>hs_store_path = ''p'', hs_servers = [?e], hs_file = Text ''J''\<rparr>)"
    by (simp add: record_connection_def history_save_def)
  ultimately have "list_servers (history_with_path ?env ?pe None) =
      list_servers \<lparr>hs_store_path = ''p'', hs_servers = [?e], hs_file = Text ''J''\<rparr>"
    by (rule record_then_load) simp
  then show ?thesis by (simp add: Let_def list_servers_def)
qed

text \<open>
  Searches are sound and complete: \<open>get_by_index\<close> answers for the positions 1 to n
  only, with the entry at that position; \<open>find_by_hostname\<close> answers exactly if some entry
  has that host name up to letter case, with the first such entry.
\<close>

theorem history_lookups:
  "(get_by_index st i = Some e \<longleftrightarrow>
      1 \<le> i \<and> i \<le> length (list_servers st) \<and> list_servers st ! (i - 1) = e) \<and>
   (find_by_hostname st q = Some e \<longleftrightarrow>
      (\<exists>us vs. list_servers st = us @ e # vs \<and>
        to_lowercase (ks_server_hostname e) = to_lowercase (trim q) \<and>
        \<not> (\<exists>u \<in> set us. to_lowercase (ks_server_hostname u) = to_lowercase (trim q))))"
  by (auto simp: get_by_index_def find_by_hostname_def list_servers_def find_Some_split_iff)

end
