(* ===== verification/Transport.thy ===== *)
theory Transport
  imports Prelude
begin

text \<open>
  \<^verbatim>\<open>src/transport.rs\<close>: a target given on the command line or taken from the history is an
  address with a port, an address alone (then with port 12398) or an Iroh node id. The
  address syntax is the Rust standard library's (\<^verbatim>\<open>core::net::parser\<close>), modelled here as
  functions from a string to a value and the rest of the string; the parser of node ids
  belongs to the \<^verbatim>\<open>iroh\<close> crate and is the parameter \<open>parse_key\<close>.
\<close>

section \<open>Addresses\<close>

datatype ipv4_addr = Ipv4 u8 u8 u8 u8

text \<open>An IPv6 address is its eight groups.\<close>

datatype ip_addr = IpV4 ipv4_addr | IpV6 "u16 list"

datatype socket_addr =
    SocketV4 ipv4_addr u16
  | SocketV6 "u16 list" (v6_port: u16) (v6_flowinfo: u32) (v6_scope_id: u32)

definition socket_addr_new :: "ip_addr \<Rightarrow> u16 \<Rightarrow> socket_addr" where
  "socket_addr_new ip port =
     (case ip of IpV4 a \<Rightarrow> SocketV4 a port | IpV6 g \<Rightarrow> SocketV6 g port 0 0)"

section \<open>The standard library's address parser\<close>

type_synonym 'a parser = "string \<Rightarrow> ('a \<times> string) option"

definition to_digit :: "nat \<Rightarrow> char \<Rightarrow> nat option" where
  "to_digit radix c =
     (let n = of_char c :: nat;
          d = (if 48 \<le> n \<and> n \<le> 57 then n - 48
               else if 97 \<le> n \<and> n \<le> 122 then n - 87
               else if 65 \<le> n \<and> n \<le> 90 then n - 55 else 36)
      in if d < radix then Some d else None)"

fun scan_digits :: "nat \<Rightarrow> string \<Rightarrow> nat list \<times> string" where
  "scan_digits radix [] = ([], [])"
| "scan_digits radix (c # cs) =
     (case to_digit radix c of
        None \<Rightarrow> ([], c # cs)
      | Some d \<Rightarrow> (let (ds, rest) = scan_digits radix cs in (d # ds, rest)))"

definition digits_value :: "nat \<Rightarrow> nat list \<Rightarrow> nat" where
  "digits_value radix ds = foldl (\<lambda>a d. a * radix + d) 0 ds"

text \<open>\<open>read_number radix max_digits allow_zero_prefix limit\<close>: a number below \<open>limit\<close>.\<close>

definition read_number :: "nat \<Rightarrow> nat option \<Rightarrow> bool \<Rightarrow> nat \<Rightarrow> nat parser" where
  "read_number radix max_digits allow_zero_prefix limit s =
     (let (ds, rest) = scan_digits radix s in
      if (case max_digits of None \<Rightarrow> False | Some m \<Rightarrow> m < length ds) then None
      else if ds = [] then None
      else if \<not> allow_zero_prefix \<and> hd ds = 0 \<and> 1 < length ds then None
      else if digits_value radix ds < limit then Some (digits_value radix ds, rest)
      else None)"

fun read_given_char :: "char \<Rightarrow> unit parser" where
  "read_given_char c [] = None"
| "read_given_char c (x # xs) = (if x = c then Some ((), xs) else None)"

definition read_separator :: "char \<Rightarrow> nat \<Rightarrow> 'a parser \<Rightarrow> 'a parser" where
  "read_separator sep index inner s =
     (if 0 < index
      then (case read_given_char sep s of None \<Rightarrow> None | Some (_, s') \<Rightarrow> inner s')
      else inner s)"

definition read_octet :: "nat \<Rightarrow> nat parser" where
  "read_octet i = read_separator CHR ''.'' i (read_number 10 (Some 3) False 256)"

definition read_ipv4_addr :: "ipv4_addr parser" where
  "read_ipv4_addr s =
     (case read_octet 0 s of None \<Rightarrow> None | Some (a, s1) \<Rightarrow>
     (case read_octet 1 s1 of None \<Rightarrow> None | Some (b, s2) \<Rightarrow>
     (case read_octet 2 s2 of None \<Rightarrow> None | Some (c, s3) \<Rightarrow>
     (case read_octet 3 s3 of None \<Rightarrow> None | Some (d, s4) \<Rightarrow>
        Some (Ipv4 (of_nat a) (of_nat b) (of_nat c) (of_nat d), s4)))))"

definition u16_from_be :: "u8 \<Rightarrow> u8 \<Rightarrow> u16" where
  "u16_from_be a b = of_nat (unat a * 256 + unat b)"

text \<open>\<open>read_groups n i\<close>: up to \<open>n\<close> groups, the first with index \<open>i\<close>; a trailing IPv4 address
  fills the last two, if at least two are left. The flag says that it did.\<close>

fun read_groups :: "nat \<Rightarrow> nat \<Rightarrow> string \<Rightarrow> u16 list \<times> bool \<times> string" where
  "read_groups 0 i s = ([], False, s)"
| "read_groups (Suc n) i s =
     (case (if 0 < n then read_separator CHR '':'' i read_ipv4_addr s else None) of
        Some (Ipv4 a b c d, s') \<Rightarrow> ([u16_from_be a b, u16_from_be c d], True, s')
      | None \<Rightarrow>
          (case read_separator CHR '':'' i (read_number 16 (Some 4) True 65536) s of
             Some (g, s') \<Rightarrow>
               (let (gs, v4, s'') = read_groups n (Suc i) s' in (of_nat g # gs, v4, s''))
           | None \<Rightarrow> ([], False, s)))"

definition read_ipv6_addr :: "u16 list parser" where
  "read_ipv6_addr s =
     (let (head, head_ipv4, s1) = read_groups 8 0 s in
      if length head = 8 then Some (head, s1)
      else if head_ipv4 then None
      else (case read_given_char CHR '':'' s1 of None \<Rightarrow> None | Some (_, s2) \<Rightarrow>
           (case read_given_char CHR '':'' s2 of None \<Rightarrow> None | Some (_, s3) \<Rightarrow>
             (let (tail, _, s4) = read_groups (8 - (length head + 1)) 0 s3
              in Some (head @ replicate (8 - length head - length tail) 0 @ tail, s4)))))"

definition read_port :: "nat parser" where
  "read_port s =
     (case read_given_char CHR '':'' s of None \<Rightarrow> None
      | Some (_, s1) \<Rightarrow> read_number 10 None True 65536 s1)"

definition read_scope_id :: "nat parser" where
  "read_scope_id s =
     (case read_given_char CHR ''%'' s of None \<Rightarrow> None
      | Some (_, s1) \<Rightarrow> read_number 10 None True (2 ^ 32) s1)"

definition read_socket_addr_v4 :: "socket_addr parser" where
  "read_socket_addr_v4 s =
     (case read_ipv4_addr s of None \<Rightarrow> None | Some (ip, s1) \<Rightarrow>
     (case read_port s1 of None \<Rightarrow> None | Some (port, s2) \<Rightarrow> Some (SocketV4 ip (of_nat port), s2)))"

definition read_socket_addr_v6 :: "socket_addr parser" where
  "read_socket_addr_v6 s =
     (case read_given_char CHR ''['' s of None \<Rightarrow> None | Some (_, s1) \<Rightarrow>
     (case read_ipv6_addr s1 of None \<Rightarrow> None | Some (ip, s2) \<Rightarrow>
     (let (scope_id, s3) = (case read_scope_id s2 of None \<Rightarrow> (0, s2) | Some r \<Rightarrow> r) in
     (case read_given_char CHR '']'' s3 of None \<Rightarrow> None | Some (_, s4) \<Rightarrow>
     (case read_port s4 of None \<Rightarrow> None | Some (port, s5) \<Rightarrow>
        Some (SocketV6 ip (of_nat port) 0 (of_nat scope_id), s5))))))"

text \<open>\<^verbatim>\<open>parse_with\<close> accepts if nothing is left.\<close>

definition parse_with :: "'a parser \<Rightarrow> string \<Rightarrow> 'a option" where
  "parse_with p s = (case p s of Some (x, []) \<Rightarrow> Some x | _ \<Rightarrow> None)"

definition or_else :: "'a option \<Rightarrow> 'a option \<Rightarrow> 'a option" where
  "or_else x y = (case x of None \<Rightarrow> y | Some _ \<Rightarrow> x)"

definition parse_socket_addr :: "string \<Rightarrow> socket_addr option" where
  "parse_socket_addr = parse_with (\<lambda>s. or_else (read_socket_addr_v4 s) (read_socket_addr_v6 s))"

definition parse_ip_addr :: "string \<Rightarrow> ip_addr option" where
  "parse_ip_addr = parse_with (\<lambda>s. or_else (map_option (map_prod IpV4 id) (read_ipv4_addr s))
     (map_option (map_prod IpV6 id) (read_ipv6_addr s)))"

section \<open>Targets\<close>

definition DEFAULT_PORT :: u16 where
  "DEFAULT_PORT = 12398"

text \<open>A node id is its 32 bytes.\<close>

type_synonym public_key = bytes

datatype target_address = Ip socket_addr | Iroh public_key

fun display_type :: "target_address \<Rightarrow> string" where
  "display_type (Ip _) = ''Direct IP''"
| "display_type (Iroh _) = ''Iroh P2P''"

definition target_from_str :: "(string \<Rightarrow> public_key option) \<Rightarrow> string \<Rightarrow> target_address result" where
  "target_from_str parse_key s0 =
     (let s = trim s0 in
      case parse_socket_addr s of
        Some addr \<Rightarrow> Ok (Ip addr)
      | None \<Rightarrow>
          (case parse_ip_addr s of
             Some ip \<Rightarrow> Ok (Ip (socket_addr_new ip DEFAULT_PORT))
           | None \<Rightarrow>
               (case parse_key s of
                  Some pk \<Rightarrow> Ok (Iroh pk)
                | None \<Rightarrow>
                    bail (''Invalid target address '' @ squote s @ ''. Must be either a valid IP address (e.g., 192.168.1.50:12398) or a valid iroh Node ID.''))))"

text \<open>\<^verbatim>\<open>Display\<close> of an IPv4 address and of one with a port.\<close>

fun show_ipv4 :: "ipv4_addr \<Rightarrow> string" where
  "show_ipv4 (Ipv4 a b c d) = show_nat (unat a) @ ''.'' @ show_nat (unat b) @ ''.'' @
     show_nat (unat c) @ ''.'' @ show_nat (unat d)"

definition show_socket_v4 :: "ipv4_addr \<Rightarrow> u16 \<Rightarrow> string" where
  "show_socket_v4 a port = show_ipv4 a @ '':'' @ show_nat (unat port)"

section \<open>Reading back a printed number\<close>

fun nat_digits :: "nat \<Rightarrow> nat list" where
  "nat_digits n = (if n < 10 then [n] else nat_digits (n div 10) @ [n mod 10])"

declare nat_digits.simps [simp del]

lemma show_nat_digits: "show_nat n = map digit_char (nat_digits n)"
proof (induction n rule: nat_digits.induct)
  case (1 n)
  then show ?case by (subst show_nat.simps, subst nat_digits.simps) simp
qed

lemma nat_digits_nonempty: "nat_digits n \<noteq> []"
  by (subst nat_digits.simps) simp

lemma nat_digits_small: "d \<in> set (nat_digits n) \<Longrightarrow> d < 10"
proof (induction n rule: nat_digits.induct)
  case (1 n)
  then show ?case by (subst (asm) (2) nat_digits.simps) (auto split: if_splits)
qed

lemma digits_value_nat_digits: "digits_value 10 (nat_digits n) = n"
proof (induction n rule: nat_digits.induct)
  case (1 n)
  then show ?case
    by (subst nat_digits.simps) (simp add: digits_value_def)
qed

lemma nat_digits_leading: "10 \<le> n \<Longrightarrow> hd (nat_digits n) \<noteq> 0"
proof (induction n rule: nat_digits.induct)
  case (1 n)
  show ?case
  proof (cases "n div 10 < 10")
    case True
    with 1 show ?thesis by (subst nat_digits.simps, subst nat_digits.simps) simp
  next
    case False
    with 1 show ?thesis by (subst nat_digits.simps) (simp add: nat_digits_nonempty)
  qed
qed

lemma length_nat_digits: "n < 10 ^ Suc k \<Longrightarrow> length (nat_digits n) \<le> Suc k"
proof (induction k arbitrary: n)
  case 0
  then show ?case by (subst nat_digits.simps) simp
next
  case (Suc k)
  then have "n div 10 < 10 ^ Suc k" by (simp add: less_mult_imp_div_less mult.commute)
  with Suc.IH show ?case by (subst nat_digits.simps) simp
qed

definition no_digit :: "string \<Rightarrow> bool" where
  "no_digit s \<longleftrightarrow> s = [] \<or> to_digit 10 (hd s) = None"

lemma no_digit_simps [simp]: "no_digit []" "no_digit (CHR ''.'' # s)" "no_digit (CHR '':'' # s)"
  by (simp_all add: no_digit_def to_digit_def)

lemma to_digit_digit_char: "d < 10 \<Longrightarrow> to_digit 10 (digit_char d) = Some d"
  by (simp add: to_digit_def digit_char_def)

lemma scan_digits_stop: "no_digit s \<Longrightarrow> scan_digits 10 s = ([], s)"
  by (cases s) (simp_all add: no_digit_def)

lemma scan_digits_map:
  "\<forall>d \<in> set ds. d < 10 \<Longrightarrow> no_digit rest \<Longrightarrow> scan_digits 10 (map digit_char ds @ rest) = (ds, rest)"
  by (induction ds) (simp_all add: to_digit_digit_char scan_digits_stop)

lemma read_number_show_nat:
  assumes "no_digit rest" and "n < limit"
    and "case mx of None \<Rightarrow> True | Some m \<Rightarrow> 0 < m \<and> n < 10 ^ m"
  shows "read_number 10 mx zp limit (show_nat n @ rest) = Some (n, rest)"
proof -
  have "scan_digits 10 (show_nat n @ rest) = (nat_digits n, rest)"
    using assms(1) by (simp add: show_nat_digits scan_digits_map nat_digits_small)
  moreover have "\<not> m < length (nat_digits n)" if "mx = Some m" for m
  proof -
    from that assms(3) obtain k where "m = Suc k" "n < 10 ^ Suc k" by (cases m) auto
    then show ?thesis using length_nat_digits [of n k] by simp
  qed
  moreover have "length (nat_digits n) = 1" if "hd (nat_digits n) = 0"
  proof -
    from that nat_digits_leading [of n] have "n < 10" by linarith
    then show ?thesis by (subst nat_digits.simps) simp
  qed
  ultimately show ?thesis
    using assms(2)
    by (auto simp: read_number_def nat_digits_nonempty digits_value_nat_digits split: option.splits)
qed

lemma read_octet_show:
  "no_digit rest \<Longrightarrow> n < 256 \<Longrightarrow> read_octet 0 (show_nat n @ rest) = Some (n, rest)"
  "no_digit rest \<Longrightarrow> n < 256 \<Longrightarrow> 0 < i \<Longrightarrow> read_octet i (CHR ''.'' # show_nat n @ rest) = Some (n, rest)"
  by (simp_all add: read_octet_def read_separator_def read_number_show_nat)

lemma unat_u8_less [simp]: "unat (x :: u8) < 256"
  using unsigned_less [of x] by simp

lemma unat_u16_less [simp]: "unat (x :: u16) < 65536"
  using unsigned_less [of x] by simp

lemma read_ipv4_show:
  "no_digit rest \<Longrightarrow> read_ipv4_addr (show_ipv4 a @ rest) = Some (a, rest)"
  by (cases a) (simp add: read_ipv4_addr_def read_octet_show)

lemma show_nat_Cons: "\<exists>c cs. show_nat n = c # cs \<and> c \<in> digit_char ` {0..<10}"
proof -
  obtain d ds where d: "nat_digits n = d # ds"
    using nat_digits_nonempty by (cases "nat_digits n") auto
  then have "d < 10" using nat_digits_small [of d n] by simp
  with d show ?thesis by (simp add: show_nat_digits)
qed

lemma digit_not_space: "d < 10 \<Longrightarrow> \<not> is_ascii_space (digit_char d)"
  by (simp add: is_ascii_space_def digit_char_def Let_def)

lemma show_nat_hd_last:
  "\<not> is_ascii_space (hd (show_nat n))" "\<not> is_ascii_space (last (show_nat n))" "show_nat n \<noteq> []"
proof -
  have "hd (show_nat n) = digit_char (hd (nat_digits n))"
    and "last (show_nat n) = digit_char (last (nat_digits n))"
    by (simp_all add: show_nat_digits hd_map last_map nat_digits_nonempty)
  then show "\<not> is_ascii_space (hd (show_nat n))" "\<not> is_ascii_space (last (show_nat n))"
    using nat_digits_small [of _ n] by (auto simp: digit_not_space nat_digits_nonempty)
  show "show_nat n \<noteq> []" by (simp add: show_nat_digits nat_digits_nonempty)
qed

lemma trim_id:
  assumes "s \<noteq> []" and "\<not> is_ascii_space (hd s)" and "\<not> is_ascii_space (last s)"
  shows "trim s = s"
proof -
  have "dropWhile P xs = xs" if "xs \<noteq> []" "\<not> P (hd xs)" for P and xs :: string
    using that by (cases xs) auto
  then show ?thesis using assms by (simp add: trim_def hd_rev)
qed

lemma trim_pad:
  assumes "\<forall>c \<in> set l. is_ascii_space c" and "\<forall>c \<in> set r. is_ascii_space c"
  shows "trim (l @ s @ r) = trim s"
proof -
  have l: "dropWhile is_ascii_space (xs @ ys) = dropWhile is_ascii_space ys"
    if "\<forall>c \<in> set xs. is_ascii_space c" for xs ys
    using that by (induction xs) auto
  show ?thesis
  proof (cases "\<forall>c \<in> set s. is_ascii_space c")
    case True
    then have "dropWhile is_ascii_space s = []" and "dropWhile is_ascii_space r = []"
      using assms(2) by simp_all
    with True assms(1) show ?thesis
      by (simp add: trim_def l del: dropWhile_eq_Nil_conv)
  next
    case False
    then have "dropWhile is_ascii_space (s @ r) = dropWhile is_ascii_space s @ r"
      by (metis dropWhile_append1)
    then show ?thesis using assms by (simp add: trim_def l)
  qed
qed

lemma parse_show_socket: "parse_socket_addr (show_socket_v4 a port) = Some (SocketV4 a port)"
  by (simp add: parse_socket_addr_def parse_with_def read_socket_addr_v4_def show_socket_v4_def
      read_ipv4_show read_port_def read_number_show_nat [where rest = "[]", simplified] or_else_def)

section \<open>Properties\<close>

text \<open>
  A printed target is parsed back: an IPv4 address with a port gives that address and
  port, an address alone gives the address with port 12398, whatever white space surrounds
  it and whatever the parser of node ids accepts.
\<close>

theorem ipv4_target_roundtrip:
  assumes "\<forall>c \<in> set l. is_ascii_space c" and "\<forall>c \<in> set r. is_ascii_space c"
  shows "target_from_str parse_key (l @ show_socket_v4 a port @ r) = Ok (Ip (SocketV4 a port)) \<and>
    target_from_str parse_key (l @ show_ipv4 a @ r) = Ok (Ip (SocketV4 a 12398))"
proof -
  obtain w x y z where a: "a = Ipv4 w x y z" by (cases a)
  have t1: "trim (show_socket_v4 a port) = show_socket_v4 a port"
    and t2: "trim (show_ipv4 a) = show_ipv4 a"
    by (rule trim_id; simp add: a show_socket_v4_def show_nat_hd_last)+
  note parse_show_socket [of a port]
  moreover have "read_ipv4_addr (show_ipv4 a) = Some (a, [])"
    using read_ipv4_show [of "[]" a] by simp
  moreover have "parse_socket_addr (show_ipv4 a) = None"
  proof -
    obtain c cs where c: "show_nat (unat w) = c # cs" "c \<in> digit_char ` {0..<10}"
      using show_nat_Cons by blast
    then have "of_char c < (58 :: nat)" by (auto simp: digit_char_def)
    then have "c \<noteq> CHR ''[''" by auto
    then have "read_socket_addr_v6 (show_ipv4 a) = None"
      by (simp add: read_socket_addr_v6_def a c(1))
    with calculation(2) show ?thesis
      by (simp add: parse_socket_addr_def parse_with_def read_socket_addr_v4_def read_port_def or_else_def)
  qed
  ultimately show ?thesis
    using assms
    by (simp add: target_from_str_def trim_pad t1 t2 parse_ip_addr_def parse_with_def or_else_def
        socket_addr_new_def DEFAULT_PORT_def)
qed

theorem ipv4_target_roundtrip_witness:
  "target_from_str (\<lambda>_. None) '' 127.0.0.1 '' = Ok (Ip (SocketV4 (Ipv4 127 0 0 1) 12398))"
proof -
  have "show_ipv4 (Ipv4 127 0 0 1) = ''127.0.0.1''"
    by code_simp
  with ipv4_target_roundtrip [of "'' ''" "'' ''" "\<lambda>_. None" "Ipv4 127 0 0 1"] show ?thesis
    by (simp add: is_ascii_space_def del: show_ipv4.simps)
qed

lemma scan_digits_rest: "scan_digits radix s = (ds, rest) \<Longrightarrow> set rest \<subseteq> set s"
  by (induction s arbitrary: ds) (auto split: option.splits prod.splits)

lemma read_number_rest: "read_number radix mx zp limit s = Some (n, rest) \<Longrightarrow> set rest \<subseteq> set s"
  by (auto simp: read_number_def split: prod.splits if_splits dest!: scan_digits_rest)

lemma read_given_char_absent: "c \<notin> set s \<Longrightarrow> read_given_char c s = None"
  by (cases s) auto

lemma read_separator_absent: "sep \<notin> set s \<Longrightarrow> 0 < i \<Longrightarrow> read_separator sep i p s = None"
  by (simp add: read_separator_def read_given_char_absent)

lemma read_ipv4_needs_dot:
  assumes "CHR ''.'' \<notin> set s"
  shows "read_ipv4_addr s = None"
proof (cases "read_octet 0 s")
  case None
  then show ?thesis by (simp add: read_ipv4_addr_def)
next
  case (Some r)
  then obtain n s1 where r: "read_octet 0 s = Some (n, s1)" by (cases r) auto
  then have "set s1 \<subseteq> set s"
    by (auto simp: read_octet_def read_separator_def dest!: read_number_rest)
  with assms have "CHR ''.'' \<notin> set s1" by blast
  then have "read_octet 1 s1 = None" by (simp add: read_octet_def read_separator_absent)
  with r show ?thesis by (simp add: read_ipv4_addr_def)
qed

lemma read_groups_no_colon:
  "CHR '':'' \<notin> set s \<Longrightarrow> read_groups n (Suc i) s = ([], False, s)"
  by (cases n) (simp_all add: read_separator_absent)

lemma read_ipv6_needs_colon:
  assumes "CHR ''.'' \<notin> set s" and "CHR '':'' \<notin> set s"
  shows "read_ipv6_addr s = None"
proof -
  have 8: "(8 :: nat) = Suc 7" by simp
  have "\<exists>gs s'. read_groups (Suc 7) 0 s = (gs, False, s') \<and> length gs \<le> 1 \<and> set s' \<subseteq> set s"
  proof (cases "read_number 16 (Some 4) True 65536 s")
    case None
    then show ?thesis unfolding read_groups.simps(2)
      by (simp add: read_separator_def read_ipv4_needs_dot [OF assms(1)])
  next
    case (Some r)
    then obtain g s' where r: "read_number 16 (Some 4) True 65536 s = Some (g, s')" by (cases r) auto
    then have s': "set s' \<subseteq> set s" by (rule read_number_rest)
    with assms(2) have "read_groups 7 (Suc 0) s' = ([], False, s')"
      by (intro read_groups_no_colon) auto
    then have "read_groups (Suc 7) 0 s = ([of_nat g], False, s')"
      unfolding read_groups.simps(2) by (simp add: read_separator_def read_ipv4_needs_dot [OF assms(1)] r)
    with s' show ?thesis by simp
  qed
  then obtain gs s' where "read_groups (Suc 7) 0 s = (gs, False, s')" and "length gs \<le> 1"
    and "set s' \<subseteq> set s" by blast
  moreover from this assms(2) have "read_given_char CHR '':'' s' = None"
    by (intro read_given_char_absent) auto
  ultimately show ?thesis unfolding read_ipv6_addr_def 8 by simp
qed

lemma no_address:
  assumes "CHR ''.'' \<notin> set s" and "CHR '':'' \<notin> set s"
  shows "parse_socket_addr s = None" and "parse_ip_addr s = None"
proof -
  have "read_socket_addr_v6 s = None"
    using assms read_ipv6_needs_colon [of "tl s"]
    by (cases s) (auto simp: read_socket_addr_v6_def)
  then show "parse_socket_addr s = None" and "parse_ip_addr s = None"
    by (simp_all add: parse_socket_addr_def parse_ip_addr_def parse_with_def or_else_def
        read_socket_addr_v4_def read_ipv4_needs_dot [OF assms(1)] read_ipv6_needs_colon [OF assms])
qed

text \<open>
  A node id is never mistaken for an address: a target without a dot and without a colon
  is whatever the parser of node ids says of it, and an error if that refuses it.
\<close>

theorem node_id_target:
  assumes "CHR ''.'' \<notin> set (trim s)" and "CHR '':'' \<notin> set (trim s)"
  shows "target_from_str parse_key s = Ok t \<longleftrightarrow> (\<exists>pk. parse_key (trim s) = Some pk \<and> t = Iroh pk)"
  by (auto simp: target_from_str_def no_address [OF assms] bail_def Let_def split: option.splits)

theorem node_id_target_witness:
  "target_from_str (\<lambda>s. if s = ''0a2c'' then Some [10, 44] else None) '' 0a2c'' = Ok (Iroh [10, 44])"
proof -
  have t: "trim '' 0a2c'' = ''0a2c''" by (simp add: trim_def is_ascii_space_def)
  show ?thesis by (subst node_id_target) (simp_all add: t)
qed

end
