(* ===== verification/Protocol.thy ===== *)
theory Protocol
  imports Prelude
begin

text \<open>
  The wire data of \<^verbatim>\<open>src/protocol.rs\<close>: the metadata of an input device, input events, and
  the messages that client and server exchange. The byte format is the \<^verbatim>\<open>postcard\<close> crate's;
  it is not in the repository, so encoding and decoding are the two fields of a \<open>codec\<close>
  record, and \<open>codec_ok\<close> states the one documented fact the program relies on: decoding
  what was encoded gives the value back.
\<close>

section \<open>Wire types\<close>

record abs_axis_wire =
  ax_code :: u16
  ax_value :: i32
  ax_minimum :: i32
  ax_maximum :: i32
  ax_fuzz :: i32
  ax_flat :: i32
  ax_resolution :: i32

record device_metadata =
  dm_name :: string
  dm_bustype :: u16
  dm_vendor :: u16
  dm_product :: u16
  dm_version :: u16
  dm_keys :: "u16 list"
  dm_abs_axes :: "abs_axis_wire list"
  dm_rel_axes :: "u16 list"

record event_wire =
  ev_type :: u16
  ev_code :: u16
  ev_value :: i32

datatype ack_status = Approved | PendingApproval | Rejected

record handshake_payload =
  hp_client_id :: string
  hp_client_hostname :: string
  hp_metadata :: device_metadata
  hp_device_id :: "string option"

datatype message =
    Handshake handshake_payload
  | HandshakeAck ack_status (ack_server_hostname: string) (ack_message: string)
  | Events "event_wire list"
  | Ping
  | Pong

section \<open>Encoding\<close>

record codec =
  to_allocvec :: "message \<Rightarrow> bytes result"
  from_bytes :: "bytes \<Rightarrow> message result"

definition message_encode :: "codec \<Rightarrow> message \<Rightarrow> bytes result" where
  "message_encode c m = to_allocvec c m"

definition message_decode :: "codec \<Rightarrow> bytes \<Rightarrow> message result" where
  "message_decode c bs = from_bytes c bs"

definition codec_ok :: "codec \<Rightarrow> bool" where
  "codec_ok c \<longleftrightarrow> (\<forall>m bs. message_encode c m = Ok bs \<longrightarrow> message_decode c bs = Ok m)"

lemma codec_okD: "codec_ok c \<Longrightarrow> message_encode c m = Ok bs \<Longrightarrow> message_decode c bs = Ok m"
  by (simp add: codec_ok_def)

lemma codec_ok_inject:
  "codec_ok c \<Longrightarrow> message_encode c m = Ok bs \<Longrightarrow> message_encode c m' = Ok bs \<Longrightarrow> m = m'"
  by (metis codec_okD sum.inject(2))

section \<open>A codec given by a table\<close>

text \<open>
  A concrete codec with finitely many messages, used to evaluate the model on examples: it
  shows that the hypothesis \<open>codec_ok\<close> can hold.
\<close>

definition table_codec :: "(message \<times> bytes) list \<Rightarrow> codec" where
  "table_codec tbl = \<lparr>
     to_allocvec = (\<lambda>m. case map_of tbl m of None \<Rightarrow> bail ''not encodable'' | Some bs \<Rightarrow> Ok bs),
     from_bytes = (\<lambda>bs. case find (\<lambda>e. snd e = bs) tbl of
        None \<Rightarrow> bail ''not decodable'' | Some e \<Rightarrow> Ok (fst e)) \<rparr>"

lemma table_codec_ok: "distinct (map snd tbl) \<Longrightarrow> codec_ok (table_codec tbl)"
  by (auto simp: codec_ok_def message_encode_def message_decode_def table_codec_def
      find_snd_unique bail_def split: option.splits dest!: map_of_SomeD)

end
