(* ===== verification/Device.thy ===== *)
theory Device
  imports Protocol "HOL-Library.Multiset"
begin

text \<open>
  \<^verbatim>\<open>src/device.rs\<close>: finding and classifying input devices, describing one as wire metadata,
  and the virtual device on the server that replays its events.

  The \<^verbatim>\<open>evdev\<close> crate is outside the repository. A physical device is the record of what its
  accessors return; the numbers of the key constants are the parameter \<open>kc\<close>; the builder of
  virtual devices is the record \<open>uinput_env\<close>, in which each of its calls may fail. A virtual
  device keeps the configuration it was built from and the batches it accepted.
\<close>

section \<open>Physical devices\<close>

record input_id =
  id_bustype :: u16
  id_vendor :: u16
  id_product :: u16
  id_version :: u16

record abs_info =
  ai_value :: i32
  ai_minimum :: i32
  ai_maximum :: i32
  ai_fuzz :: i32
  ai_flat :: i32
  ai_resolution :: i32

record evdev_device =
  dv_name :: "string option"
  dv_input_id :: input_id
  dv_keys :: "u16 list option"
  dv_abs :: "u16 list option"
  dv_abs_state :: "abs_info list option"
  dv_rel :: "u16 list option"

datatype key_const =
    BTN_SOUTH | BTN_EAST | BTN_NORTH | BTN_WEST | BTN_TL | BTN_TR | BTN_SELECT | BTN_START
  | BTN_MODE | BTN_THUMBL | BTN_THUMBR | BTN_TRIGGER | BTN_THUMB | BTN_LEFT | BTN_RIGHT
  | KEY_A | KEY_ENTER

datatype device_type = Gamepad | Joystick | Keyboard | Mouse | Other

fun device_type_display :: "device_type \<Rightarrow> string" where
  "device_type_display Gamepad = ''Gamepad''"
| "device_type_display Joystick = ''Joystick''"
| "device_type_display Keyboard = ''Keyboard''"
| "device_type_display Mouse = ''Mouse''"
| "device_type_display Other = ''Other''"

record device_info =
  di_path :: string
  di_name :: string
  di_device_type :: device_type
  di_vendor :: u16
  di_product :: u16

section \<open>Order of paths\<close>

text \<open>\<^verbatim>\<open>Path::cmp\<close> compares component by component; the kinds of component are ordered as
  the standard library declares them.\<close>

datatype path_component = RootDir | CurDir | ParentDir | Normal string

fun component_rank :: "path_component \<Rightarrow> nat \<times> string" where
  "component_rank RootDir = (0, [])"
| "component_rank CurDir = (1, [])"
| "component_rank ParentDir = (2, [])"
| "component_rank (Normal s) = (3, s)"

lemma component_rank_inject [simp]: "component_rank a = component_rank b \<longleftrightarrow> a = b"
  by (cases a; cases b) auto

instantiation path_component :: linorder
begin

definition less_eq_path_component :: "path_component \<Rightarrow> path_component \<Rightarrow> bool" where
  "less_eq_path_component a b \<longleftrightarrow>
     fst (component_rank a) < fst (component_rank b) \<or>
     fst (component_rank a) = fst (component_rank b) \<and> snd (component_rank a) \<le> snd (component_rank b)"

definition less_path_component :: "path_component \<Rightarrow> path_component \<Rightarrow> bool" where
  "less_path_component a b \<longleftrightarrow>
     fst (component_rank a) < fst (component_rank b) \<or>
     fst (component_rank a) = fst (component_rank b) \<and> snd (component_rank a) < snd (component_rank b)"

instance
proof
  fix a b c :: path_component
  show "a < b \<longleftrightarrow> a \<le> b \<and> \<not> b \<le> a"
    by (auto simp: less_path_component_def less_eq_path_component_def)
  show "a \<le> a" by (simp add: less_eq_path_component_def)
  show "a \<le> b \<Longrightarrow> b \<le> c \<Longrightarrow> a \<le> c" by (auto simp: less_eq_path_component_def)
  show "a \<le> b \<Longrightarrow> b \<le> a \<Longrightarrow> a = b"
    by (auto simp: less_eq_path_component_def simp flip: component_rank_inject intro: prod_eqI)
  show "a \<le> b \<or> b \<le> a" by (auto simp: less_eq_path_component_def)
qed

end

fun split_slash :: "string \<Rightarrow> string list" where
  "split_slash [] = [[]]"
| "split_slash (c # cs) =
     (if c = CHR 0x2F then [] # split_slash cs
      else (case split_slash cs of [] \<Rightarrow> [[c]] | s # ss \<Rightarrow> (c # s) # ss))"

definition path_components :: "string \<Rightarrow> path_component list" where
  "path_components p =
     (let segs = split_slash p;
          body = concat (map (\<lambda>s. if s = [] \<or> s = ''.'' then []
                                   else if s = ''..'' then [ParentDir] else [Normal s]) segs)
      in if p \<noteq> [] \<and> hd p = CHR 0x2F then RootDir # body
         else if hd segs = ''.'' then CurDir # body else body)"

section \<open>Scanning\<close>

definition noise_words :: "string list" where
  "noise_words = [''motion sensors'', ''system control'', ''consumer control'', ''hdmi'', ''pcm='',
     ''headphone'', ''video bus'', ''lid switch'', ''power button'', ''sleep button'',
     ''pc speaker'', ''hotkeys'', ''button array'', ''privacy driver'',
     ''wireless controller touchpad'']"

definition is_noise_device :: "string \<Rightarrow> bool" where
  "is_noise_device name = (let n = to_lowercase name in list_ex (str_contains n) noise_words)"

definition has_key :: "(key_const \<Rightarrow> u16) \<Rightarrow> evdev_device \<Rightarrow> key_const \<Rightarrow> bool" where
  "has_key kc dev k = (case dv_keys dev of None \<Rightarrow> False | Some ks \<Rightarrow> kc k \<in> set ks)"

definition gamepad_buttons :: "key_const list" where
  "gamepad_buttons = [BTN_SOUTH, BTN_EAST, BTN_NORTH, BTN_WEST, BTN_TL, BTN_TR, BTN_SELECT,
     BTN_START, BTN_MODE, BTN_THUMBL, BTN_THUMBR]"

definition classify_device :: "(key_const \<Rightarrow> u16) \<Rightarrow> evdev_device \<Rightarrow> device_type" where
  "classify_device kc dev =
     (let has_gamepad_btn = list_ex (has_key kc dev) gamepad_buttons;
          has_joystick_btn = has_key kc dev BTN_TRIGGER \<or> has_key kc dev BTN_THUMB;
          has_keyboard_keys = has_key kc dev KEY_A \<and> has_key kc dev KEY_ENTER;
          has_mouse_btn = has_key kc dev BTN_LEFT \<and> has_key kc dev BTN_RIGHT
      in if has_gamepad_btn then Gamepad
         else if has_joystick_btn \<or> (dv_abs dev \<noteq> None \<and> has_gamepad_btn) then Joystick
         else if has_mouse_btn \<or> dv_rel dev \<noteq> None then Mouse
         else if has_keyboard_keys then Keyboard
         else Other)"

type_synonym device_enum = "(string \<times> evdev_device) list"

text \<open>One turn of the scan loop: the device's entry, or nothing where the loop continues.\<close>

definition scan_device ::
  "(key_const \<Rightarrow> u16) \<Rightarrow> bool \<Rightarrow> bool \<Rightarrow> bool \<Rightarrow> string \<times> evdev_device \<Rightarrow> device_info list" where
  "scan_device kc include_keyboard include_mouse include_all entry =
     (let (path, device) = entry;
          name = (case dv_name device of None \<Rightarrow> ''Unknown Device'' | Some n \<Rightarrow> n);
          device_type = classify_device kc device;
          info = [\<lparr>di_path = path, di_name = name, di_device_type = device_type,
                   di_vendor = id_vendor (dv_input_id device),
                   di_product = id_product (dv_input_id device)\<rparr>]
      in if \<not> include_all
         then (if device_type = Other \<or> is_noise_device name then []
               else (case device_type of
                       Gamepad \<Rightarrow> info
                     | Joystick \<Rightarrow> info
                     | Keyboard \<Rightarrow> (if include_keyboard then info else [])
                     | Mouse \<Rightarrow> (if include_mouse then info else [])
                     | Other \<Rightarrow> []))
         else info)"

definition list_devices_filtered ::
  "(key_const \<Rightarrow> u16) \<Rightarrow> device_enum \<Rightarrow> bool \<Rightarrow> bool \<Rightarrow> bool \<Rightarrow> device_info list" where
  "list_devices_filtered kc devs include_keyboard include_mouse include_all =
     sort_key (\<lambda>d. path_components (di_path d))
       (concat (map (scan_device kc include_keyboard include_mouse include_all) devs))"

definition list_devices :: "(key_const \<Rightarrow> u16) \<Rightarrow> device_enum \<Rightarrow> device_info list" where
  "list_devices kc devs = list_devices_filtered kc devs False False False"

definition find_first_gamepad :: "(key_const \<Rightarrow> u16) \<Rightarrow> device_enum \<Rightarrow> string option" where
  "find_first_gamepad kc devs =
     map_option di_path
       (find (\<lambda>d. di_device_type d = Gamepad \<or> di_device_type d = Joystick) (list_devices kc devs))"

section \<open>Metadata\<close>

definition abs_wire :: "u16 \<Rightarrow> abs_info \<Rightarrow> abs_axis_wire" where
  "abs_wire code i = \<lparr>ax_code = code, ax_value = ai_value i, ax_minimum = ai_minimum i,
     ax_maximum = ai_maximum i, ax_fuzz = ai_fuzz i, ax_flat = ai_flat i,
     ax_resolution = ai_resolution i\<rparr>"

definition extract_abs_axes :: "evdev_device \<Rightarrow> abs_axis_wire list" where
  "extract_abs_axes dev =
     (case (dv_abs dev, dv_abs_state dev) of
        (Some supported, Some abs_infos) \<Rightarrow>
          concat (map (\<lambda>(code, info).
            let code_u16 = of_nat code
            in if code_u16 \<in> set supported then [abs_wire code_u16 info] else [])
            (List.enumerate 0 abs_infos))
      | _ \<Rightarrow> [])"

definition extract_metadata :: "evdev_device \<Rightarrow> device_metadata" where
  "extract_metadata dev = \<lparr>
     dm_name = (case dv_name dev of None \<Rightarrow> ''Joycast Virtual Device'' | Some n \<Rightarrow> n),
     dm_bustype = id_bustype (dv_input_id dev),
     dm_vendor = id_vendor (dv_input_id dev),
     dm_product = id_product (dv_input_id dev),
     dm_version = id_version (dv_input_id dev),
     dm_keys = (case dv_keys dev of None \<Rightarrow> [] | Some ks \<Rightarrow> ks),
     dm_abs_axes = extract_abs_axes dev,
     dm_rel_axes = (case dv_rel dev of None \<Rightarrow> [] | Some rs \<Rightarrow> rs)\<rparr>"

section \<open>Virtual devices\<close>

text \<open>
  What one use of the \<^verbatim>\<open>uinput\<close> interface answers: \<open>Some e\<close> is a failure of the named call.
  Inserting a code into an \<^verbatim>\<open>AttributeSet\<close> is a call of the crate with no error value, so its
  only failure is a panic.
\<close>

record uinput_env =
  ui_builder :: "string option"
  ui_insert_key :: "u16 \<Rightarrow> string option"
  ui_with_keys :: "string option"
  ui_insert_rel :: "u16 \<Rightarrow> string option"
  ui_with_rel :: "string option"
  ui_with_abs :: "abs_axis_wire \<Rightarrow> string option"
  ui_build :: "string option"
  ui_emit :: "string option"

record uinput_config =
  uc_name :: string
  uc_id :: input_id
  uc_keys :: "u16 set option"
  uc_rel :: "u16 set option"
  uc_abs :: "abs_axis_wire list"

record input_event =
  ie_type :: u16
  ie_code :: u16
  ie_value :: i32

record virtual_output =
  vo_name :: string
  vo_config :: uinput_config
  vo_log :: "input_event list list"

definition answer :: "string option \<Rightarrow> 'a \<Rightarrow> 'a result" where
  "answer e x = (case e of None \<Rightarrow> Ok x | Some m \<Rightarrow> Err (Fail [m]))"

definition insert_code :: "(u16 \<Rightarrow> string option) \<Rightarrow> u16 \<Rightarrow> u16 set \<Rightarrow> u16 set result" where
  "insert_code ins k ks = (case ins k of None \<Rightarrow> Ok (insert k ks) | Some m \<Rightarrow> Err (Panic m))"

fun insert_codes :: "(u16 \<Rightarrow> string option) \<Rightarrow> u16 list \<Rightarrow> u16 set \<Rightarrow> u16 set result" where
  "insert_codes ins [] acc = Ok acc"
| "insert_codes ins (k # ks) acc = and_then (insert_code ins k acc) (insert_codes ins ks)"

fun add_abs_axes ::
  "uinput_env \<Rightarrow> abs_axis_wire list \<Rightarrow> uinput_config \<Rightarrow> uinput_config result" where
  "add_abs_axes u [] b = Ok b"
| "add_abs_axes u (a # as) b =
     and_then (with_context ''Failed to setup absolute axis''
                (answer (ui_with_abs u a) (b\<lparr>uc_abs := uc_abs b @ [a]\<rparr>)))
       (add_abs_axes u as)"

definition new_with_name ::
  "uinput_env \<Rightarrow> device_metadata \<Rightarrow> string \<Rightarrow> virtual_output result" where
  "new_with_name u meta dev_name =
     (case ui_builder u of
        Some e \<Rightarrow> bail (''Failed to open /dev/uinput ('' @ e @ ''). Run '' @ squote ''sudo joycast server''
          @ '' or add your user to the '' @ squote ''input'' @ '' group with uinput udev rules enabled.'')
      | None \<Rightarrow>
          let b0 = \<lparr>uc_name = dev_name,
                    uc_id = \<lparr>id_bustype = dm_bustype meta, id_vendor = dm_vendor meta,
                             id_product = dm_product meta, id_version = dm_version meta\<rparr>,
                    uc_keys = None, uc_rel = None, uc_abs = []\<rparr>
          in and_then (insert_codes (ui_insert_key u) (dm_keys meta) {}) (\<lambda>key_set.
             and_then (if dm_keys meta \<noteq> []
                       then with_context ''Failed to set keys''
                              (answer (ui_with_keys u) (b0\<lparr>uc_keys := Some key_set\<rparr>))
                       else Ok b0) (\<lambda>b1.
             and_then (insert_codes (ui_insert_rel u) (dm_rel_axes meta) {}) (\<lambda>rel_set.
             and_then (if dm_rel_axes meta \<noteq> []
                       then with_context ''Failed to set relative axes''
                              (answer (ui_with_rel u) (b1\<lparr>uc_rel := Some rel_set\<rparr>))
                       else Ok b1) (\<lambda>b2.
             and_then (add_abs_axes u (dm_abs_axes meta) b2) (\<lambda>b3.
             and_then (with_context (''Failed to build virtual uinput device (check uinput ''
                         @ ''permissions or run with sudo)'') (answer (ui_build u) b3)) (\<lambda>cfg.
             Ok \<lparr>vo_name = dev_name, vo_config = cfg, vo_log = []\<rparr>)))))))"

definition virtual_new :: "uinput_env \<Rightarrow> device_metadata \<Rightarrow> virtual_output result" where
  "virtual_new u meta = new_with_name u meta (dm_name meta @ '': (Joycast)'')"

definition to_input_event :: "event_wire \<Rightarrow> input_event" where
  "to_input_event e = \<lparr>ie_type = ev_type e, ie_code = ev_code e, ie_value = ev_value e\<rparr>"

text \<open>The device after the call and what the call returned.\<close>

definition emit ::
  "uinput_env \<Rightarrow> event_wire list \<Rightarrow> virtual_output \<Rightarrow> virtual_output \<times> unit result" where
  "emit u events vo =
     (let evs = map to_input_event events
      in if evs \<noteq> []
         then (case ui_emit u of
                 Some e \<Rightarrow> (vo, with_context ''Failed to emit events to virtual uinput device''
                                  (Err (Fail [e])))
               | None \<Rightarrow> (vo\<lparr>vo_log := vo_log vo @ [evs]\<rparr>, Ok ()))
         else (vo, Ok ()))"

section \<open>Lemmas on scanning\<close>

lemma gamepad_never_by_joystick_axes:
  "classify_device kc dev =
     (if list_ex (has_key kc dev) gamepad_buttons then Gamepad
      else if has_key kc dev BTN_TRIGGER \<or> has_key kc dev BTN_THUMB then Joystick
      else if (has_key kc dev BTN_LEFT \<and> has_key kc dev BTN_RIGHT) \<or> dv_rel dev \<noteq> None then Mouse
      else if has_key kc dev KEY_A \<and> has_key kc dev KEY_ENTER then Keyboard
      else Other)"
  by (simp add: classify_device_def Let_def)

definition wanted :: "bool \<Rightarrow> bool \<Rightarrow> device_type \<Rightarrow> bool" where
  "wanted kb mouse t \<longleftrightarrow>
     t = Gamepad \<or> t = Joystick \<or> (t = Keyboard \<and> kb) \<or> (t = Mouse \<and> mouse)"

definition device_info_of :: "(key_const \<Rightarrow> u16) \<Rightarrow> string \<times> evdev_device \<Rightarrow> device_info" where
  "device_info_of kc e =
     \<lparr>di_path = fst e,
      di_name = (case dv_name (snd e) of None \<Rightarrow> ''Unknown Device'' | Some n \<Rightarrow> n),
      di_device_type = classify_device kc (snd e),
      di_vendor = id_vendor (dv_input_id (snd e)),
      di_product = id_product (dv_input_id (snd e))\<rparr>"

lemma device_info_of_simps [simp]:
  "di_path (device_info_of kc e) = fst e"
  "di_device_type (device_info_of kc e) = classify_device kc (snd e)"
  by (simp_all add: device_info_of_def)

definition listed :: "(key_const \<Rightarrow> u16) \<Rightarrow> bool \<Rightarrow> bool \<Rightarrow> bool \<Rightarrow> string \<times> evdev_device \<Rightarrow> bool" where
  "listed kc kb mouse all e \<longleftrightarrow>
     all \<or> (wanted kb mouse (classify_device kc (snd e)) \<and> \<not> is_noise_device (di_name (device_info_of kc e)))"

lemma scan_device_eq:
  "scan_device kc kb mouse all e = (if listed kc kb mouse all e then [device_info_of kc e] else [])"
  by (cases "classify_device kc (snd e)")
    (auto simp: scan_device_def listed_def wanted_def device_info_of_def Let_def split: prod.splits)

lemma concat_scan_device:
  "concat (map (scan_device kc kb mouse all) devs) = map (device_info_of kc) (filter (listed kc kb mouse all) devs)"
  by (induction devs) (auto simp: scan_device_eq)

lemma list_devices_filtered_eq:
  "list_devices_filtered kc devs kb mouse all =
     sort_key (\<lambda>d. path_components (di_path d)) (map (device_info_of kc) (filter (listed kc kb mouse all) devs))"
  by (simp add: list_devices_filtered_def concat_scan_device)

lemma set_list_devices_filtered:
  "set (list_devices_filtered kc devs kb mouse all) = device_info_of kc ` {e \<in> set devs. listed kc kb mouse all e}"
  by (auto simp: list_devices_filtered_eq)

lemma list_devices_types:
  "d \<in> set (list_devices kc devs) \<Longrightarrow> di_device_type d = Gamepad \<or> di_device_type d = Joystick"
  by (auto simp: list_devices_def set_list_devices_filtered listed_def wanted_def)

lemma find_first_gamepad_eq:
  "find_first_gamepad kc devs =
     (case list_devices kc devs of [] \<Rightarrow> None | d # _ \<Rightarrow> Some (di_path d))"
proof (cases "list_devices kc devs")
  case (Cons d ds)
  then have "di_device_type d = Gamepad \<or> di_device_type d = Joystick"
    using list_devices_types [of d kc devs] by simp
  with Cons show ?thesis by (auto simp: find_first_gamepad_def)
qed (simp add: find_first_gamepad_def)

section \<open>Lemmas on metadata and virtual devices\<close>

lemma answer_Ok [simp]: "answer e x = Inr y \<longleftrightarrow> e = None \<and> y = x"
  by (auto simp: answer_def split: option.splits)

lemma is_ok_answer [simp]: "is_ok (answer e x) \<longleftrightarrow> e = None"
  by (auto simp: answer_def split: option.splits)

lemma insert_codes_Ok:
  "insert_codes ins ks acc = Inr s \<longleftrightarrow> list_all (\<lambda>k. ins k = None) ks \<and> s = acc \<union> set ks"
  by (induction ks arbitrary: acc) (auto simp: insert_code_def split: option.splits)

lemma add_abs_axes_Ok:
  "add_abs_axes u as b = Inr c \<longleftrightarrow>
     list_all (\<lambda>a. ui_with_abs u a = None) as \<and> c = b\<lparr>uc_abs := uc_abs b @ as\<rparr>"
  by (induction as arbitrary: b) (auto simp: and_then_Inr_iff)

definition set_unless_empty :: "u16 list \<Rightarrow> u16 set option" where
  "set_unless_empty ks = (if ks = [] then None else Some (set ks))"

definition creatable :: "uinput_env \<Rightarrow> device_metadata \<Rightarrow> bool" where
  "creatable u meta \<longleftrightarrow>
     ui_builder u = None \<and>
     list_all (\<lambda>k. ui_insert_key u k = None) (dm_keys meta) \<and>
     (dm_keys meta = [] \<or> ui_with_keys u = None) \<and>
     list_all (\<lambda>k. ui_insert_rel u k = None) (dm_rel_axes meta) \<and>
     (dm_rel_axes meta = [] \<or> ui_with_rel u = None) \<and>
     list_all (\<lambda>a. ui_with_abs u a = None) (dm_abs_axes meta) \<and>
     ui_build u = None"

definition config_of :: "device_metadata \<Rightarrow> string \<Rightarrow> uinput_config" where
  "config_of meta n =
     \<lparr>uc_name = n,
      uc_id = \<lparr>id_bustype = dm_bustype meta, id_vendor = dm_vendor meta,
               id_product = dm_product meta, id_version = dm_version meta\<rparr>,
      uc_keys = set_unless_empty (dm_keys meta), uc_rel = set_unless_empty (dm_rel_axes meta),
      uc_abs = dm_abs_axes meta\<rparr>"

lemma new_with_name_Ok:
  "new_with_name u meta n = Inr vo \<longleftrightarrow>
     creatable u meta \<and> vo = \<lparr>vo_name = n, vo_config = config_of meta n, vo_log = []\<rparr>"
  by (cases "dm_keys meta = []"; cases "dm_rel_axes meta = []"; cases "ui_builder u")
    (auto simp: new_with_name_def creatable_def config_of_def set_unless_empty_def Let_def
      and_then_Inr_iff insert_codes_Ok add_abs_axes_Ok)

lemma is_ok_iff: "is_ok r \<longleftrightarrow> (\<exists>x. r = Inr x)"
  by (cases r) auto

lemma is_ok_new_with_name: "is_ok (new_with_name u meta n) \<longleftrightarrow> creatable u meta"
  by (simp add: is_ok_iff new_with_name_Ok)

lemma emit_cases:
  "emit u events vo =
     (if events = [] then (vo, Ok ())
      else (case ui_emit u of
              Some e \<Rightarrow> (vo, Err (Fail [''Failed to emit events to virtual uinput device'', e]))
            | None \<Rightarrow> (vo\<lparr>vo_log := vo_log vo @ [map to_input_event events]\<rparr>, Ok ())))"
  by (auto simp: emit_def Let_def split: option.splits)

lemma emit_keeps_config [simp]:
  "vo_config (fst (emit u evs vo)) = vo_config vo" "vo_name (fst (emit u evs vo)) = vo_name vo"
  by (auto simp: emit_cases split: option.splits)

lemma to_input_event_inject [simp]: "to_input_event a = to_input_event b \<longleftrightarrow> a = b"
  by (cases a; cases b) (auto simp: to_input_event_def)

lemma set_enumerate_iff: "(i, x) \<in> set (List.enumerate 0 xs) \<longleftrightarrow> i < length xs \<and> xs ! i = x"
  by (auto simp: in_set_enumerate_eq)

lemma extract_abs_axes_codes:
  "dv_abs dev = Some codes \<Longrightarrow> dv_abs_state dev = Some infos \<Longrightarrow>
   map ax_code (extract_abs_axes dev) = filter (\<lambda>c. c \<in> set codes) (map of_nat [0..<length infos])"
proof -
  have "map ax_code (concat (map (\<lambda>(code, info). let w = of_nat code
            in if w \<in> set codes then [abs_wire w info] else []) (List.enumerate n infos)))
        = filter (\<lambda>c. c \<in> set codes) (map of_nat [n..<n + length infos])" for n
  proof (induction infos arbitrary: n)
    case (Cons i infos)
    have "[n..<n + length (i # infos)] = n # [Suc n..<Suc n + length infos]"
      by (subst upt_conv_Cons) simp_all
    with Cons.IH [of "Suc n"] show ?case by (simp add: abs_wire_def Let_def)
  qed simp
  then show "dv_abs dev = Some codes \<Longrightarrow> dv_abs_state dev = Some infos \<Longrightarrow> ?thesis"
    by (simp add: extract_abs_axes_def)
qed

lemma extract_abs_axes_member:
  "dv_abs dev = Some codes \<Longrightarrow> dv_abs_state dev = Some infos \<Longrightarrow>
   a \<in> set (extract_abs_axes dev) \<longleftrightarrow>
     (\<exists>i < length infos. of_nat i \<in> set codes \<and> a = abs_wire (of_nat i) (infos ! i))"
  by (force simp: extract_abs_axes_def Let_def set_enumerate_iff split: if_splits)

lemma sorted_of_nat_upt: "n \<le> 65536 \<Longrightarrow> sorted_wrt (<) (map (of_nat :: nat \<Rightarrow> u16) [0..<n])"
  by (auto simp: sorted_wrt_iff_nth_less word_less_nat_alt unat_of_nat)

section \<open>Properties\<close>

text \<open>
  The scan is complete, exact and ordered: the result is sorted by path, and it holds, with
  multiplicity, one entry for each enumerated device that either everything was asked for or
  whose type is wanted (gamepads and joysticks always, keyboards and mice on request) and whose
  name is not that of a noise device.
\<close>

theorem scan_exact_sorted:
  "sorted (map (\<lambda>d. path_components (di_path d)) (list_devices_filtered kc devs kb mouse all)) \<and>
   mset (list_devices_filtered kc devs kb mouse all) =
     mset (map (device_info_of kc) (filter (\<lambda>e. all \<or>
       wanted kb mouse (classify_device kc (snd e)) \<and>
       \<not> is_noise_device (case dv_name (snd e) of None \<Rightarrow> ''Unknown Device'' | Some n \<Rightarrow> n)) devs))"
proof -
  have "(\<lambda>e. all \<or> wanted kb mouse (classify_device kc (snd e)) \<and>
       \<not> is_noise_device (case dv_name (snd e) of None \<Rightarrow> ''Unknown Device'' | Some n \<Rightarrow> n))
       = listed kc kb mouse all"
    by (rule ext) (simp add: listed_def device_info_of_def)
  then show ?thesis unfolding list_devices_filtered_eq mset_sort by simp
qed

text \<open>
  The default device of a client is the controller with the least path: what
  \<open>find_first_gamepad\<close> returns is the path of an enumerated device classified as gamepad or
  joystick, not a noise device, and no other such device has a smaller path; and it returns
  nothing only when there is no such device.
\<close>

theorem first_gamepad_least:
  assumes "(q, dev) \<in> set devs" and "classify_device kc dev \<in> {Gamepad, Joystick}"
    and "\<not> is_noise_device (case dv_name dev of None \<Rightarrow> ''Unknown Device'' | Some n \<Rightarrow> n)"
  shows "\<exists>p pdev. find_first_gamepad kc devs = Some p \<and> (p, pdev) \<in> set devs \<and>
           classify_device kc pdev \<in> {Gamepad, Joystick} \<and> path_components p \<le> path_components q"
proof -
  have q: "device_info_of kc (q, dev) \<in> set (list_devices kc devs)"
  proof -
    have "listed kc False False False (q, dev)"
      using assms(2,3) by (auto simp: listed_def wanted_def device_info_of_def)
    with assms(1) show ?thesis by (auto simp: list_devices_def set_list_devices_filtered)
  qed
  then obtain d ds where l: "list_devices kc devs = d # ds" by (cases "list_devices kc devs") auto
  have "sorted (map (\<lambda>d. path_components (di_path d)) (d # ds))"
    unfolding l [symmetric] by (simp add: list_devices_def list_devices_filtered_eq)
  with q l have le: "path_components (di_path d) \<le> path_components q" by auto
  have d: "d \<in> set (list_devices kc devs)" using l by simp
  then have t: "di_device_type d \<in> {Gamepad, Joystick}" by (auto dest: list_devices_types)
  from d obtain e where "e \<in> set devs" "d = device_info_of kc e"
    by (auto simp: list_devices_def set_list_devices_filtered)
  with t le l show ?thesis by (cases e) (auto simp: find_first_gamepad_eq)
qed

definition demo_kc :: "key_const \<Rightarrow> u16" where
  "demo_kc k = (case k of BTN_SOUTH \<Rightarrow> 304 | BTN_TRIGGER \<Rightarrow> 288 | BTN_LEFT \<Rightarrow> 272 | BTN_RIGHT \<Rightarrow> 273
     | KEY_A \<Rightarrow> 30 | KEY_ENTER \<Rightarrow> 28 | _ \<Rightarrow> 310)"

definition demo_pad :: evdev_device where
  "demo_pad = \<lparr>dv_name = Some ''Pad'',
     dv_input_id = \<lparr>id_bustype = 3, id_vendor = 1118, id_product = 736, id_version = 2\<rparr>,
     dv_keys = Some [304, 305], dv_abs = Some [0],
     dv_abs_state = Some [\<lparr>ai_value = 0, ai_minimum = - 128, ai_maximum = 127, ai_fuzz = 0,
       ai_flat = 0, ai_resolution = 0\<rparr>], dv_rel = None\<rparr>"

definition demo_mouse :: evdev_device where
  "demo_mouse = demo_pad\<lparr>dv_name := Some ''Mouse'', dv_keys := Some [272, 273], dv_abs := None,
     dv_rel := Some [0, 8]\<rparr>"

lemma demo_pad_type: "classify_device demo_kc demo_pad = Gamepad"
  by (simp add: classify_device_def has_key_def gamepad_buttons_def demo_kc_def demo_pad_def)

lemma demo_pad_not_noise: "\<not> is_noise_device ''Pad''"
  by code_simp

theorem first_gamepad_least_witness:
  "\<exists>p pdev. find_first_gamepad demo_kc [(''/dev/input/event9'', demo_mouse), (''/dev/input/event3'', demo_pad)]
     = Some p \<and> (p, pdev) \<in> {(''/dev/input/event9'', demo_mouse), (''/dev/input/event3'', demo_pad)} \<and>
     classify_device demo_kc pdev \<in> {Gamepad, Joystick} \<and>
     path_components p \<le> path_components ''/dev/input/event3''"
proof -
  have "\<not> is_noise_device (case dv_name demo_pad of None \<Rightarrow> ''Unknown Device'' | Some n \<Rightarrow> n)"
    using demo_pad_not_noise by (simp add: demo_pad_def)
  with first_gamepad_least [of "''/dev/input/event3''" demo_pad
      "[(''/dev/input/event9'', demo_mouse), (''/dev/input/event3'', demo_pad)]" demo_kc]
  show ?thesis by (simp add: demo_pad_type)
qed


definition demo_uinput :: uinput_env where
  "demo_uinput = \<lparr>ui_builder = None, ui_insert_key = Map.empty, ui_with_keys = None,
     ui_insert_rel = Map.empty, ui_with_rel = None, ui_with_abs = Map.empty, ui_build = None,
     ui_emit = None\<rparr>"

lemma demo_creatable: "creatable demo_uinput meta"
  by (simp add: creatable_def demo_uinput_def list_all_iff)


text \<open>
  Creating a virtual device succeeds exactly when every call it needs succeeds: the builder,
  each code's insertion, the key and relative-axis setups (made only when there are such codes),
  each absolute axis's setup and the final build; the outcome does not depend on the name.
\<close>

theorem virtual_creation_outcome:
  "is_ok (new_with_name u meta n) \<longleftrightarrow>
     ui_builder u = None \<and>
     list_all (\<lambda>k. ui_insert_key u k = None) (dm_keys meta) \<and>
     (dm_keys meta = [] \<or> ui_with_keys u = None) \<and>
     list_all (\<lambda>k. ui_insert_rel u k = None) (dm_rel_axes meta) \<and>
     (dm_rel_axes meta = [] \<or> ui_with_rel u = None) \<and>
     list_all (\<lambda>a. ui_with_abs u a = None) (dm_abs_axes meta) \<and>
     ui_build u = None"
  by (simp add: is_ok_new_with_name creatable_def)

text \<open>
  A virtual device replays batches unchanged and in order: after any sequence of \<open>emit\<close>
  calls the device has received, after what it had, exactly the non-empty batches whose call
  did not fail, event by event; empty batches make no call, a failed call drops its batch only,
  and the device's configuration never changes.
\<close>

theorem emit_replays_in_order:
  "vo_log (foldl (\<lambda>vo c. fst (emit (fst c) (snd c) vo)) vo calls) =
     vo_log vo @ map (\<lambda>c. map to_input_event (snd c))
                   (filter (\<lambda>c. snd c \<noteq> [] \<and> ui_emit (fst c) = None) calls) \<and>
   vo_config (foldl (\<lambda>vo c. fst (emit (fst c) (snd c) vo)) vo calls) = vo_config vo"
proof (induction calls rule: rev_induct)
  case (snoc c calls)
  then show ?case by (cases "ui_emit (fst c)") (auto simp: emit_cases)
qed simp

end
