(* ===== verification/Frame.thy ===== *)
theory Frame
  imports Protocol
begin

unbundle bit_operations_syntax

text \<open>
  Length-prefixed framing of messages over a byte stream: \<^verbatim>\<open>JoycastServer::write_frame\<close> and
  \<^verbatim>\<open>JoycastServer::read_frame\<close> of \<^verbatim>\<open>src/server.rs\<close>, which both ends of an Iroh connection
  use. The reader is the list of bytes that will arrive before the stream ends; the writer
  keeps the bytes written, the number of bytes the peer still accepts before the connection
  breaks, and whether a flush succeeds, so that each of the three write errors is a branch.
\<close>

section \<open>Big-endian 32-bit integers\<close>

definition be32 :: "u32 \<Rightarrow> bytes" where
  "be32 w = [ucast (drop_bit 24 w), ucast (drop_bit 16 w), ucast (drop_bit 8 w), ucast w]"

definition of_be32 :: "u8 \<Rightarrow> u8 \<Rightarrow> u8 \<Rightarrow> u8 \<Rightarrow> u32" where
  "of_be32 a b c d =
     push_bit 24 (ucast a) OR push_bit 16 (ucast b) OR push_bit 8 (ucast c) OR ucast d"

lemma length_be32 [simp]: "length (be32 w) = 4"
  by (simp add: be32_def)

lemma of_be32_be32:
  "of_be32 (ucast (drop_bit 24 w)) (ucast (drop_bit 16 w)) (ucast (drop_bit 8 w)) (ucast w) = w"
proof (rule bit_word_eqI)
  fix n :: nat
  consider "n < 8" | "8 \<le> n" "n < 16" | "16 \<le> n" "n < 24" | "24 \<le> n" by linarith
  then show "bit (of_be32 (ucast (drop_bit 24 w)) (ucast (drop_bit 16 w))
      (ucast (drop_bit 8 w)) (ucast w)) n = bit w n" if "n < LENGTH(32)"
    using that by cases (auto simp: of_be32_def bit_simps)
qed

section \<open>Reading\<close>

text \<open>\<^verbatim>\<open>AsyncReadExt::read_u32\<close> and \<^verbatim>\<open>read_exact\<close>: an early end of the stream is an error.\<close>

definition early_eof :: failure where
  "early_eof = Fail [''early eof'']"

definition read_exact :: "nat \<Rightarrow> bytes \<Rightarrow> (bytes \<times> bytes) result" where
  "read_exact n bs = (if length bs < n then Err early_eof else Ok (take n bs, drop n bs))"

fun read_u32 :: "bytes \<Rightarrow> (u32 \<times> bytes) result" where
  "read_u32 (a # b # c # d # rest) = Ok (of_be32 a b c d, rest)"
| "read_u32 _ = Err early_eof"

definition max_frame :: nat where
  "max_frame = 10 * 1024 * 1024"

definition read_frame :: "codec \<Rightarrow> bytes \<Rightarrow> (message \<times> bytes) result" where
  "read_frame c bs =
     (case with_context ''Failed to read frame length'' (read_u32 bs) of
        Inl e \<Rightarrow> Err e
      | Inr (len, rest) \<Rightarrow>
          if max_frame < unat len
          then bail (''Frame size too large: '' @ show_nat (unat len) @ '' bytes'')
          else (case with_context ''Failed to read frame payload'' (read_exact (unat len) rest) of
                  Inl e \<Rightarrow> Err e
                | Inr (payload, rest') \<Rightarrow>
                    (case with_context ''Failed to decode message payload''
                            (message_decode c payload) of
                       Inl e \<Rightarrow> Err e
                     | Inr m \<Rightarrow> Ok (m, rest'))))"

section \<open>Writing\<close>

record byte_writer =
  bw_out :: bytes
  bw_room :: nat
  bw_flush :: bool

text \<open>\<^verbatim>\<open>AsyncWriteExt::write_all\<close>: a broken connection keeps the part it accepted.\<close>

definition write_all :: "bytes \<Rightarrow> byte_writer \<Rightarrow> unit result \<times> byte_writer" where
  "write_all bs w =
     (if length bs \<le> bw_room w
      then (Ok (), w\<lparr>bw_out := bw_out w @ bs, bw_room := bw_room w - length bs\<rparr>)
      else (Err (Fail [''connection lost'']),
            w\<lparr>bw_out := bw_out w @ take (bw_room w) bs, bw_room := 0\<rparr>))"

definition write_u32 :: "u32 \<Rightarrow> byte_writer \<Rightarrow> unit result \<times> byte_writer" where
  "write_u32 x w = write_all (be32 x) w"

definition flush :: "byte_writer \<Rightarrow> unit result" where
  "flush w = (if bw_flush w then Ok () else Err (Fail [''connection lost'']))"

definition write_frame :: "codec \<Rightarrow> message \<Rightarrow> byte_writer \<Rightarrow> unit result \<times> byte_writer" where
  "write_frame c m w =
     (case with_context ''Failed to encode message'' (message_encode c m) of
        Inl e \<Rightarrow> (Err e, w)
      | Inr bs \<Rightarrow>
          (case write_u32 (of_nat (length bs)) w of
             (Inl e, w1) \<Rightarrow> (with_context ''Failed to write frame length'' (Err e), w1)
           | (Inr _, w1) \<Rightarrow>
               (case write_all bs w1 of
                  (Inl e, w2) \<Rightarrow> (with_context ''Failed to write frame payload'' (Err e), w2)
                | (Inr _, w2) \<Rightarrow> (with_context ''Failed to flush writer'' (flush w2), w2))))"

section \<open>Frames as a stream codec\<close>

text \<open>The bytes of a frame, and the messages whose frames the reader takes back.\<close>

definition frame_bytes :: "codec \<Rightarrow> message \<Rightarrow> bytes" where
  "frame_bytes c m =
     (case message_encode c m of Inl _ \<Rightarrow> [] | Inr bs \<Rightarrow> be32 (of_nat (length bs)) @ bs)"

definition sendable :: "codec \<Rightarrow> message \<Rightarrow> bool" where
  "sendable c m \<longleftrightarrow> (\<exists>bs. message_encode c m = Ok bs \<and> message_decode c bs = Ok m \<and>
     length bs \<le> max_frame)"

lemma sendableI:
  "codec_ok c \<Longrightarrow> message_encode c m = Ok bs \<Longrightarrow> length bs \<le> max_frame \<Longrightarrow> sendable c m"
  by (auto simp: sendable_def dest: codec_okD)

lemma be32_of_be32: "be32 (of_be32 a b c d) = [a, b, c, d]"
  by (auto simp: be32_def of_be32_def intro!: bit_word_eqI)
    (auto simp: bit_simps dest: bit_imp_le_length)

lemma read_u32_be32 [simp]: "read_u32 (be32 w @ rest) = Ok (w, rest)"
  by (simp add: be32_def of_be32_be32)

lemma read_u32_OkD: "read_u32 bs = Ok (w, rest) \<Longrightarrow> bs = be32 w @ rest"
  by (cases bs rule: read_u32.cases) (auto simp: be32_of_be32)

lemma read_u32_length: "read_u32 bs = Ok (w, rest) \<Longrightarrow> length bs = length rest + 4"
  by (cases bs rule: read_u32.cases) auto

lemma read_u32_short: "length bs < 4 \<Longrightarrow> read_u32 bs = Err early_eof"
  by (cases bs rule: read_u32.cases) auto

lemma unat_frame_len: "n \<le> max_frame \<Longrightarrow> unat (of_nat n :: u32) = n"
  by (simp add: unat_of_nat max_frame_def)

lemma read_frame_OkD:
  assumes "read_frame c bs = Ok (m, rest)"
  obtains len payload where "read_u32 bs = Ok (len, payload @ rest)"
    and "unat len \<le> max_frame" and "length payload = unat len"
    and "message_decode c payload = Ok m"
  using assms
  by (auto simp: read_frame_def read_exact_def not_less bail_def
        split: sum.splits prod.splits if_splits)
     (metis append_take_drop_id length_take min.absorb2)

lemma read_frame_shrinks:
  assumes "read_frame c bs = Ok (m, rest)"
  shows "length rest + 4 \<le> length bs"
proof -
  from assms obtain len payload where "read_u32 bs = Ok (len, payload @ rest)"
    by (rule read_frame_OkD)
  then show ?thesis by (auto dest: read_u32_length)
qed

lemma read_frame_frame_bytes:
  assumes "sendable c m"
  shows "read_frame c (frame_bytes c m @ rest) = Ok (m, rest)"
  using assms
  by (auto simp: sendable_def frame_bytes_def read_frame_def read_exact_def unat_frame_len)

interpretation fr: stream_codec "frame_bytes c" "read_frame c" "sendable c" for c
proof unfold_locales
  show "read_frame c (frame_bytes c m @ rest) = Inr (m, rest)" if "sendable c m" for m rest
    using that by (rule read_frame_frame_bytes)
  show "length rest < length bs" if "read_frame c bs = Inr (m, rest)" for bs m rest
    using read_frame_shrinks [OF that] by simp
qed

section \<open>What a write leaves on the stream\<close>

text \<open>Whatever the outcome, a write appends a prefix of the frame to the stream.\<close>

lemma write_all_cases:
  obtains "length bs \<le> bw_room w"
    "write_all bs w = (Ok (), w\<lparr>bw_out := bw_out w @ bs, bw_room := bw_room w - length bs\<rparr>)"
  | "bw_room w < length bs"
    "write_all bs w = (Err (Fail [''connection lost'']),
       w\<lparr>bw_out := bw_out w @ take (bw_room w) bs, bw_room := 0\<rparr>)"
  by (cases "length bs \<le> bw_room w") (auto simp: write_all_def)

lemma write_frame_OkD:
  assumes "write_frame c m w = (Ok (), w')"
  obtains bs where "message_encode c m = Ok bs" and "bw_out w' = bw_out w @ frame_bytes c m"
    and "bw_room w = bw_room w' + 4 + length bs" and "bw_flush w' = bw_flush w"
  using assms
  by (auto simp: write_frame_def write_u32_def write_all_def flush_def frame_bytes_def
      split: sum.splits prod.splits if_splits)

lemma write_frame_Ok:
  assumes "message_encode c m = Ok bs" and "4 + length bs \<le> bw_room w" and "bw_flush w"
  shows "write_frame c m w =
    (Ok (), w\<lparr>bw_out := bw_out w @ frame_bytes c m, bw_room := bw_room w - (4 + length bs)\<rparr>)"
  using assms
  by (auto simp: write_frame_def write_u32_def write_all_def flush_def frame_bytes_def)

lemma write_frame_prefix:
  "\<exists>p. bw_out (snd (write_frame c m w)) = bw_out w @ p \<and> prefix p (frame_bytes c m)"
  by (auto simp: write_frame_def write_u32_def write_all_def frame_bytes_def take_is_prefix
      split: sum.splits prod.splits)

text \<open>Writing several messages one after the other, up to the first error.\<close>

fun write_frames :: "codec \<Rightarrow> message list \<Rightarrow> byte_writer \<Rightarrow> unit result \<times> byte_writer" where
  "write_frames c [] w = (Ok (), w)"
| "write_frames c (m # ms) w =
     (case write_frame c m w of
        (Inl e, w1) \<Rightarrow> (Err e, w1)
      | (Inr _, w1) \<Rightarrow> write_frames c ms w1)"

lemma write_frames_out:
  "write_frames c ms w = (Ok (), w') \<Longrightarrow>
   bw_out w' = bw_out w @ concat (map (frame_bytes c) ms) \<and>
   (\<forall>m \<in> set ms. \<exists>bs. message_encode c m = Ok bs)"
proof (induction ms arbitrary: w)
  case Nil
  then show ?case by simp
next
  case (Cons m ms)
  from Cons.prems obtain w1 where w1: "write_frame c m w = (Ok (), w1)"
    and ms: "write_frames c ms w1 = (Ok (), w')"
    by (auto split: prod.splits sum.splits)
  from w1 show ?case
    by (rule write_frame_OkD) (use Cons.IH [OF ms] in auto)
qed

section \<open>Properties\<close>

text \<open>
  Framing round trip: what \<open>write_frame\<close> put on a connection, \<open>read_frame\<close> takes back,
  and it leaves exactly the bytes that followed, for every message of at most 10 MiB.
\<close>

theorem frame_roundtrip:
  assumes "codec_ok c" and "write_frame c m w = (Ok (), w')"
    and "message_encode c m = Ok bs" and "length bs \<le> max_frame"
  shows "read_frame c (drop (length (bw_out w)) (bw_out w') @ rest) = Ok (m, rest)"
proof -
  have "bw_out w' = bw_out w @ frame_bytes c m"
    using assms(2) by (rule write_frame_OkD)
  moreover have "sendable c m"
    using assms(1,3,4) by (rule sendableI)
  ultimately show ?thesis by (simp add: fr.get_put)
qed

theorem frame_roundtrip_witness:
  "let c = table_codec [(Ping, [3]), (Pong, [4])];
       w = \<lparr>bw_out = [9], bw_room = 100, bw_flush = True\<rparr>
   in read_frame c (drop 1 (bw_out (snd (write_frame c Ping w))) @ [7, 8]) = Ok (Ping, [7, 8])"
proof -
  let ?c = "table_codec [(Ping, [3]), (Pong, [4])]"
  let ?w = "\<lparr>bw_out = [9], bw_room = 100, bw_flush = True\<rparr>"
  have enc: "message_encode ?c Ping = Ok [3]"
    by (simp add: message_encode_def table_codec_def)
  have wr: "write_frame ?c Ping ?w = (Ok (), snd (write_frame ?c Ping ?w))"
    by (subst (1 2) write_frame_Ok [OF enc]) simp_all
  have "codec_ok ?c" by (rule table_codec_ok) simp
  from frame_roundtrip [OF this wr enc, of "[7, 8]"] show ?thesis
    by (simp add: Let_def max_frame_def)
qed

text \<open>
  A sequence of messages written over one connection is read back in the same order,
  with nothing left over: frames neither merge nor split.
\<close>

theorem frame_stream_roundtrip:
  assumes "codec_ok c" and "write_frames c ms w = (Ok (), w')"
    and "\<forall>m \<in> set ms. \<forall>bs. message_encode c m = Ok bs \<longrightarrow> length bs \<le> max_frame"
  shows "reads (read_frame c) (drop (length (bw_out w)) (bw_out w')) ms []"
proof -
  from write_frames_out [OF assms(2)]
  have out: "drop (length (bw_out w)) (bw_out w') = concat (map (frame_bytes c) ms) @ []"
    and "\<forall>m \<in> set ms. \<exists>bs. message_encode c m = Ok bs" by auto
  then have "\<forall>m \<in> set ms. sendable c m"
    using assms(1,3) by (meson sendableI)
  then show ?thesis unfolding out by (rule fr.reads_concat)
qed

theorem frame_stream_roundtrip_witness:
  "let c = table_codec [(Ping, [3]), (Pong, [4])];
       w = \<lparr>bw_out = [], bw_room = 100, bw_flush = True\<rparr>
   in reads (read_frame c) (drop 0 (bw_out (snd (write_frames c [Ping, Pong, Ping] w))))
        [Ping, Pong, Ping] []"
proof -
  let ?c = "table_codec [(Ping, [3]), (Pong, [4])]"
  let ?w = "\<lparr>bw_out = [], bw_room = 100, bw_flush = True\<rparr>"
  have enc: "message_encode ?c Ping = Ok [3]" "message_encode ?c Pong = Ok [4]"
    by (simp_all add: message_encode_def table_codec_def)
  have wr: "write_frames ?c [Ping, Pong, Ping] ?w =
      (Ok (), snd (write_frames ?c [Ping, Pong, Ping] ?w))"
    by (simp add: write_frame_Ok enc)
  have "codec_ok ?c" by (rule table_codec_ok) simp
  from frame_stream_roundtrip [OF this wr] show ?thesis
    by (simp add: Let_def enc max_frame_def)
qed

text \<open>
  A frame that is cut off before its last byte never yields a message: the reader
  reports a missing length or a missing payload.
\<close>

theorem truncated_frame_fails:
  assumes "message_encode c m = Ok bs" and "length bs \<le> max_frame"
    and "strict_prefix p (frame_bytes c m)"
  shows "\<exists>e. read_frame c p = Err e \<and>
    display_failure e \<in> {''Failed to read frame length'', ''Failed to read frame payload''}"
proof (cases "length p < 4")
  case True
  then show ?thesis by (simp add: read_frame_def read_u32_short early_eof_def)
next
  case False
  from assms(3) obtain s where s: "frame_bytes c m = p @ s" "s \<noteq> []"
    by (auto elim: strict_prefixE')
  let ?h = "be32 (of_nat (length bs))"
  from s assms(1) have eq: "?h @ bs = p @ s" by (simp add: frame_bytes_def)
  have "take 4 (?h @ bs) = take 4 (p @ s)" and "drop 4 (?h @ bs) = drop 4 (p @ s)"
    unfolding eq by simp_all
  with False have "take 4 p = ?h" and bs: "bs = drop 4 p @ s" by simp_all
  then have p: "p = ?h @ drop 4 p" by (metis append_take_drop_id)
  have "length (drop 4 p) < length bs" using bs s(2) by (metis length_append
      less_add_same_cancel1 length_greater_0_conv)
  then show ?thesis
    using assms(2)
    by (subst (1) p) (simp add: read_frame_def read_exact_def unat_frame_len early_eof_def)
qed

theorem truncated_frame_fails_witness:
  "let c = table_codec [(Ping, [3, 5])]
   in \<exists>e. read_frame c [0, 0, 0, 2, 3] = Err e \<and>
      display_failure e \<in> {''Failed to read frame length'', ''Failed to read frame payload''}"
proof -
  let ?c = "table_codec [(Ping, [3, 5])]"
  have enc: "message_encode ?c Ping = Ok [3, 5]"
    by (simp add: message_encode_def table_codec_def)
  have "strict_prefix [0, 0, 0, 2, 3] (frame_bytes ?c Ping)"
    by (simp add: frame_bytes_def enc be32_def)
  from truncated_frame_fails [OF enc _ this] show ?thesis by (simp add: max_frame_def Let_def)
qed

text \<open>
  The reader refuses every frame that declares more than 10 MiB, without reading its
  payload: a message that encodes to more than that can be written, never received.
\<close>

theorem oversized_frame_refused:
  assumes "message_encode c m = Ok bs" and "max_frame < length bs" and "length bs < 2 ^ 32"
  shows "read_frame c (frame_bytes c m @ rest) =
    bail (''Frame size too large: '' @ show_nat (length bs) @ '' bytes'')"
  using assms
  by (simp add: read_frame_def frame_bytes_def unat_of_nat)

theorem oversized_frame_refused_witness:
  "let c = table_codec [(Ping, replicate 10485761 7)]
   in read_frame c (frame_bytes c Ping @ [1]) =
      bail (''Frame size too large: '' @ show_nat 10485761 @ '' bytes'')"
proof -
  let ?c = "table_codec [(Ping, replicate 10485761 7)]"
  have enc: "message_encode ?c Ping = Ok (replicate 10485761 7)"
    by (simp add: message_encode_def table_codec_def)
  from oversized_frame_refused [OF enc, of "[1]"] show ?thesis
    by (simp add: max_frame_def Let_def)
qed

text \<open>
  Soundness and bound of the reader: a message it returns was decoded from a payload
  of at most 10 MiB that stood on the stream behind its own length, and nothing else was
  consumed.
\<close>

theorem read_frame_sound:
  assumes "read_frame c bs = Ok (m, rest)"
  shows "\<exists>payload. bs = be32 (of_nat (length payload)) @ payload @ rest \<and>
    length payload \<le> 10485760 \<and> message_decode c payload = Ok m"
proof -
  from assms obtain len payload where 1: "read_u32 bs = Ok (len, payload @ rest)"
    and 2: "unat len \<le> max_frame" "length payload = unat len" "message_decode c payload = Ok m"
    by (rule read_frame_OkD)
  from 1 have "bs = be32 len @ payload @ rest" by (rule read_u32_OkD)
  moreover from 2 have "of_nat (length payload) = len" by simp
  ultimately show ?thesis using 2 by (auto simp: max_frame_def)
qed

theorem read_frame_sound_witness:
  "\<exists>payload. [0, 0, 0, 1, 3, 9] = be32 (of_nat (length payload)) @ payload @ [9] \<and>
    length payload \<le> 10485760 \<and> message_decode (table_codec [(Ping, [3])]) payload = Ok Ping"
proof -
  have "read_frame (table_codec [(Ping, [3])]) [0, 0, 0, 1, 3, 9] = Ok (Ping, [9])"
    by (simp add: read_frame_def of_be32_def read_exact_def max_frame_def message_decode_def
        table_codec_def)
  then show ?thesis by (rule read_frame_sound)
qed

end
