(* ===== verification/Client.thy ===== *)
theory Client
  imports History Transport Device Frame
begin

text \<open>
  \<^verbatim>\<open>src/client.rs\<close> up to the event loops: the client's identity, the choice of server and input
  device, opening and reopening the device, and the messages it sends. The loops over UDP and
  Iroh are in \<open>ClientLoop\<close>.

  What the code calls outside the repository in one step is the record \<open>client_env\<close>: the device
  enumeration and \<^verbatim>\<open>Device::open\<close>, key parsing and generation, what standard input yields, the
  clock and JSON of the history, and whether a write of the id file succeeds.
\<close>

section \<open>Data\<close>

record client_config =
  cc_target :: "string option"
  cc_device_path :: "string option"
  cc_keyboard :: bool
  cc_mouse :: bool
  cc_all :: bool
  cc_history_file :: "string option"
  cc_client_id_file :: "string option"

definition client_config_default :: client_config where
  "client_config_default = \<lparr>cc_target = None, cc_device_path = None, cc_keyboard = False,
     cc_mouse = False, cc_all = False, cc_history_file = None, cc_client_id_file = None\<rparr>"

record device_selection =
  sel_requested_path :: "string option"
  sel_keyboard :: bool
  sel_mouse :: bool
  sel_all :: bool

record joycast_client =
  jc_target :: target_address
  jc_target_raw :: string
  jc_selection :: device_selection
  jc_client_id :: string
  jc_history_file :: "string option"

record client_env =
  cn_codec :: codec
  cn_hostname :: string
  cn_kc :: "key_const \<Rightarrow> u16"
  cn_devices :: device_enum
  cn_open :: "string \<Rightarrow> evdev_device option"
  cn_stream_err :: "string option"
  cn_parse_key :: "string \<Rightarrow> public_key option"
  cn_new_id :: string
  cn_id_write :: bool
  cn_target_input :: "string result"
  cn_device_input :: "string result"
  cn_history :: history_env
  cn_send_err :: "string option"
  cn_debug :: "message \<Rightarrow> string"

section \<open>Identity of a device\<close>

record device_identity =
  idn_name :: string
  idn_bustype :: u16
  idn_vendor :: u16
  idn_product :: u16
  idn_version :: u16

definition identity_from_metadata :: "device_metadata \<Rightarrow> device_identity" where
  "identity_from_metadata m = \<lparr>idn_name = dm_name m, idn_bustype = dm_bustype m,
     idn_vendor = dm_vendor m, idn_product = dm_product m, idn_version = dm_version m\<rparr>"

definition identity_matches :: "device_identity \<Rightarrow> device_metadata \<Rightarrow> bool" where
  "identity_matches i m \<longleftrightarrow> i = identity_from_metadata m"

record reconnecting_device =
  rd_preferred_path :: string
  rd_identity :: device_identity

definition reconnecting_new :: "string \<Rightarrow> device_metadata \<Rightarrow> reconnecting_device" where
  "reconnecting_new path m = \<lparr>rd_preferred_path = path, rd_identity = identity_from_metadata m\<rparr>"

text \<open>The scan of \<^verbatim>\<open>try_reopen\<close>: a device at the preferred path ends it, the first other match is
  kept as the fallback.\<close>

fun reopen_scan ::
  "reconnecting_device \<Rightarrow> (string \<times> evdev_device) option \<Rightarrow> device_enum \<Rightarrow>
   evdev_device + (string \<times> evdev_device) option" where
  "reopen_scan rd fallback [] = Inr fallback"
| "reopen_scan rd fallback ((path, device) # rest) =
     (if \<not> identity_matches (rd_identity rd) (extract_metadata device)
      then reopen_scan rd fallback rest
      else if path = rd_preferred_path rd then Inl device
      else reopen_scan rd (case fallback of None \<Rightarrow> Some (path, device) | Some f \<Rightarrow> Some f) rest)"

definition try_reopen :: "device_enum \<Rightarrow> reconnecting_device \<Rightarrow> evdev_device option \<times> reconnecting_device" where
  "try_reopen devs rd =
     (case reopen_scan rd None devs of
        Inl device \<Rightarrow> (Some device, rd)
      | Inr (Some (path, device)) \<Rightarrow> (Some device, rd\<lparr>rd_preferred_path := path\<rparr>)
      | Inr None \<Rightarrow> (None, rd))"

section \<open>Client id\<close>

definition client_id_path :: "process_env \<Rightarrow> string option \<Rightarrow> string" where
  "client_id_path pe custom =
     (case custom of
        Some p \<Rightarrow> p
      | None \<Rightarrow> path_join (path_join (case pe_config_dir pe of None \<Rightarrow> ''.'' | Some d \<Rightarrow> d) ''joycast'')
                  ''client_id'')"

text \<open>The id, and the files after the call; an error of the write is ignored.\<close>

definition load_or_create_client_id ::
  "client_env \<Rightarrow> process_env \<Rightarrow> string option \<Rightarrow> string \<times> process_env" where
  "load_or_create_client_id env pe custom =
     (let id_file = client_id_path pe custom;
          fresh = (cn_new_id env,
                   if cn_id_write env
                   then pe\<lparr>pe_file := (pe_file pe)(id_file := Text (cn_new_id env))\<rparr> else pe)
      in case pe_file pe id_file of
           Text s \<Rightarrow> (if trim s \<noteq> [] then (trim s, pe) else fresh)
         | _ \<Rightarrow> fresh)"

section \<open>Parsing a number\<close>

text \<open>\<^verbatim>\<open>str::parse::<usize>\<close> on a 64-bit machine: digits from the left, an optional plus sign,
  overflow checked at each digit.\<close>

definition usize_limit :: nat where
  "usize_limit = 2 ^ 64"

fun usize_digits :: "nat \<Rightarrow> string \<Rightarrow> nat result" where
  "usize_digits acc [] = Ok acc"
| "usize_digits acc (c # cs) =
     (let n = of_char c :: nat in
      if \<not> (48 \<le> n \<and> n \<le> 57) then bail ''invalid digit found in string''
      else let v = 10 * acc + (n - 48)
           in if usize_limit \<le> v then bail ''number too large to fit in target type''
              else usize_digits v cs)"

fun parse_usize :: "string \<Rightarrow> nat result" where
  "parse_usize [] = bail ''cannot parse integer from empty string''"
| "parse_usize (c # cs) =
     (if c = CHR 0x2B
      then (if cs = [] then bail ''invalid digit found in string'' else usize_digits 0 cs)
      else usize_digits 0 (c # cs))"

section \<open>Choosing the server\<close>

definition parse_selection :: "string \<Rightarrow> nat result" where
  "parse_selection input = with_context ''Invalid selection index'' (parse_usize (trim input))"

definition resolve_specified ::
  "client_env \<Rightarrow> process_env \<Rightarrow> string \<Rightarrow> string option \<Rightarrow> (target_address \<times> string) result" where
  "resolve_specified env pe target_str history_file =
     (case target_from_str (cn_parse_key env) target_str of
        Inr target \<Rightarrow> Ok (target, target_str)
      | Inl _ \<Rightarrow>
          (case find_by_hostname (history_with_path (cn_history env) pe history_file) target_str of
             Some matched \<Rightarrow>
               and_then (target_from_str (cn_parse_key env) (ks_target matched))
                 (\<lambda>target. Ok (target, ks_target matched))
           | None \<Rightarrow>
               bail (''Could not resolve target '' @ squote target_str @ ''. Must be an IP address ''
                 @ ''(e.g. 192.168.1.50:12398), a 64-character Iroh Node ID, or a known server ''
                 @ ''hostname in history.'')))"

definition resolve_interactive ::
  "client_env \<Rightarrow> process_env \<Rightarrow> string option \<Rightarrow> (target_address \<times> string) result" where
  "resolve_interactive env pe history_file =
     (let history = history_with_path (cn_history env) pe history_file
      in if list_servers history = []
         then bail (''No target specified and no previously connected servers found. Specify a ''
                @ ''target with '' @ squote ''joycast client <TARGET>'')
         else and_then (with_context ''Failed to read input selection'' (cn_target_input env)) (\<lambda>input.
              and_then (parse_selection input) (\<lambda>choice.
              case get_by_index history choice of
                None \<Rightarrow> bail ''Selection out of bounds''
              | Some selected \<Rightarrow>
                  and_then (target_from_str (cn_parse_key env) (ks_target selected))
                    (\<lambda>target. Ok (target, ks_target selected)))))"

definition resolve_target ::
  "client_env \<Rightarrow> process_env \<Rightarrow> string option \<Rightarrow> string option \<Rightarrow> (target_address \<times> string) result" where
  "resolve_target env pe specified history_file =
     (case specified of
        Some target_str \<Rightarrow> resolve_specified env pe target_str history_file
      | None \<Rightarrow> resolve_interactive env pe history_file)"

section \<open>Choosing the device\<close>

definition select_device_path :: "client_env \<Rightarrow> client_config \<Rightarrow> string option result" where
  "select_device_path env config =
     (case cc_device_path config of
        Some path \<Rightarrow> Ok (Some path)
      | None \<Rightarrow>
          (let devices = list_devices_filtered (cn_kc env) (cn_devices env) (cc_keyboard config)
                           (cc_mouse config) (cc_all config)
           in if devices = [] then Ok None
              else if length devices = 1 then Ok (Some (di_path (devices ! 0)))
              else and_then (with_context ''Failed to read device selection'' (cn_device_input env)) (\<lambda>input.
                   and_then (parse_selection input) (\<lambda>choice.
                   if choice = 0 \<or> length devices < choice
                   then bail ''Selection index out of bounds''
                   else Ok (Some (di_path (devices ! (choice - 1))))))))"

text \<open>\<^verbatim>\<open>JoycastClient::new\<close>, with the files it leaves.\<close>

definition client_new ::
  "client_env \<Rightarrow> process_env \<Rightarrow> client_config \<Rightarrow> joycast_client result \<times> process_env" where
  "client_new env pe config =
     (case resolve_target env pe (cc_target config) (cc_history_file config) of
        Inl e \<Rightarrow> (Err e, pe)
      | Inr (target, target_raw) \<Rightarrow>
          (let (client_id, pe1) = load_or_create_client_id env pe (cc_client_id_file config)
           in (and_then (select_device_path env config) (\<lambda>requested_path.
                 Ok \<lparr>jc_target = target, jc_target_raw = target_raw,
                     jc_selection = \<lparr>sel_requested_path = requested_path,
                       sel_keyboard = cc_keyboard config, sel_mouse = cc_mouse config,
                       sel_all = cc_all config\<rparr>,
                     jc_client_id = client_id, jc_history_file = cc_history_file config\<rparr>), pe1)))"

section \<open>Opening the device and building messages\<close>

definition try_open_initial_device ::
  "client_env \<Rightarrow> device_selection \<Rightarrow> (evdev_device \<times> string) option \<times> device_selection" where
  "try_open_initial_device env sel =
     (case sel_requested_path sel of
        Some path \<Rightarrow> (map_option (\<lambda>device. (device, path)) (cn_open env path), sel)
      | None \<Rightarrow>
          (case list_devices_filtered (cn_kc env) (cn_devices env) (sel_keyboard sel) (sel_mouse sel)
                  (sel_all sel) of
             [] \<Rightarrow> (None, sel)
           | selected # _ \<Rightarrow>
               (case cn_open env (di_path selected) of
                  Some device \<Rightarrow> (Some (device, di_path selected),
                                  sel\<lparr>sel_requested_path := Some (di_path selected)\<rparr>)
                | None \<Rightarrow> (None, sel))))"

definition event_message :: "input_event \<Rightarrow> message" where
  "event_message ev = Events [\<lparr>ev_type = ie_type ev, ev_code = ie_code ev, ev_value = ie_value ev\<rparr>]"

definition handshake_message :: "client_env \<Rightarrow> string \<Rightarrow> device_metadata \<Rightarrow> string \<Rightarrow> message" where
  "handshake_message env client_id metadata device_path =
     Handshake \<lparr>hp_client_id = client_id, hp_client_hostname = cn_hostname env,
       hp_metadata = metadata, hp_device_id = Some device_path\<rparr>"

text \<open>\<^verbatim>\<open>HistoryStore::with_path\<close> and \<^verbatim>\<open>record_connection\<close> after an approved handshake; its error is
  dropped.\<close>

definition record_history ::
  "client_env \<Rightarrow> string option \<Rightarrow> string \<Rightarrow> string \<Rightarrow> string \<Rightarrow> process_env \<Rightarrow> process_env" where
  "record_history env history_file server_hostname target_raw transport pe =
     (let st = snd (record_connection (cn_history env) server_hostname target_raw transport
                 (history_with_path (cn_history env) pe history_file))
      in pe\<lparr>pe_file := (pe_file pe)(hs_store_path st := hs_file st)\<rparr>)"

end
