(* ===== verification/ClientLoop.thy ===== *)
theory ClientLoop
  imports Client
begin

text \<open>
  The two event loops of \<^verbatim>\<open>src/client.rs\<close>, \<^verbatim>\<open>run_udp_client\<close> and \<^verbatim>\<open>run_iroh_client\<close>, as step
  functions: an input is one branch of a \<^verbatim>\<open>select!\<close> that becomes ready (a timer tick, a
  received datagram or frame, an event of the device's stream) or the end of a timeout, and a
  step does what the branch's body does, with each \<^verbatim>\<open>?\<close> and \<^verbatim>\<open>bail!\<close> ending the loop. An input
  that the current phase does not wait for changes nothing.
\<close>

section \<open>State\<close>

datatype client_phase =
    WaitDevice
  | WaitPong
  | WaitAck evdev_device string
  | Streaming reconnecting_device "evdev_device option"
  | Done "unit result"

datatype client_input =
    DeviceTick
  | KeepaliveTick
  | Received "bytes result"
  | FrameReady
  | Timeout
  | StreamEvent "input_event result option"

record client_state =
  cl_phase :: client_phase
  cl_selection :: device_selection
  cl_sent :: "bytes list"
  cl_writer :: byte_writer
  cl_recv :: bytes
  cl_files :: process_env

text \<open>The arguments of both loops that never change.\<close>

record client_args =
  ca_client_id :: string
  ca_target_raw :: string
  ca_history_file :: "string option"

definition client_start :: "joycast_client \<Rightarrow> process_env \<Rightarrow> byte_writer \<Rightarrow> bytes \<Rightarrow> client_state" where
  "client_start jc pe w bs = \<lparr>cl_phase = WaitDevice, cl_selection = jc_selection jc, cl_sent = [],
     cl_writer = w, cl_recv = bs, cl_files = pe\<rparr>"

definition client_args_of :: "joycast_client \<Rightarrow> client_args" where
  "client_args_of jc = \<lparr>ca_client_id = jc_client_id jc, ca_target_raw = jc_target_raw jc,
     ca_history_file = jc_history_file jc\<rparr>"

definition finish_with :: "failure \<Rightarrow> client_state \<Rightarrow> client_state" where
  "finish_with e st = st\<lparr>cl_phase := Done (Err e)\<rparr>"

section \<open>Steps common to both loops\<close>

text \<open>After the acknowledgement: the event stream of the device is opened and forwarding starts.\<close>

definition start_streaming :: "client_env \<Rightarrow> evdev_device \<Rightarrow> string \<Rightarrow> client_state \<Rightarrow> client_state" where
  "start_streaming env device path st =
     (case cn_stream_err env of
        Some e \<Rightarrow> finish_with (Fail [''Failed to create async event stream for device'', e]) st
      | None \<Rightarrow> st\<lparr>cl_phase := Streaming (reconnecting_new path (extract_metadata device)) (Some device)\<rparr>)"

definition on_ack ::
  "client_env \<Rightarrow> client_args \<Rightarrow> string \<Rightarrow> evdev_device \<Rightarrow> string \<Rightarrow> ack_status \<Rightarrow> string \<Rightarrow> string \<Rightarrow>
   client_state \<Rightarrow> client_state" where
  "on_ack env args transport device path status server_hostname msg st =
     (case status of
        Approved \<Rightarrow>
          start_streaming env device path
            (st\<lparr>cl_files := record_history env (ca_history_file args) server_hostname (ca_target_raw args)
                  transport (cl_files st)\<rparr>)
      | PendingApproval \<Rightarrow> finish_with (Fail [''Connection pending server authorization.'']) st
      | Rejected \<Rightarrow> finish_with (Fail [''Server rejected connection: '' @ msg]) st)"

text \<open>The reconnect tick while the controller is away.\<close>

definition reconnect_tick :: "client_env \<Rightarrow> reconnecting_device \<Rightarrow> client_state \<Rightarrow> client_state" where
  "reconnect_tick env rd st =
     (case try_reopen (cn_devices env) rd of
        (Some device, rd1) \<Rightarrow>
          (case cn_stream_err env of
             None \<Rightarrow> st\<lparr>cl_phase := Streaming rd1 (Some device)\<rparr>
           | Some e \<Rightarrow> st\<lparr>cl_phase := Streaming rd1 None\<rparr>)
      | (None, rd1) \<Rightarrow> st\<lparr>cl_phase := Streaming rd1 None\<rparr>)"

section \<open>Direct UDP\<close>

text \<open>\<^verbatim>\<open>encode().context(c1)?\<close> followed by \<^verbatim>\<open>socket.send(..).context(c2)?\<close>.\<close>

definition udp_client_send :: "client_env \<Rightarrow> string \<Rightarrow> string \<Rightarrow> message \<Rightarrow> client_state \<Rightarrow> client_state" where
  "udp_client_send env c1 c2 m st =
     (case with_context c1 (message_encode (cn_codec env) m) of
        Inl e \<Rightarrow> finish_with e st
      | Inr bs \<Rightarrow>
          (case cn_send_err env of
             Some e \<Rightarrow> finish_with (Fail [c2, e]) st
           | None \<Rightarrow> st\<lparr>cl_sent := cl_sent st @ [bs]\<rparr>))"

definition udp_client_ping :: "client_env \<Rightarrow> client_state \<Rightarrow> client_state" where
  "udp_client_ping env st =
     udp_client_send env ''Failed to encode keepalive'' ''Failed to send UDP keepalive'' Ping st"

definition udp_client_wait :: "client_env \<Rightarrow> client_args \<Rightarrow> client_input \<Rightarrow> client_state \<Rightarrow> client_state" where
  "udp_client_wait env args inp st =
     (case inp of
        DeviceTick \<Rightarrow>
          (case try_open_initial_device env (cl_selection st) of
             (None, sel) \<Rightarrow> st\<lparr>cl_selection := sel\<rparr>
           | (Some (device, path), sel) \<Rightarrow>
               udp_client_send env ''Failed to encode handshake'' ''Failed to send handshake UDP packet''
                 (handshake_message env (ca_client_id args) (extract_metadata device) path)
                 (st\<lparr>cl_selection := sel, cl_phase := WaitAck device path\<rparr>))
      | KeepaliveTick \<Rightarrow> udp_client_ping env st
      | _ \<Rightarrow> st)"

definition udp_client_ack ::
  "client_env \<Rightarrow> client_args \<Rightarrow> evdev_device \<Rightarrow> string \<Rightarrow> client_input \<Rightarrow> client_state \<Rightarrow> client_state" where
  "udp_client_ack env args device path inp st =
     (case inp of
        Received (Inl e) \<Rightarrow> finish_with (Fail [''Error receiving HandshakeAck: '' @ display_failure e]) st
      | Received (Inr bs) \<Rightarrow>
          (case message_decode (cn_codec env) bs of
             Inr (HandshakeAck status server_hostname msg) \<Rightarrow>
               on_ack env args ''Direct UDP'' device path status server_hostname msg st
           | _ \<Rightarrow> st)
      | Timeout \<Rightarrow> start_streaming env device path st
      | _ \<Rightarrow> st)"

definition udp_client_stream ::
  "client_env \<Rightarrow> reconnecting_device \<Rightarrow> evdev_device option \<Rightarrow> client_input \<Rightarrow> client_state \<Rightarrow> client_state" where
  "udp_client_stream env rd stream inp st =
     (case inp of
        KeepaliveTick \<Rightarrow> udp_client_ping env st
      | StreamEvent r \<Rightarrow>
          (if stream = None then st
           else case r of
                  Some (Inr ev) \<Rightarrow>
                    udp_client_send env ''Failed to encode input event'' ''Failed to send UDP input event''
                      (event_message ev) st
                | _ \<Rightarrow> st\<lparr>cl_phase := Streaming rd None\<rparr>)
      | DeviceTick \<Rightarrow> (if stream = None then reconnect_tick env rd st else st)
      | _ \<Rightarrow> st)"

definition udp_client_step :: "client_args \<Rightarrow> client_state \<Rightarrow> client_env \<times> client_input \<Rightarrow> client_state" where
  "udp_client_step args st e =
     (let (env, inp) = e in
      case cl_phase st of
        WaitDevice \<Rightarrow> udp_client_wait env args inp st
      | WaitAck device path \<Rightarrow> udp_client_ack env args device path inp st
      | Streaming rd stream \<Rightarrow> udp_client_stream env rd stream inp st
      | _ \<Rightarrow> st)"

section \<open>Iroh\<close>

text \<open>\<^verbatim>\<open>write_frame(..).await?\<close>.\<close>

definition iroh_client_send :: "client_env \<Rightarrow> message \<Rightarrow> client_state \<Rightarrow> client_state" where
  "iroh_client_send env m st =
     (case write_frame (cn_codec env) m (cl_writer st) of
        (Inl e, w) \<Rightarrow> finish_with e (st\<lparr>cl_writer := w\<rparr>)
      | (Inr _, w) \<Rightarrow> st\<lparr>cl_writer := w\<rparr>)"

text \<open>A write that must succeed before the client goes on in the next phase.\<close>

definition iroh_client_send_then :: "client_env \<Rightarrow> message \<Rightarrow> client_phase \<Rightarrow> client_state \<Rightarrow> client_state" where
  "iroh_client_send_then env m next_phase st =
     iroh_client_send env m (st\<lparr>cl_phase := next_phase\<rparr>)"

definition iroh_client_wait :: "client_env \<Rightarrow> client_args \<Rightarrow> client_input \<Rightarrow> client_state \<Rightarrow> client_state" where
  "iroh_client_wait env args inp st =
     (case inp of
        DeviceTick \<Rightarrow>
          (case try_open_initial_device env (cl_selection st) of
             (None, sel) \<Rightarrow> st\<lparr>cl_selection := sel\<rparr>
           | (Some (device, path), sel) \<Rightarrow>
               iroh_client_send_then env
                 (handshake_message env (ca_client_id args) (extract_metadata device) path)
                 (WaitAck device path) (st\<lparr>cl_selection := sel\<rparr>))
      | KeepaliveTick \<Rightarrow> iroh_client_send_then env Ping WaitPong st
      | _ \<Rightarrow> st)"

definition iroh_client_pong :: "client_env \<Rightarrow> client_input \<Rightarrow> client_state \<Rightarrow> client_state" where
  "iroh_client_pong env inp st =
     (case inp of
        FrameReady \<Rightarrow>
          (case read_frame (cn_codec env) (cl_recv st) of
             Inl e \<Rightarrow> finish_with e st
           | Inr (m, rest) \<Rightarrow>
               (if m \<noteq> Pong
                then finish_with (Fail [''Expected Pong while waiting for controller, got: '' @ cn_debug env m])
                       (st\<lparr>cl_recv := rest\<rparr>)
                else st\<lparr>cl_recv := rest, cl_phase := WaitDevice\<rparr>))
      | Timeout \<Rightarrow> finish_with (Fail [''Server did not answer controller-wait keepalive'',
                     ''deadline has elapsed'']) st
      | _ \<Rightarrow> st)"

definition iroh_client_ack ::
  "client_env \<Rightarrow> client_args \<Rightarrow> evdev_device \<Rightarrow> string \<Rightarrow> client_input \<Rightarrow> client_state \<Rightarrow> client_state" where
  "iroh_client_ack env args device path inp st =
     (case inp of
        FrameReady \<Rightarrow>
          (case read_frame (cn_codec env) (cl_recv st) of
             Inl e \<Rightarrow> finish_with e st
           | Inr (HandshakeAck status server_hostname msg, rest) \<Rightarrow>
               on_ack env args ''Iroh P2P'' device path status server_hostname msg (st\<lparr>cl_recv := rest\<rparr>)
           | Inr (other, rest) \<Rightarrow>
               finish_with (Fail [''Expected HandshakeAck from server, got: '' @ cn_debug env other])
                 (st\<lparr>cl_recv := rest\<rparr>))
      | _ \<Rightarrow> st)"

definition iroh_client_stream ::
  "client_env \<Rightarrow> reconnecting_device \<Rightarrow> evdev_device option \<Rightarrow> client_input \<Rightarrow> client_state \<Rightarrow> client_state" where
  "iroh_client_stream env rd stream inp st =
     (case inp of
        KeepaliveTick \<Rightarrow> iroh_client_send env Ping st
      | FrameReady \<Rightarrow>
          (case with_context ''Server connection closed'' (read_frame (cn_codec env) (cl_recv st)) of
             Inl e \<Rightarrow> finish_with e st
           | Inr (m, rest) \<Rightarrow> st\<lparr>cl_recv := rest\<rparr>)
      | StreamEvent r \<Rightarrow>
          (if stream = None then st
           else case r of
                  Some (Inr ev) \<Rightarrow> iroh_client_send env (event_message ev) st
                | _ \<Rightarrow> st\<lparr>cl_phase := Streaming rd None\<rparr>)
      | DeviceTick \<Rightarrow> (if stream = None then reconnect_tick env rd st else st)
      | _ \<Rightarrow> st)"

definition iroh_client_step :: "client_args \<Rightarrow> client_state \<Rightarrow> client_env \<times> client_input \<Rightarrow> client_state" where
  "iroh_client_step args st e =
     (let (env, inp) = e in
      case cl_phase st of
        WaitDevice \<Rightarrow> iroh_client_wait env args inp st
      | WaitPong \<Rightarrow> iroh_client_pong env inp st
      | WaitAck device path \<Rightarrow> iroh_client_ack env args device path inp st
      | Streaming rd stream \<Rightarrow> iroh_client_stream env rd stream inp st
      | Done _ \<Rightarrow> st)"

section \<open>Connecting\<close>

text \<open>
  The first part of each loop: binding and connecting, whose errors end the client, and the
  dispatch of \<^verbatim>\<open>run\<close> on the target.
\<close>

record connect_env =
  ce_udp_bind :: "string option"
  ce_udp_connect :: "string option"
  ce_show_addr :: "socket_addr \<Rightarrow> string"
  ce_iroh_bind :: "string option"
  ce_iroh_connect :: "string option"
  ce_iroh_open :: "(byte_writer \<times> bytes) result"

definition udp_connect :: "connect_env \<Rightarrow> socket_addr \<Rightarrow> unit result" where
  "udp_connect ce addr =
     and_then (with_context ''Failed to bind local UDP socket'' (answer (ce_udp_bind ce) ())) (\<lambda>_.
       with_context (''Failed to connect UDP socket to '' @ ce_show_addr ce addr)
         (answer (ce_udp_connect ce) ()))"

definition iroh_connect :: "connect_env \<Rightarrow> (byte_writer \<times> bytes) result" where
  "iroh_connect ce =
     and_then (with_context ''Failed to bind client iroh endpoint'' (answer (ce_iroh_bind ce) ())) (\<lambda>_.
     and_then (with_context ''Failed to connect to server via iroh'' (answer (ce_iroh_connect ce) ())) (\<lambda>_.
       with_context ''Failed to open bi-directional stream'' (ce_iroh_open ce)))"

text \<open>A run of the client: the state after a finite sequence of inputs.\<close>

definition client_run ::
  "connect_env \<Rightarrow> joycast_client \<Rightarrow> process_env \<Rightarrow> (client_env \<times> client_input) list \<Rightarrow> client_state result" where
  "client_run ce jc pe es =
     (case jc_target jc of
        Ip addr \<Rightarrow>
          and_then (udp_connect ce addr) (\<lambda>_.
            Ok (foldl (udp_client_step (client_args_of jc))
              (client_start jc pe \<lparr>bw_out = [], bw_room = 0, bw_flush = False\<rparr> []) es))
      | Iroh node \<Rightarrow>
          and_then (iroh_connect ce) (\<lambda>(w, bs).
            Ok (foldl (iroh_client_step (client_args_of jc)) (client_start jc pe w bs) es)))"

end
