(* ===== verification/Trust.thy ===== *)
theory Trust
  imports Prelude
begin

text \<open>
  The authorization store of \<^verbatim>\<open>src/trust.rs\<close>: which clients are approved, which wait, and
  how the running daemon and the command line tool share them through one JSON file.

  A \<^verbatim>\<open>TrustManager\<close> is its store path, the file at that path and the data in its memory.
  Every operation takes and returns it. What the code calls outside the repository is the
  record \<open>trust_env\<close>: the JSON printer and parser of \<^verbatim>\<open>serde_json\<close>, a file write that may
  fail, the order in which a \<^verbatim>\<open>HashMap\<close> enumerates its keys, and the clock. Each call has
  its own environment, so order and clock may differ from call to call; \<open>trust_env_ok\<close>
  collects the documented laws. A mutex is held for the whole of one operation, so an
  operation is one step; only \<open>register_pending\<close>, \<open>approve\<close> and \<open>revoke\<close> of two
  \<^emph>\<open>processes\<close> can interleave between reading and writing the file, which is why each is
  written as a reload followed by a commit.
\<close>

section \<open>Data\<close>

record pending_client_info =
  pc_client_id :: string
  pc_hostname :: string
  pc_device_name :: string
  pc_transport :: string
  pc_first_seen :: string

record approved_client_info =
  ac_client_id :: string
  ac_hostname :: string
  ac_device_name :: string
  ac_approved_at :: string

record trust_data =
  td_approved :: "(string, approved_client_info) fmap"
  td_pending :: "(string, pending_client_info) fmap"

definition trust_default :: trust_data where
  "trust_default = \<lparr>td_approved = fmempty, td_pending = fmempty\<rparr>"

record trust_manager =
  tm_path :: string
  tm_file :: disk_file
  tm_data :: trust_data

record trust_env =
  te_to_json :: "trust_data \<Rightarrow> string + string"
  te_from_json :: "string \<Rightarrow> trust_data option"
  te_write :: "disk_file \<Rightarrow> string \<Rightarrow> bool \<times> disk_file"
  te_iter :: "string fset \<Rightarrow> string list"
  te_now :: string

text \<open>
  The laws: a printed document parses to what was printed; a write that succeeds leaves the
  text; one that fails leaves the old file or something that is no complete document; an
  enumeration visits every key once.
\<close>

definition trust_env_ok :: "trust_env \<Rightarrow> bool" where
  "trust_env_ok env \<longleftrightarrow>
     (\<forall>d s. te_to_json env d = Inr s \<longrightarrow> te_from_json env s = Some d) \<and>
     (\<forall>f s f'. te_write env f s = (True, f') \<longrightarrow> f' = Text s) \<and>
     (\<forall>f s f'. te_write env f s = (False, f') \<longrightarrow>
        f' = f \<or> (\<forall>t. f' = Text t \<longrightarrow> te_from_json env t = None)) \<and>
     (\<forall>A. set (te_iter env A) = fset A \<and> distinct (te_iter env A))"

section \<open>Opening the store\<close>

definition trust_is_root_context :: "process_env \<Rightarrow> bool" where
  "trust_is_root_context pe \<longleftrightarrow>
     var_or_default pe ''USER'' = ''root'' \<or> var_set pe ''SUDO_USER'' \<or>
     var_set pe ''JOURNAL_STREAM'' \<or> var_set pe ''SYSTEMD_EXEC_PID''"

definition trust_store_path :: "process_env \<Rightarrow> string option \<Rightarrow> string" where
  "trust_store_path pe custom =
     (case custom of
        Some p \<Rightarrow> p
      | None \<Rightarrow>
          let base_dir =
            (if file_exists (pe_file pe ''/etc/joycast/trusted_clients.json'') \<or>
                trust_is_root_context pe
             then ''/etc/joycast''
             else (case pe_config_dir pe of
                     Some cfg \<Rightarrow> path_join cfg ''joycast''
                   | None \<Rightarrow> ''/etc/joycast''))
          in path_join base_dir ''trusted_clients.json'')"

text \<open>A store that is missing, unreadable or does not parse is an empty one.\<close>

definition load_trust :: "trust_env \<Rightarrow> disk_file \<Rightarrow> trust_data" where
  "load_trust env f =
     (case f of
        Missing \<Rightarrow> trust_default
      | Unreadable \<Rightarrow> trust_default
      | Text content \<Rightarrow>
          (case te_from_json env content of None \<Rightarrow> trust_default | Some d \<Rightarrow> d))"

definition trust_new :: "trust_env \<Rightarrow> process_env \<Rightarrow> string option \<Rightarrow> trust_manager" where
  "trust_new env pe custom =
     (let path = trust_store_path pe custom; f = pe_file pe path
      in \<lparr>tm_path = path, tm_file = f, tm_data = load_trust env f\<rparr>)"

section \<open>Reload and save\<close>

definition reload :: "trust_env \<Rightarrow> trust_manager \<Rightarrow> trust_manager" where
  "reload env tm =
     (case tm_file tm of
        Missing \<Rightarrow> tm
      | Unreadable \<Rightarrow> tm
      | Text content \<Rightarrow>
          (case te_from_json env content of
             None \<Rightarrow> tm
           | Some disk_data \<Rightarrow> tm\<lparr>tm_data := disk_data\<rparr>))"

definition save :: "trust_env \<Rightarrow> trust_data \<Rightarrow> trust_manager \<Rightarrow> unit result \<times> trust_manager" where
  "save env d tm =
     (case te_to_json env d of
        Inl e \<Rightarrow> (with_context ''Failed to serialize trust data'' (bail e), tm)
      | Inr json \<Rightarrow>
          (let (written, f) = te_write env (tm_file tm) json
           in (if written then Ok ()
               else Err (Fail [''Failed to write trust data to '' @ tm_path tm, ''io error'']),
               tm\<lparr>tm_file := f\<rparr>)))"

section \<open>Operations\<close>

definition is_approved :: "trust_env \<Rightarrow> string \<Rightarrow> trust_manager \<Rightarrow> bool \<times> trust_manager" where
  "is_approved env client_id tm =
     (let tm1 = reload env tm
      in (client_id |\<in>| fmdom (td_approved (tm_data tm1)), tm1))"

text \<open>
  \<^verbatim>\<open>register_pending\<close>: the part after \<^verbatim>\<open>self.reload()\<close> is \<open>register_commit\<close>. An error of
  \<^verbatim>\<open>save\<close> is dropped.
\<close>

definition register_commit ::
  "trust_env \<Rightarrow> string \<Rightarrow> string \<Rightarrow> string \<Rightarrow> string \<Rightarrow> trust_manager \<Rightarrow> trust_manager" where
  "register_commit env client_id hostname device_name transport tm =
     (if client_id |\<in>| fmdom (td_approved (tm_data tm)) then tm
      else
        let pending = \<lparr>pc_client_id = client_id, pc_hostname = hostname,
              pc_device_name = device_name, pc_transport = transport, pc_first_seen = te_now env\<rparr>;
            d = (tm_data tm)\<lparr>td_pending := fmupd client_id pending (td_pending (tm_data tm))\<rparr>
        in snd (save env d (tm\<lparr>tm_data := d\<rparr>)))"

definition register_pending ::
  "trust_env \<Rightarrow> string \<Rightarrow> string \<Rightarrow> string \<Rightarrow> string \<Rightarrow> trust_manager \<Rightarrow> trust_manager" where
  "register_pending env client_id hostname device_name transport tm =
     register_commit env client_id hostname device_name transport (reload env tm)"

text \<open>The lookup that \<^verbatim>\<open>approve\<close> and \<^verbatim>\<open>revoke\<close> share: an exact key, else the first key that the
  map enumerates with the target as its prefix.\<close>

definition match_id :: "trust_env \<Rightarrow> string fset \<Rightarrow> string \<Rightarrow> string option" where
  "match_id env keys target_id =
     (if target_id |\<in>| keys then Some target_id
      else find (\<lambda>id. starts_with id target_id) (te_iter env keys))"

definition approve_commit ::
  "trust_env \<Rightarrow> string \<Rightarrow> trust_manager \<Rightarrow> approved_client_info result \<times> trust_manager" where
  "approve_commit env target_id tm =
     (let d = tm_data tm in
      case match_id env (fmdom (td_pending d)) target_id of
        None \<Rightarrow> (bail (''No pending client request found matching ID or prefix ''
                   @ squote target_id), tm)
      | Some mid \<Rightarrow>
          (case fmlookup (td_pending d) mid of
             None \<Rightarrow> (Err (Panic ''called Option::unwrap() on a None value''), tm)
           | Some pending \<Rightarrow>
               let approved = \<lparr>ac_client_id = pc_client_id pending,
                     ac_hostname = pc_hostname pending,
                     ac_device_name = pc_device_name pending,
                     ac_approved_at = te_now env\<rparr>;
                   d1 = d\<lparr>td_pending := fmdrop mid (td_pending d),
                          td_approved := fmupd mid approved (td_approved d)\<rparr>
               in (case save env d1 (tm\<lparr>tm_data := d1\<rparr>) of
                     (Inl e, tm1) \<Rightarrow> (Err e, tm1)
                   | (Inr _, tm1) \<Rightarrow> (Ok approved, tm1))))"

definition approve ::
  "trust_env \<Rightarrow> string \<Rightarrow> trust_manager \<Rightarrow> approved_client_info result \<times> trust_manager" where
  "approve env target_id tm = approve_commit env target_id (reload env tm)"

definition revoke_commit :: "trust_env \<Rightarrow> string \<Rightarrow> trust_manager \<Rightarrow> bool result \<times> trust_manager" where
  "revoke_commit env target_id tm =
     (let d = tm_data tm in
      case match_id env (fmdom (td_approved d)) target_id of
        None \<Rightarrow> (bail (''No approved client found matching ID or prefix ''
                   @ squote target_id), tm)
      | Some mid \<Rightarrow>
          (let d1 = d\<lparr>td_approved := fmdrop mid (td_approved d)\<rparr>
           in (case save env d1 (tm\<lparr>tm_data := d1\<rparr>) of
                 (Inl e, tm1) \<Rightarrow> (Err e, tm1)
               | (Inr _, tm1) \<Rightarrow> (Ok True, tm1))))"

definition revoke :: "trust_env \<Rightarrow> string \<Rightarrow> trust_manager \<Rightarrow> bool result \<times> trust_manager" where
  "revoke env target_id tm = revoke_commit env target_id (reload env tm)"

definition map_values :: "('k fset \<Rightarrow> 'k list) \<Rightarrow> ('k, 'v) fmap \<Rightarrow> 'v list" where
  "map_values iter m = map (\<lambda>k. the (fmlookup m k)) (iter (fmdom m))"

definition list_pending :: "trust_env \<Rightarrow> trust_manager \<Rightarrow> pending_client_info list \<times> trust_manager" where
  "list_pending env tm =
     (let tm1 = reload env tm
      in (sort_key pc_first_seen (map_values (te_iter env) (td_pending (tm_data tm1))), tm1))"

definition list_approved :: "trust_env \<Rightarrow> trust_manager \<Rightarrow> approved_client_info list \<times> trust_manager" where
  "list_approved env tm =
     (let tm1 = reload env tm
      in (sort_key ac_approved_at (map_values (te_iter env) (td_approved (tm_data tm1))), tm1))"

section \<open>Basic facts\<close>

definition parse_file :: "(string \<Rightarrow> trust_data option) \<Rightarrow> disk_file \<Rightarrow> trust_data option" where
  "parse_file parse f = (case f of Text s \<Rightarrow> parse s | _ \<Rightarrow> None)"

abbreviation disk_data :: "trust_env \<Rightarrow> disk_file \<Rightarrow> trust_data option" where
  "disk_data env \<equiv> parse_file (te_from_json env)"

lemma reload_disk:
  "reload env tm = (case disk_data env (tm_file tm) of None \<Rightarrow> tm | Some d \<Rightarrow> tm\<lparr>tm_data := d\<rparr>)"
  by (simp add: reload_def parse_file_def split: disk_file.splits)

lemma reload_file [simp]: "tm_file (reload env tm) = tm_file tm" "tm_path (reload env tm) = tm_path tm"
  by (simp_all add: reload_disk split: option.splits)

lemma reload_Some: "disk_data env (tm_file tm) = Some d \<Longrightarrow> reload env tm = tm\<lparr>tm_data := d\<rparr>"
  by (simp add: reload_disk)

lemma load_trust_disk_data:
  "load_trust env f = (case disk_data env f of None \<Rightarrow> trust_default | Some d \<Rightarrow> d)"
  by (simp add: load_trust_def parse_file_def split: disk_file.splits option.splits)

lemma env_json: "trust_env_ok env \<Longrightarrow> te_to_json env d = Inr s \<Longrightarrow> te_from_json env s = Some d"
  by (simp add: trust_env_ok_def)

lemma env_write_True: "trust_env_ok env \<Longrightarrow> te_write env f s = (True, f') \<Longrightarrow> f' = Text s"
  by (simp add: trust_env_ok_def)

lemma env_write_False:
  "trust_env_ok env \<Longrightarrow> te_write env f s = (False, f') \<Longrightarrow> f' = f \<or> disk_data env f' = None"
proof -
  assume "trust_env_ok env" and "te_write env f s = (False, f')"
  then have "f' = f \<or> (\<forall>t. f' = Text t \<longrightarrow> te_from_json env t = None)"
    unfolding trust_env_ok_def by blast
  then show ?thesis by (cases f') (auto simp: parse_file_def)
qed

lemma env_iter: "trust_env_ok env \<Longrightarrow> set (te_iter env A) = fset A"
  "trust_env_ok env \<Longrightarrow> distinct (te_iter env A)"
  by (simp_all add: trust_env_ok_def)

text \<open>A save changes the file only: a success stores the data, a failure keeps the old file or
  leaves one that does not parse.\<close>

lemma save_frame:
  "tm_data (snd (save env d tm)) = tm_data tm" "tm_path (snd (save env d tm)) = tm_path tm"
  by (simp_all add: save_def Let_def split: sum.splits prod.splits)

lemma save_Ok:
  assumes "trust_env_ok env" and "save env d tm = (Inr u, tm')"
  shows "disk_data env (tm_file tm') = Some d" "tm_data tm' = tm_data tm" "tm_path tm' = tm_path tm"
  using assms env_json [OF assms(1), of d]
  by (auto simp: save_def bail_def parse_file_def Let_def split: sum.splits prod.splits if_splits
      dest!: env_write_True [OF assms(1)])

lemma save_Err:
  assumes "trust_env_ok env" and "save env d tm = (Inl e, tm')"
  shows "tm_file tm' = tm_file tm \<or> disk_data env (tm_file tm') = None"
  using assms
  by (auto simp: save_def bail_def Let_def split: sum.splits prod.splits if_splits
      dest!: env_write_False [OF assms(1)])

lemma save_disk:
  assumes "trust_env_ok env"
  shows "disk_data env (tm_file (snd (save env d tm))) \<in>
    {Some d, disk_data env (tm_file tm), None}"
proof (cases "save env d tm")
  case (Pair r tm')
  show ?thesis
  proof (cases r)
    case (Inl e)
    with Pair have "save env d tm = (Inl e, tm')" by simp
    from save_Err [OF assms this] show ?thesis unfolding Pair by auto
  next
    case (Inr u)
    with Pair have "save env d tm = (Inr u, tm')" by simp
    from save_Ok(1) [OF assms this] show ?thesis unfolding Pair by simp
  qed
qed

lemma match_id_Some:
  assumes "trust_env_ok env" and "match_id env A t = Some k"
  shows "k |\<in>| A" and "starts_with k t" and "t |\<in>| A \<Longrightarrow> k = t"
proof -
  have "k |\<in>| A \<and> starts_with k t \<and> (t |\<in>| A \<longrightarrow> k = t)"
  proof (cases "t |\<in>| A")
    case True
    with assms(2) show ?thesis by (simp add: match_id_def)
  next
    case False
    with assms(2) have "find (\<lambda>id. starts_with id t) (te_iter env A) = Some k"
      by (simp add: match_id_def)
    then have "k \<in> set (te_iter env A) \<and> starts_with k t" by (rule find_SomeD)
    with False show ?thesis by (simp add: env_iter(1) [OF assms(1)])
  qed
  then show "k |\<in>| A" and "starts_with k t" and "t |\<in>| A \<Longrightarrow> k = t" by blast+
qed

lemma match_id_None_iff:
  assumes "trust_env_ok env"
  shows "match_id env A t = None \<longleftrightarrow> (\<forall>k. k |\<in>| A \<longrightarrow> \<not> starts_with k t)"
  using env_iter(1) [OF assms, of A] by (auto simp: match_id_def find_None_iff)

lemma match_id_unique:
  assumes "trust_env_ok env" and "k |\<in>| A" and "starts_with k t"
    and "\<And>k'. k' |\<in>| A \<Longrightarrow> starts_with k' t \<Longrightarrow> k' = k"
  shows "match_id env A t = Some k"
proof (cases "match_id env A t")
  case None
  then have "\<not> starts_with k t"
    using assms(2) by (simp add: match_id_None_iff [OF assms(1)])
  with assms(3) show ?thesis by blast
next
  case (Some k')
  have "k' = k" using match_id_Some(1,2) [OF assms(1) Some] by (rule assms(4))
  with Some show ?thesis by simp
qed

lemmas trust_ops = is_approved_def register_pending_def register_commit_def approve_def
  approve_commit_def revoke_def revoke_commit_def list_pending_def list_approved_def

text \<open>The approved entry that replaces a pending one, and the data after a move.\<close>

definition promote :: "trust_env \<Rightarrow> pending_client_info \<Rightarrow> approved_client_info" where
  "promote env p = \<lparr>ac_client_id = pc_client_id p, ac_hostname = pc_hostname p,
     ac_device_name = pc_device_name p, ac_approved_at = te_now env\<rparr>"

definition move_to_approved ::
  "trust_env \<Rightarrow> string \<Rightarrow> pending_client_info \<Rightarrow> trust_data \<Rightarrow> trust_data" where
  "move_to_approved env k p d = d\<lparr>td_pending := fmdrop k (td_pending d),
     td_approved := fmupd k (promote env p) (td_approved d)\<rparr>"

lemma approve_commit_matched:
  assumes "match_id env (fmdom (td_pending (tm_data tm))) t = Some k"
    and "fmlookup (td_pending (tm_data tm)) k = Some p"
  shows "approve_commit env t tm =
    (let d = move_to_approved env k p (tm_data tm); (r, tm1) = save env d (tm\<lparr>tm_data := d\<rparr>)
     in (case r of Inl e \<Rightarrow> Err e | Inr _ \<Rightarrow> Ok (promote env p), tm1))"
  by (simp add: approve_commit_def assms Let_def move_to_approved_def promote_def
      split: prod.splits sum.splits)

lemma approve_commit_cases:
  assumes "trust_env_ok env"
  obtains (unknown) "\<forall>k. k |\<in>| fmdom (td_pending (tm_data tm)) \<longrightarrow> \<not> starts_with k t"
      "approve_commit env t tm =
         (bail (''No pending client request found matching ID or prefix '' @ squote t), tm)"
  | (matched) k p where "match_id env (fmdom (td_pending (tm_data tm))) t = Some k"
      "starts_with k t" "fmlookup (td_pending (tm_data tm)) k = Some p"
      "approve_commit env t tm =
         (let d = move_to_approved env k p (tm_data tm); (r, tm1) = save env d (tm\<lparr>tm_data := d\<rparr>)
          in (case r of Inl e \<Rightarrow> Err e | Inr _ \<Rightarrow> Ok (promote env p), tm1))"
proof (cases "match_id env (fmdom (td_pending (tm_data tm))) t")
  case None
  with assms have u: "\<forall>k. k |\<in>| fmdom (td_pending (tm_data tm)) \<longrightarrow> \<not> starts_with k t"
    by (simp add: match_id_None_iff)
  show thesis by (rule unknown [OF u]) (simp add: approve_commit_def Let_def None)
next
  case (Some k)
  note m = match_id_Some [OF assms Some]
  from m(1) obtain p where p: "fmlookup (td_pending (tm_data tm)) k = Some p"
    by (rule fmdomE)
  show thesis by (rule matched [OF Some m(2) p approve_commit_matched [OF Some p]])
qed

section \<open>An environment given by a table\<close>

text \<open>
  A concrete environment for examples: finitely many documents, writes that succeed, keys
  enumerated in their order. It shows that the laws can hold.
\<close>

definition table_trust_env :: "(trust_data \<times> string) list \<Rightarrow> string \<Rightarrow> trust_env" where
  "table_trust_env tbl now = \<lparr>
     te_to_json = (\<lambda>d. case map_of tbl d of None \<Rightarrow> Inl ''not printable'' | Some s \<Rightarrow> Inr s),
     te_from_json = (\<lambda>s. map_option fst (find (\<lambda>e. snd e = s) tbl)),
     te_write = (\<lambda>f s. (True, Text s)),
     te_iter = sorted_list_of_fset,
     te_now = now \<rparr>"

lemma table_trust_env_ok: "distinct (map snd tbl) \<Longrightarrow> trust_env_ok (table_trust_env tbl now)"
  by (auto simp: trust_env_ok_def table_trust_env_def find_snd_unique
      split: option.splits dest!: map_of_SomeD)

end
