(* ===== verification/TrustSystem.thy ===== *)
theory TrustSystem
  imports Trust
begin

text \<open>
  Properties of the authorization store: its well-formedness, the effect of each operation
  across the processes that share the file, and what can make a client approved.
\<close>

section \<open>Well-formed data\<close>

text \<open>Entries stand under their own client id, and nobody is both approved and pending.\<close>

definition trust_wf :: "trust_data \<Rightarrow> bool" where
  "trust_wf d \<longleftrightarrow>
     (\<forall>k p. fmlookup (td_pending d) k = Some p \<longrightarrow>
        pc_client_id p = k \<and> fmlookup (td_approved d) k = None) \<and>
     (\<forall>k a. fmlookup (td_approved d) k = Some a \<longrightarrow> ac_client_id a = k)"

lemma trust_wf_default: "trust_wf trust_default"
  by (simp add: trust_wf_def trust_default_def)

lemma trust_wf_register:
  "trust_wf d \<Longrightarrow> pc_client_id p = k \<Longrightarrow> k |\<notin>| fmdom (td_approved d) \<Longrightarrow>
   trust_wf (d\<lparr>td_pending := fmupd k p (td_pending d)\<rparr>)"
  by (auto simp: trust_wf_def fmdom_notD)

lemma trust_wf_move:
  "trust_wf d \<Longrightarrow> fmlookup (td_pending d) k = Some p \<Longrightarrow> trust_wf (move_to_approved env k p d)"
  by (auto simp: trust_wf_def move_to_approved_def promote_def)

lemma trust_wf_drop: "trust_wf d \<Longrightarrow> trust_wf (d\<lparr>td_approved := fmdrop k (td_approved d)\<rparr>)"
  by (auto simp: trust_wf_def)

definition tm_wf :: "(string \<Rightarrow> trust_data option) \<Rightarrow> trust_manager \<Rightarrow> bool" where
  "tm_wf J tm \<longleftrightarrow> trust_wf (tm_data tm) \<and> (\<forall>d. parse_file J (tm_file tm) = Some d \<longrightarrow> trust_wf d)"

lemma tm_wf_reload: "tm_wf (te_from_json env) tm \<Longrightarrow> tm_wf (te_from_json env) (reload env tm)"
  by (auto simp: tm_wf_def reload_disk split: option.splits)

lemma tm_wf_save:
  assumes "trust_env_ok env" and "tm_wf (te_from_json env) tm" and "trust_wf d"
  shows "tm_wf (te_from_json env) (snd (save env d (tm\<lparr>tm_data := d\<rparr>)))"
  using save_disk [OF assms(1), of d "tm\<lparr>tm_data := d\<rparr>"] assms(2,3)
  by (auto simp: tm_wf_def save_frame)

section \<open>Operations as steps\<close>

datatype trust_op =
    Query string
  | Register string string string string
  | Approve string
  | Revoke string
  | ListPending
  | ListApproved

fun trust_op_step :: "trust_env \<Rightarrow> trust_op \<Rightarrow> trust_manager \<Rightarrow> trust_manager" where
  "trust_op_step env (Query cid) tm = snd (is_approved env cid tm)"
| "trust_op_step env (Register cid h n t) tm = register_pending env cid h n t tm"
| "trust_op_step env (Approve t) tm = snd (approve env t tm)"
| "trust_op_step env (Revoke t) tm = snd (revoke env t tm)"
| "trust_op_step env ListPending tm = snd (list_pending env tm)"
| "trust_op_step env ListApproved tm = snd (list_approved env tm)"

text \<open>
  Every operation reloads; then it leaves the manager alone, or it saves new data that it
  also keeps in memory. The new data adds a pending entry, moves a matching pending entry to
  the approved ones, or drops a matching approved one.
\<close>

inductive data_step :: "trust_env \<Rightarrow> trust_op \<Rightarrow> trust_data \<Rightarrow> trust_data \<Rightarrow> bool" for env where
  register: "k |\<notin>| fmdom (td_approved d) \<Longrightarrow> pc_client_id p = k \<Longrightarrow>
     data_step env (Register k h n t) d (d\<lparr>td_pending := fmupd k p (td_pending d)\<rparr>)"
| approve: "fmlookup (td_pending d) k = Some p \<Longrightarrow> starts_with k t \<Longrightarrow>
     data_step env (Approve t) d (move_to_approved env k p d)"
| revoke: "k |\<in>| fmdom (td_approved d) \<Longrightarrow> starts_with k t \<Longrightarrow>
     data_step env (Revoke t) d (d\<lparr>td_approved := fmdrop k (td_approved d)\<rparr>)"

inductive_cases data_step_cases: "data_step env op d d'"

lemma snd_let_case_sum:
  "snd (case sv of (r, tm1) \<Rightarrow> (case r of Inl e \<Rightarrow> Inl e | Inr _ \<Rightarrow> Inr a, tm1)) = snd sv"
  by (simp split: prod.splits)

definition saved_step :: "trust_env \<Rightarrow> trust_op \<Rightarrow> trust_manager \<Rightarrow> trust_data \<Rightarrow> bool" where
  "saved_step env op tm d \<longleftrightarrow> data_step env op (tm_data (reload env tm)) d \<and>
     trust_op_step env op tm = snd (save env d ((reload env tm)\<lparr>tm_data := d\<rparr>))"

lemma register_step:
  "trust_op_step env (Register k h n t) tm = reload env tm \<or>
   (\<exists>d. saved_step env (Register k h n t) tm d)"
proof (cases "k |\<in>| fmdom (td_approved (tm_data (reload env tm)))")
  case True
  then show ?thesis by (simp add: register_pending_def register_commit_def)
next
  case False
  then show ?thesis
    by (auto simp: saved_step_def register_pending_def register_commit_def Let_def
        intro!: exI data_step.register)
qed

lemma approve_step:
  assumes "trust_env_ok env"
  shows "trust_op_step env (Approve t) tm = reload env tm \<or> (\<exists>d. saved_step env (Approve t) tm d)"
proof (rule approve_commit_cases [OF assms, of "reload env tm" t], goal_cases)
  case 1
  then show ?case by (simp add: approve_def)
next
  case (2 k p)
  then have "saved_step env (Approve t) tm (move_to_approved env k p (tm_data (reload env tm)))"
    by (auto simp: saved_step_def approve_def Let_def snd_let_case_sum intro: data_step.approve)
  then show ?case by blast
qed

lemma revoke_step:
  assumes "trust_env_ok env"
  shows "trust_op_step env (Revoke t) tm = reload env tm \<or> (\<exists>d. saved_step env (Revoke t) tm d)"
proof (cases "match_id env (fmdom (td_approved (tm_data (reload env tm)))) t")
  case None
  then show ?thesis by (simp add: revoke_def revoke_commit_def Let_def)
next
  case (Some k)
  let ?d = "tm_data (reload env tm)"
  have "data_step env (Revoke t) ?d (?d\<lparr>td_approved := fmdrop k (td_approved ?d)\<rparr>)"
    using match_id_Some [OF assms Some] by (intro data_step.revoke)
  with Some show ?thesis
    by (auto simp: saved_step_def revoke_def revoke_commit_def Let_def
        split: prod.splits sum.splits)
qed

lemma trust_op_step_cases:
  assumes "trust_env_ok env"
  obtains (same) "trust_op_step env op tm = reload env tm"
  | (saved) d where "data_step env op (tm_data (reload env tm)) d"
      "trust_op_step env op tm = snd (save env d ((reload env tm)\<lparr>tm_data := d\<rparr>))"
proof -
  have "trust_op_step env op tm = reload env tm \<or> (\<exists>d. saved_step env op tm d)"
    using register_step approve_step [OF assms] revoke_step [OF assms]
    by (cases op) (simp_all add: is_approved_def list_pending_def list_approved_def Let_def)
  then show thesis using same saved by (auto simp: saved_step_def)
qed

lemma data_step_wf: "data_step env op d d' \<Longrightarrow> trust_wf d \<Longrightarrow> trust_wf d'"
  by (induction rule: data_step.induct)
    (auto intro: trust_wf_register trust_wf_move trust_wf_drop)

lemma trust_op_step_wf:
  assumes "trust_env_ok env" and "tm_wf (te_from_json env) tm"
  shows "tm_wf (te_from_json env) (trust_op_step env op tm)"
proof (rule trust_op_step_cases [OF assms(1), of op tm])
  assume "trust_op_step env op tm = reload env tm"
  with assms(2) show ?thesis by (simp add: tm_wf_reload)
next
  fix d
  assume d: "data_step env op (tm_data (reload env tm)) d"
    and eq: "trust_op_step env op tm = snd (save env d ((reload env tm)\<lparr>tm_data := d\<rparr>))"
  have wf: "tm_wf (te_from_json env) (reload env tm)" using assms(2) by (rule tm_wf_reload)
  with d have "trust_wf d" by (auto simp: tm_wf_def intro: data_step_wf)
  with wf show ?thesis unfolding eq by (rule tm_wf_save [OF assms(1)])
qed

section \<open>Processes that share the file\<close>

text \<open>
  The daemon and any number of command line runs: process \<open>i\<close> has its own memory, the file
  is common. One input is a process, the environment of its call and the operation.
\<close>

record trust_sys =
  ts_path :: string
  ts_file :: disk_file
  ts_mem :: "nat \<Rightarrow> trust_data"

definition manager_of :: "nat \<Rightarrow> trust_sys \<Rightarrow> trust_manager" where
  "manager_of i sys = \<lparr>tm_path = ts_path sys, tm_file = ts_file sys, tm_data = ts_mem sys i\<rparr>"

lemma manager_of_simps [simp]:
  "tm_path (manager_of i sys) = ts_path sys" "tm_file (manager_of i sys) = ts_file sys"
  "tm_data (manager_of i sys) = ts_mem sys i"
  by (simp_all add: manager_of_def)

definition put_manager :: "nat \<Rightarrow> trust_manager \<Rightarrow> trust_sys \<Rightarrow> trust_sys" where
  "put_manager i tm sys = sys\<lparr>ts_file := tm_file tm, ts_mem := (ts_mem sys)(i := tm_data tm)\<rparr>"

type_synonym trust_input = "nat \<times> trust_env \<times> trust_op"

fun trust_sys_step :: "trust_sys \<Rightarrow> trust_input \<Rightarrow> trust_sys" where
  "trust_sys_step sys (i, env, op) = put_manager i (trust_op_step env op (manager_of i sys)) sys"

fun input_ok :: "(string \<Rightarrow> trust_data option) \<Rightarrow> trust_input \<Rightarrow> bool" where
  "input_ok J (i, env, op) \<longleftrightarrow> trust_env_ok env \<and> te_from_json env = J"

lemma save_path: "save env d tm = (r, tm') \<Longrightarrow> tm_path tm' = tm_path tm"
  by (metis save_frame(2) snd_conv)

lemma trust_op_step_path [simp]: "tm_path (trust_op_step env op tm) = tm_path tm"
proof (cases op)
  case (Approve t)
  then show ?thesis
    by (auto simp: approve_def approve_commit_def Let_def dest!: save_path
        split: option.splits prod.splits sum.splits)
next
  case (Revoke t)
  then show ?thesis
    by (auto simp: revoke_def revoke_commit_def Let_def dest!: save_path
        split: option.splits prod.splits sum.splits)
qed (simp_all add: is_approved_def list_pending_def list_approved_def register_pending_def
      register_commit_def save_frame Let_def)

lemma manager_of_step [simp]:
  "manager_of i (trust_sys_step sys (i, env, op)) = trust_op_step env op (manager_of i sys)"
  using trust_op_step_path [of env op "manager_of i sys"]
  by (simp add: manager_of_def put_manager_def)

lemma manager_of_step_other:
  "j \<noteq> i \<Longrightarrow> manager_of j (trust_sys_step sys (i, env, op)) =
     (manager_of j sys)\<lparr>tm_file := tm_file (trust_op_step env op (manager_of i sys))\<rparr>"
  by (simp add: manager_of_def put_manager_def)

definition trust_sys_wf :: "(string \<Rightarrow> trust_data option) \<Rightarrow> trust_sys \<Rightarrow> bool" where
  "trust_sys_wf J sys \<longleftrightarrow> (\<forall>i. tm_wf J (manager_of i sys))"

text \<open>A client counts as approved if any memory or the file says so.\<close>

definition approved_somewhere :: "(string \<Rightarrow> trust_data option) \<Rightarrow> trust_sys \<Rightarrow> string \<Rightarrow> bool" where
  "approved_somewhere J sys k \<longleftrightarrow>
     (\<exists>i. k |\<in>| fmdom (td_approved (ts_mem sys i))) \<or>
     (\<exists>d. parse_file J (ts_file sys) = Some d \<and> k |\<in>| fmdom (td_approved d))"

text \<open>The cause of an approval: an administrator's approve of a target that is the id or a
  prefix of it, while the client was pending.\<close>

fun approve_cause :: "trust_sys \<Rightarrow> trust_input \<Rightarrow> string \<Rightarrow> bool" where
  "approve_cause sys (i, env, op) k \<longleftrightarrow>
     (\<exists>t. op = Approve t \<and> starts_with k t \<and>
        k |\<in>| fmdom (td_pending (tm_data (reload env (manager_of i sys)))))"

lemma trust_sys_wf_step:
  assumes "trust_sys_wf J sys" and "input_ok J e"
  shows "trust_sys_wf J (trust_sys_step sys e)"
proof -
  obtain i env op where e: "e = (i, env, op)" by (cases e) auto
  with assms have ok: "trust_env_ok env" and J: "te_from_json env = J" by auto
  from assms(1) have "tm_wf J (manager_of i sys)" by (simp add: trust_sys_wf_def)
  then have "tm_wf J (trust_op_step env op (manager_of i sys))"
    using trust_op_step_wf [OF ok] J by simp
  with assms(1) show ?thesis
    by (auto simp: e trust_sys_wf_def tm_wf_def put_manager_def)
qed

lemma reload_approved:
  "k |\<in>| fmdom (td_approved (tm_data (reload env (manager_of i sys)))) \<Longrightarrow>
   approved_somewhere (te_from_json env) sys k"
  by (auto simp: reload_disk approved_somewhere_def split: option.splits)

lemma data_step_approved:
  assumes "data_step env op d d'" and "k |\<in>| fmdom (td_approved d')"
  shows "k |\<in>| fmdom (td_approved d) \<or>
    (\<exists>t. op = Approve t \<and> starts_with k t \<and> k |\<in>| fmdom (td_pending d))"
  using assms by (induction rule: data_step.induct)
    (auto simp: move_to_approved_def intro: fmdomI)

lemma approve_cause_step:
  assumes "input_ok J e" and "approved_somewhere J (trust_sys_step sys e) k"
  shows "approved_somewhere J sys k \<or> approve_cause sys e k"
proof -
  obtain i env op where e: "e = (i, env, op)" by (cases e) auto
  with assms(1) have ok: "trust_env_ok env" and J: "te_from_json env = J" by auto
  let ?tm = "manager_of i sys"
  show ?thesis
  proof (rule trust_op_step_cases [OF ok, of op ?tm])
    assume "trust_op_step env op ?tm = reload env ?tm"
    with assms(2) reload_approved [of k env i sys] show ?thesis
      by (auto simp: e J approved_somewhere_def put_manager_def split: if_splits)
  next
    fix d
    assume d: "data_step env op (tm_data (reload env ?tm)) d"
      and eq: "trust_op_step env op ?tm = snd (save env d ((reload env ?tm)\<lparr>tm_data := d\<rparr>))"
    from assms(2) save_disk [OF ok, of d "(reload env ?tm)\<lparr>tm_data := d\<rparr>"]
    have "approved_somewhere J sys k \<or> k |\<in>| fmdom (td_approved d)"
      by (auto simp: e eq J approved_somewhere_def put_manager_def save_frame
          split: if_splits)
    then show ?thesis
      using data_step_approved [OF d] reload_approved [of k env i sys] by (auto simp: e J)
  qed
qed

interpretation ts: traced_step trust_sys_step "input_ok J" "trust_sys_wf J"
  "approved_somewhere J" approve_cause for J
  by unfold_locales (auto intro: trust_sys_wf_step dest: approve_cause_step)

end
