(* ===== verification/TrustProps.thy ===== *)
theory TrustProps
  imports TrustSystem
begin

text \<open>
  The properties of the authorization store, each followed by an application to a small
  concrete store: one pending client, its approval, and the processes 0 (daemon) and 1
  (command line).
\<close>

section \<open>A concrete store\<close>

definition demo_pending :: pending_client_info where
  "demo_pending = \<lparr>pc_client_id = ''c1'', pc_hostname = ''laptop'', pc_device_name = ''Pad'',
     pc_transport = ''Direct UDP'', pc_first_seen = ''t0''\<rparr>"

definition demo_waiting :: trust_data where
  "demo_waiting = \<lparr>td_approved = fmempty, td_pending = fmupd ''c1'' demo_pending fmempty\<rparr>"

definition demo_granted :: trust_data where
  "demo_granted = \<lparr>td_approved = fmupd ''c1'' \<lparr>ac_client_id = ''c1'', ac_hostname = ''laptop'',
     ac_device_name = ''Pad'', ac_approved_at = ''t1''\<rparr> fmempty, td_pending = fmempty\<rparr>"

definition demo_env :: trust_env where
  "demo_env = table_trust_env
     [(trust_default, ''E''), (demo_waiting, ''W''), (demo_granted, ''G'')] ''t1''"

definition demo_sys :: trust_sys where
  "demo_sys = \<lparr>ts_path = ''store'', ts_file = Text ''W'', ts_mem = (\<lambda>_. trust_default)\<rparr>"

lemma demo_env_ok: "trust_env_ok demo_env"
  unfolding demo_env_def by (rule table_trust_env_ok) simp

lemma demo_data_distinct [simp]:
  "trust_default \<noteq> demo_waiting" "demo_waiting \<noteq> trust_default" "trust_default \<noteq> demo_granted"
  "demo_granted \<noteq> trust_default" "demo_waiting \<noteq> demo_granted" "demo_granted \<noteq> demo_waiting"
  by (simp_all add: trust_default_def demo_waiting_def demo_granted_def)

lemma demo_env_simps [simp]:
  "te_to_json demo_env trust_default = Inr ''E''" "te_to_json demo_env demo_waiting = Inr ''W''"
  "te_to_json demo_env demo_granted = Inr ''G''"
  "te_from_json demo_env ''E'' = Some trust_default"
  "te_from_json demo_env ''W'' = Some demo_waiting"
  "te_from_json demo_env ''G'' = Some demo_granted"
  "te_write demo_env f s = (True, Text s)" "te_now demo_env = ''t1''"
  by (simp_all add: demo_env_def table_trust_env_def)

lemma demo_move: "move_to_approved demo_env ''c1'' demo_pending demo_waiting = demo_granted"
  by (simp add: move_to_approved_def promote_def demo_waiting_def demo_granted_def demo_pending_def
      fmdrop_fmupd_same)

lemma demo_data_wf: "trust_wf demo_waiting" "trust_wf demo_granted"
  by (auto simp: trust_wf_def demo_waiting_def demo_granted_def demo_pending_def split: if_splits)

lemma demo_wf: "trust_sys_wf (te_from_json demo_env) demo_sys"
  by (auto simp: trust_sys_wf_def tm_wf_def parse_file_def demo_sys_def trust_wf_default
      demo_data_wf)

lemma demo_reload:
  "tm_file tm = Text ''W'' \<Longrightarrow> reload demo_env tm = tm\<lparr>tm_data := demo_waiting\<rparr>"
  "tm_file tm = Text ''G'' \<Longrightarrow> reload demo_env tm = tm\<lparr>tm_data := demo_granted\<rparr>"
  by (simp_all add: reload_def)

lemma demo_approve:
  "tm_file tm = Text ''W'' \<Longrightarrow> approve demo_env ''c1'' tm =
     (Ok (promote demo_env demo_pending), tm\<lparr>tm_file := Text ''G'', tm_data := demo_granted\<rparr>)"
proof -
  assume f: "tm_file tm = Text ''W''"
  let ?tm = "tm\<lparr>tm_data := demo_waiting\<rparr>"
  have m: "match_id demo_env (fmdom (td_pending (tm_data ?tm))) ''c1'' = Some ''c1''"
    and p: "fmlookup (td_pending (tm_data ?tm)) ''c1'' = Some demo_pending"
    by (simp_all add: match_id_def demo_waiting_def)
  show ?thesis
    by (simp add: approve_def demo_reload(1) [OF f] approve_commit_matched [OF m p] demo_move
        save_def)
qed

lemma demo_sys_simps [simp]:
  "ts_file demo_sys = Text ''W''" "ts_mem demo_sys = (\<lambda>_. trust_default)"
  "ts_path demo_sys = ''store''"
  by (simp_all add: demo_sys_def)

lemma demo_run:
  "trust_sys_step demo_sys (1, demo_env, Approve ''c1'') =
     demo_sys\<lparr>ts_file := Text ''G'', ts_mem := (\<lambda>_. trust_default)(1 := demo_granted)\<rparr>"
  by (simp add: demo_approve put_manager_def)

section \<open>Well-formedness and the cause of an approval\<close>

text \<open>
  In every run of the processes over the shared store, each memory and the file stay
  well-formed: entries stand under their own client id, and no client is both approved and
  pending.
\<close>

theorem trust_run_wf:
  assumes "trust_sys_wf J sys" and "\<forall>e \<in> set es. input_ok J e"
  shows "trust_sys_wf J (foldl trust_sys_step sys es)"
  using assms by (rule ts.run_inv)

theorem trust_run_wf_witness:
  "trust_sys_wf (te_from_json demo_env) (foldl trust_sys_step demo_sys
     [(0, demo_env, Register ''c1'' ''laptop'' ''Pad'' ''Direct UDP''), (1, demo_env, Approve ''c''),
      (0, demo_env, Query ''c1''), (1, demo_env, Revoke ''c1'')])"
  by (rule trust_run_wf [OF demo_wf]) (simp add: demo_env_ok)

text \<open>
  C6. A client is approved only by an administrator: if a client that no memory and no file
  had approved is approved after a run, then the run contains an \<open>Approve\<close> whose target is
  that client's id or a prefix of it, executed while the client was pending. No query,
  registration, listing or revocation, and no failed write, approves anybody.
\<close>

theorem approval_only_by_approve:
  assumes "trust_sys_wf J sys" and "\<forall>e \<in> set es. input_ok J e"
    and "approved_somewhere J (foldl trust_sys_step sys es) k" and "\<not> approved_somewhere J sys k"
  shows "\<exists>es1 i env t es2. es = es1 @ (i, env, Approve t) # es2 \<and> starts_with k t \<and>
    k |\<in>| fmdom (td_pending (tm_data (reload env (manager_of i (foldl trust_sys_step sys es1)))))"
proof -
  from ts.run_cause [OF assms] obtain es1 e es2 where es: "es = es1 @ e # es2"
    and cause: "approve_cause (foldl trust_sys_step sys es1) e k" by blast
  obtain i env op where e: "e = (i, env, op)" by (cases e)
  from cause obtain t where "op = Approve t" "starts_with k t"
    "k |\<in>| fmdom (td_pending (tm_data (reload env (manager_of i (foldl trust_sys_step sys es1)))))"
    unfolding e by auto
  with es e show ?thesis by blast
qed

theorem approval_only_by_approve_witness:
  "\<exists>es1 i env t es2. [(1::nat, demo_env, Approve ''c1'')] = es1 @ (i, env, Approve t) # es2 \<and>
     starts_with ''c1'' t \<and> ''c1'' |\<in>| fmdom (td_pending (tm_data
       (reload env (manager_of i (foldl trust_sys_step demo_sys es1)))))"
proof (rule approval_only_by_approve [OF demo_wf])
  let ?J = "te_from_json demo_env"
  show "\<forall>e \<in> set [(1::nat, demo_env, Approve ''c1'')]. input_ok ?J e"
    by (simp add: demo_env_ok)
  have "''c1'' |\<in>| fmdom (td_approved demo_granted)" by (simp add: demo_granted_def)
  then show "approved_somewhere ?J (foldl trust_sys_step demo_sys [(1, demo_env, Approve ''c1'')]) ''c1''"
    by (simp only: foldl.simps demo_run approved_somewhere_def) auto
  show "\<not> approved_somewhere ?J demo_sys ''c1''"
    by (simp add: approved_somewhere_def parse_file_def)
       (simp add: demo_waiting_def trust_default_def)
qed

section \<open>Effect of approve and revoke\<close>

lemma approve_OkE:
  assumes "trust_env_ok env" and "approve env t tm = (Ok a, tm')"
  obtains k p where "starts_with k t" "fmlookup (td_pending (tm_data (reload env tm))) k = Some p"
    "match_id env (fmdom (td_pending (tm_data (reload env tm)))) t = Some k"
    "a = promote env p" "tm_data tm' = move_to_approved env k p (tm_data (reload env tm))"
    "disk_data env (tm_file tm') = Some (tm_data tm')"
proof (rule approve_commit_cases [OF assms(1), of "reload env tm" t], goal_cases)
  case 1
  with assms(2) show ?case by (simp add: approve_def bail_def)
next
  case (2 k p)
  let ?d = "move_to_approved env k p (tm_data (reload env tm))"
  from 2 assms(2) obtain u where s: "save env ?d ((reload env tm)\<lparr>tm_data := ?d\<rparr>) = (Inr u, tm')"
    and a: "a = promote env p"
    by (auto simp: approve_def Let_def split: prod.splits sum.splits)
  from save_Ok [OF assms(1) s] 2 a that show ?case by simp
qed

lemma is_approved_fst:
  "fst (is_approved env k tm) = (k |\<in>| fmdom (td_approved (tm_data (reload env tm))))"
  by (simp add: is_approved_def Let_def)

text \<open>
  C17. An approval takes effect in every process: after \<open>approve\<close> succeeded in process \<open>i\<close>,
  the client it returned was pending under an id that starts with the target, and every
  process \<open>j\<close>, whatever its memory, now answers that the client is approved.
\<close>

theorem approve_visible_everywhere:
  assumes "trust_env_ok env" and "te_from_json env' = te_from_json env"
    and "trust_sys_wf (te_from_json env) sys" and "approve env t (manager_of i sys) = (Ok a, tm')"
  shows "starts_with (ac_client_id a) t \<and>
    fst (is_approved env' (ac_client_id a) (manager_of j (put_manager i tm' sys)))"
proof -
  let ?tm = "reload env (manager_of i sys)"
  from assms(1,4) obtain k p where k: "starts_with k t"
    and p: "fmlookup (td_pending (tm_data ?tm)) k = Some p" and a: "a = promote env p"
    and d: "tm_data tm' = move_to_approved env k p (tm_data ?tm)"
    and f: "disk_data env (tm_file tm') = Some (tm_data tm')"
    by (rule approve_OkE)
  have "tm_wf (te_from_json env) ?tm"
    using assms(3) by (auto simp: trust_sys_wf_def intro: tm_wf_reload)
  with p have "ac_client_id a = k" by (simp add: a promote_def tm_wf_def trust_wf_def)
  moreover from f have "parse_file (te_from_json env') (ts_file (put_manager i tm' sys)) = Some (tm_data tm')"
    by (simp add: assms(2) put_manager_def)
  ultimately show ?thesis
    using k by (simp add: is_approved_fst reload_disk d move_to_approved_def)
qed

theorem approve_visible_everywhere_witness:
  "fst (is_approved demo_env ''c1'' (manager_of 0 (put_manager 1
     (snd (approve demo_env ''c1'' (manager_of 1 demo_sys))) demo_sys)))"
proof -
  have "approve demo_env ''c1'' (manager_of 1 demo_sys) =
      (Ok (promote demo_env demo_pending), snd (approve demo_env ''c1'' (manager_of 1 demo_sys)))"
    by (simp add: demo_approve)
  from approve_visible_everywhere [OF demo_env_ok refl demo_wf this, of 0] show ?thesis
    by (simp add: promote_def demo_pending_def)
qed

lemma revoke_OkE:
  assumes "trust_env_ok env" and "revoke env t tm = (Ok b, tm')"
  obtains k where "match_id env (fmdom (td_approved (tm_data (reload env tm)))) t = Some k"
    "tm_data tm' = (tm_data (reload env tm))\<lparr>td_approved :=
       fmdrop k (td_approved (tm_data (reload env tm)))\<rparr>"
    "disk_data env (tm_file tm') = Some (tm_data tm')"
proof (cases "match_id env (fmdom (td_approved (tm_data (reload env tm)))) t")
  case None
  with assms(2) show ?thesis by (simp add: revoke_def revoke_commit_def Let_def bail_def)
next
  case (Some k)
  let ?d = "(tm_data (reload env tm))\<lparr>td_approved := fmdrop k (td_approved (tm_data (reload env tm)))\<rparr>"
  from Some assms(2) obtain u where "save env ?d ((reload env tm)\<lparr>tm_data := ?d\<rparr>) = (Inr u, tm')"
    by (auto simp: revoke_def revoke_commit_def Let_def split: prod.splits sum.splits)
  from save_Ok [OF assms(1) this] Some that show ?thesis by simp
qed

text \<open>
  C18. A revocation takes effect in every process and for one client only: after \<open>revoke\<close>
  succeeded, one client whose id starts with the target (the target itself if that was
  approved) has lost its approval in every process, and every other client has the same
  answer as before.
\<close>

theorem revoke_visible_everywhere:
  assumes "trust_env_ok env" and "te_from_json env' = te_from_json env"
    and "revoke env t (manager_of i sys) = (Ok b, tm')"
  shows "\<exists>k. starts_with k t \<and> fst (is_approved env k (manager_of i sys)) \<and>
    (fst (is_approved env t (manager_of i sys)) \<longrightarrow> k = t) \<and>
    (\<forall>j k'. fst (is_approved env' k' (manager_of j (put_manager i tm' sys))) =
       (k' \<noteq> k \<and> fst (is_approved env k' (manager_of i sys))))"
proof -
  from assms(1,3) obtain k where m: "match_id env
      (fmdom (td_approved (tm_data (reload env (manager_of i sys))))) t = Some k"
    and d: "tm_data tm' = (tm_data (reload env (manager_of i sys)))\<lparr>td_approved :=
      fmdrop k (td_approved (tm_data (reload env (manager_of i sys))))\<rparr>"
    and f: "disk_data env (tm_file tm') = Some (tm_data tm')"
    by (rule revoke_OkE)
  from f have "parse_file (te_from_json env') (ts_file (put_manager i tm' sys)) = Some (tm_data tm')"
    by (simp add: assms(2) put_manager_def)
  then show ?thesis
    using match_id_Some [OF assms(1) m]
    by (intro exI [of _ k]) (auto simp: is_approved_fst reload_Some d)
qed

lemma demo_revoke:
  assumes "tm_file tm = Text ''G''"
  shows "revoke demo_env ''c1'' tm = (Ok True, tm\<lparr>tm_file := Text ''E'', tm_data := trust_default\<rparr>)"
proof -
  have "match_id demo_env (fmdom (td_approved demo_granted)) ''c1'' = Some ''c1''"
    and "demo_granted\<lparr>td_approved := fmdrop ''c1'' (td_approved demo_granted)\<rparr> = trust_default"
    by (simp_all add: match_id_def demo_granted_def trust_default_def fmdrop_fmupd_same)
  then show ?thesis
    by (simp add: revoke_def demo_reload(2) [OF assms] revoke_commit_def save_def Let_def)
qed

theorem revoke_visible_everywhere_witness:
  "\<exists>k. starts_with k ''c1'' \<and>
    \<not> fst (is_approved demo_env k (manager_of 0 (put_manager 1
       (snd (revoke demo_env ''c1'' (manager_of 1 (demo_sys\<lparr>ts_file := Text ''G''\<rparr>))))
       (demo_sys\<lparr>ts_file := Text ''G''\<rparr>))))"
proof -
  let ?sys = "demo_sys\<lparr>ts_file := Text ''G''\<rparr>"
  have "revoke demo_env ''c1'' (manager_of 1 ?sys) =
      (Ok True, snd (revoke demo_env ''c1'' (manager_of 1 ?sys)))"
    by (simp add: demo_revoke)
  from revoke_visible_everywhere [OF demo_env_ok refl this] show ?thesis by blast
qed

section \<open>Prefix targets, failures, panics\<close>

text \<open>
  \<open>approve\<close> never panics, and it fails before touching anything exactly when no pending
  id starts with the target; a target that is itself pending selects that client.
\<close>

theorem approve_outcomes:
  assumes "trust_env_ok env" and "pend = fmdom (td_pending (tm_data (reload env tm)))"
  shows "(\<forall>s. fst (approve env t tm) \<noteq> Err (Panic s)) \<and>
    ((\<forall>k. k |\<in>| pend \<longrightarrow> \<not> starts_with k t) \<longrightarrow>
       approve env t tm =
         (bail (''No pending client request found matching ID or prefix '' @ squote t), reload env tm)) \<and>
    (t |\<in>| pend \<longrightarrow> t |\<in>| fmdom (td_approved (tm_data (snd (approve env t tm)))) \<and>
       t |\<notin>| fmdom (td_pending (tm_data (snd (approve env t tm)))))"
proof (rule approve_commit_cases [OF assms(1), of "reload env tm" t], goal_cases)
  case 1
  then show ?case by (auto simp: approve_def bail_def assms(2))
next
  case (2 k p)
  have "\<exists>k. k |\<in>| pend \<and> starts_with k t" using 2 by (auto simp: assms(2) intro: fmdomI)
  moreover have "fst (approve env t tm) \<noteq> Err (Panic s)" for s
    using 2(4) by (auto simp: approve_def save_def bail_def Let_def
        split: prod.splits sum.splits if_splits)
  moreover have "t |\<in>| pend \<Longrightarrow> k = t" using match_id_Some(3) [OF assms(1) 2(1)] by (simp add: assms(2))
  moreover have "tm_data (snd (approve env t tm)) = move_to_approved env k p (tm_data (reload env tm))"
    using 2(4) by (simp add: approve_def Let_def snd_let_case_sum save_frame)
  ultimately show ?case by (auto simp: move_to_approved_def)
qed

theorem approve_outcomes_witness:
  "''c1'' |\<notin>| fmdom (td_pending (tm_data (snd (approve demo_env ''c1'' (manager_of 1 demo_sys)))))"
proof -
  have "fmdom (td_pending (tm_data (reload demo_env (manager_of 1 demo_sys)))) = {|''c1''|}"
    by (simp add: demo_reload) (simp add: demo_waiting_def)
  from approve_outcomes [OF demo_env_ok this [symmetric], of "''c1''"] show ?thesis by simp
qed

text \<open>
  A prefix that several pending ids share does not fail: for each of the matching clients
  there is an enumeration order of the map, allowed by its documentation, under which that
  client is the one approved. The empty target matches everybody.
\<close>

theorem approve_ambiguous_prefix:
  assumes "trust_env_ok env" and "pend = fmdom (td_pending (tm_data (reload env tm)))"
    and "k |\<in>| pend" and "starts_with k t" and "t |\<notin>| pend"
  shows "\<exists>it. trust_env_ok (env\<lparr>te_iter := it\<rparr>) \<and>
    k |\<in>| fmdom (td_approved (tm_data (snd (approve (env\<lparr>te_iter := it\<rparr>) t tm))))"
proof -
  define it where "it A = (if k |\<in>| A then k # remove1 k (te_iter env A) else te_iter env A)" for A
  let ?env = "env\<lparr>te_iter := it\<rparr>"
  have "set (it A) = fset A \<and> distinct (it A)" for A
    using env_iter [OF assms(1), of A] by (auto simp: it_def)
  with assms(1) have ok: "trust_env_ok ?env" by (simp add: trust_env_ok_def)
  have r: "reload ?env tm = reload env tm" by (simp add: reload_disk)
  have m: "match_id ?env (fmdom (td_pending (tm_data (reload ?env tm)))) t = Some k"
    using assms(2-5) by (simp add: match_id_def r it_def)
  from assms(2,3) obtain p where p: "fmlookup (td_pending (tm_data (reload ?env tm))) k = Some p"
    unfolding r by (auto elim: fmdomE)
  have "k |\<in>| fmdom (td_approved (tm_data (snd (approve ?env t tm))))"
    by (simp add: approve_def approve_commit_matched [OF m p] Let_def snd_let_case_sum save_frame
        move_to_approved_def)
  with ok show ?thesis by blast
qed

definition demo_two :: trust_manager where
  "demo_two = \<lparr>tm_path = ''store'', tm_file = Missing, tm_data = \<lparr>td_approved = fmempty,
     td_pending = fmupd ''c2'' (demo_pending\<lparr>pc_client_id := ''c2''\<rparr>) (fmupd ''c1'' demo_pending fmempty)\<rparr>\<rparr>"

theorem approve_ambiguous_prefix_witness:
  "\<exists>it1 it2.
    ''c1'' |\<in>| fmdom (td_approved (tm_data (snd (approve (demo_env\<lparr>te_iter := it1\<rparr>) ''c'' demo_two)))) \<and>
    ''c2'' |\<in>| fmdom (td_approved (tm_data (snd (approve (demo_env\<lparr>te_iter := it2\<rparr>) ''c'' demo_two))))"
proof -
  have "{|''c2'', ''c1''|} = fmdom (td_pending (tm_data (reload demo_env demo_two)))"
    by (simp add: reload_def demo_two_def)
  note amb = approve_ambiguous_prefix [OF demo_env_ok this, where t = "''c''"]
  from amb [of "''c1''"] amb [of "''c2''"] show ?thesis by (auto simp: starts_with_def)
qed

text \<open>
  An approval or revocation that could not be written has no lasting effect: if the old
  file is still there, the next question of any process is answered as if the operation had
  not been tried, although the process keeps the change in its memory until then.
\<close>

theorem unwritten_change_is_undone:
  assumes "te_from_json env' = te_from_json env"
    and "disk_data env (tm_file tm) = Some d" and "tm_file (trust_op_step env op tm) = tm_file tm"
  shows "fst (is_approved env' k (trust_op_step env op tm)) = fst (is_approved env' k tm)"
  using assms by (simp add: is_approved_fst reload_disk)

theorem unwritten_change_is_undone_witness:
  "\<not> fst (is_approved demo_env ''c1'' (trust_op_step (demo_env\<lparr>te_write := (\<lambda>f s. (False, f))\<rparr>)
       (Approve ''c1'') (manager_of 0 demo_sys))) \<and>
   ''c1'' |\<in>| fmdom (td_approved (tm_data (trust_op_step (demo_env\<lparr>te_write := (\<lambda>f s. (False, f))\<rparr>)
       (Approve ''c1'') (manager_of 0 demo_sys))))"
proof -
  let ?env = "demo_env\<lparr>te_write := (\<lambda>f s. (False, f))\<rparr>"
  let ?tm = "manager_of 0 demo_sys"
  have r: "reload ?env ?tm = ?tm\<lparr>tm_data := demo_waiting\<rparr>" by (simp add: reload_def)
  have m: "match_id ?env (fmdom (td_pending (tm_data (reload ?env ?tm)))) ''c1'' = Some ''c1''"
    and p: "fmlookup (td_pending (tm_data (reload ?env ?tm))) ''c1'' = Some demo_pending"
    by (simp_all add: r match_id_def) (simp_all add: demo_waiting_def)
  have j: "parse_file (te_from_json ?env) (tm_file ?tm) = Some demo_waiting"
    by (simp add: parse_file_def)
  have step: "trust_op_step ?env (Approve ''c1'') ?tm =
      snd (save ?env (move_to_approved ?env ''c1'' demo_pending (tm_data (reload ?env ?tm)))
        ((reload ?env ?tm)\<lparr>tm_data := move_to_approved ?env ''c1'' demo_pending (tm_data (reload ?env ?tm))\<rparr>))"
    by (simp add: approve_def approve_commit_matched [OF m p] Let_def snd_let_case_sum)
  have f: "tm_file (trust_op_step ?env (Approve ''c1'') ?tm) = tm_file ?tm"
    unfolding step by (simp add: save_def Let_def split: sum.splits)
  have "\<not> fst (is_approved demo_env ''c1'' ?tm)"
    by (simp add: is_approved_fst demo_reload) (simp add: demo_waiting_def)
  with unwritten_change_is_undone [of demo_env ?env, OF _ j f]
  have "\<not> fst (is_approved demo_env ''c1'' (trust_op_step ?env (Approve ''c1'') ?tm))" by simp
  moreover have "''c1'' |\<in>| fmdom (td_approved (tm_data (trust_op_step ?env (Approve ''c1'') ?tm)))"
    unfolding step by (simp add: save_frame move_to_approved_def)
  ultimately show ?thesis by blast
qed

text \<open>
  Fail closed: a manager opened on a store that is missing, unreadable or does not parse
  approves nobody.
\<close>

theorem damaged_store_approves_nobody:
  assumes "parse_file (te_from_json env) (pe_file pe (trust_store_path pe custom)) = None"
  shows "\<not> fst (is_approved env k (trust_new env pe custom))"
  using assms
  by (simp add: is_approved_fst trust_new_def Let_def load_trust_disk_data reload_disk
      trust_default_def)

theorem damaged_store_approves_nobody_witness:
  "\<not> fst (is_approved demo_env ''c1'' (trust_new demo_env
     \<lparr>pe_var = (\<lambda>_. None), pe_home_dir = None, pe_config_dir = None,
       pe_file = (\<lambda>_. Text ''{'')\<rparr> (Some ''store'')))"
  by (rule damaged_store_approves_nobody)
     (simp add: parse_file_def demo_env_def table_trust_env_def)

text \<open>
  Where the store is: a process run as root, under sudo or by systemd always uses
  \<^verbatim>\<open>/etc/joycast/trusted_clients.json\<close>, so the daemon and an administrator's command line
  agree; and once that file exists, every process uses it, whatever its environment.
\<close>

theorem store_path_agreement:
  assumes "trust_is_root_context pe \<or> pe_file pe ''/etc/joycast/trusted_clients.json'' \<noteq> Missing"
  shows "trust_store_path pe None = ''/etc/joycast/trusted_clients.json''"
  using assms by (auto simp: trust_store_path_def path_join_def file_exists_def Let_def)

theorem store_path_agreement_witness:
  "trust_store_path \<lparr>pe_var = (\<lambda>v. if v = ''SUDO_USER'' then Some ''ann'' else None),
     pe_home_dir = None, pe_config_dir = Some ''/home/ann/.config'', pe_file = (\<lambda>_. Missing)\<rparr> None =
   ''/etc/joycast/trusted_clients.json''"
  by (rule store_path_agreement) (simp add: trust_is_root_context_def var_set_def)

section \<open>Registration\<close>

text \<open>
  A registration never changes who is approved, and it stores the request of a client
  that is not approved under that client's id with the current time: the recorded
  \<open>first_seen\<close> of a client that asks again is the time of its latest request.
\<close>

theorem register_effect:
  assumes "d = tm_data (reload env tm)"
    and "d' = tm_data (register_pending env cid host dev tr tm)"
  shows "td_approved d' = td_approved d \<and>
    (\<forall>k. k \<noteq> cid \<longrightarrow> fmlookup (td_pending d') k = fmlookup (td_pending d) k) \<and>
    (if cid |\<in>| fmdom (td_approved d)
     then fmlookup (td_pending d') cid = fmlookup (td_pending d) cid
     else \<exists>p. fmlookup (td_pending d') cid = Some p \<and> pc_client_id p = cid \<and>
       pc_hostname p = host \<and> pc_device_name p = dev \<and> pc_transport p = tr \<and>
       pc_first_seen p = te_now env)"
  using assms by (simp add: register_pending_def register_commit_def Let_def save_frame)

theorem register_effect_witness:
  "\<exists>p. fmlookup (td_pending (tm_data (register_pending demo_env ''c1'' ''laptop'' ''Pad'' ''Direct UDP''
     (manager_of 0 demo_sys)))) ''c1'' = Some p \<and> pc_first_seen p = ''t1'' \<and>
     pc_first_seen demo_pending = ''t0''"
proof -
  have "''c1'' |\<notin>| fmdom (td_approved (tm_data (reload demo_env (manager_of 0 demo_sys))))"
    by (simp add: demo_reload) (simp add: demo_waiting_def)
  with register_effect [OF refl refl, where env = demo_env and tm = "manager_of 0 demo_sys"
      and cid = "''c1''" and host = "''laptop''" and dev = "''Pad''" and tr = "''Direct UDP''"]
  show ?thesis by (auto simp: demo_pending_def)
qed

text \<open>
  Two processes can lose an approval. A registration of the daemon reads the file, an
  administrator's \<open>approve\<close> of a waiting client succeeds and is written, then the
  registration writes back what it read before: if that write succeeds, the file no longer
  says that the client is approved, and no process answers so.
\<close>

theorem approval_lost_in_race:
  assumes "trust_env_ok env" and "trust_env_ok env'" and "te_from_json env' = te_from_json env"
    and "daemon1 = reload env' daemon" and "tm_file cli = tm_file daemon"
    and "trust_wf (tm_data daemon1)" and "disk_data env (tm_file daemon) \<noteq> None"
    and "approve env t cli = (Ok a, cli')"
    and "daemon2 = register_commit env' cid host dev tr (daemon1\<lparr>tm_file := tm_file cli'\<rparr>)"
    and "cid |\<notin>| fmdom (td_approved (tm_data daemon1))"
    and "disk_data env (tm_file daemon2) = Some (tm_data daemon2)"
  shows "\<not> fst (is_approved env' (ac_client_id a) daemon2)"
proof -
  from assms(7) obtain d where d: "disk_data env (tm_file daemon) = Some d" by blast
  then have d1: "tm_data daemon1 = d" and "reload env cli = cli\<lparr>tm_data := d\<rparr>"
    using assms(3-5) by (simp_all add: reload_Some)
  with assms(1,8) obtain k p where p: "fmlookup (td_pending d) k = Some p" and a: "a = promote env p"
    by (auto elim: approve_OkE)
  with assms(6) d1 have "ac_client_id a |\<notin>| fmdom (td_approved d)"
    by (auto simp: trust_wf_def promote_def fmlookup_dom_iff)
  moreover have "td_approved (tm_data daemon2) = td_approved d"
    using assms(10) by (simp add: assms(9) register_commit_def Let_def save_frame d1)
  ultimately show ?thesis
    using assms(3,11) by (simp add: is_approved_fst reload_Some)
qed

theorem approval_lost_in_race_witness:
  "let env' = demo_env\<lparr>te_now := ''t0''\<rparr>; daemon = manager_of 0 demo_sys;
       (r, cli') = approve demo_env ''c1'' (manager_of 2 demo_sys);
       daemon2 = register_commit env' ''c1'' ''laptop'' ''Pad'' ''Direct UDP''
         ((reload env' daemon)\<lparr>tm_file := tm_file cli'\<rparr>)
   in is_ok r \<and> \<not> fst (is_approved env' ''c1'' daemon2)"
proof -
  let ?env' = "demo_env\<lparr>te_now := ''t0''\<rparr>" and ?d = "manager_of 0 demo_sys"
  let ?d1 = "reload ?env' ?d"
  have r: "?d1 = ?d\<lparr>tm_data := demo_waiting\<rparr>" by (simp add: reload_def)
  have ok: "trust_env_ok ?env'" using demo_env_ok by (simp add: trust_env_ok_def)
  have again: "demo_waiting\<lparr>td_pending := fmupd ''c1'' \<lparr>pc_client_id = ''c1'', pc_hostname = ''laptop'',
      pc_device_name = ''Pad'', pc_transport = ''Direct UDP'', pc_first_seen = ''t0''\<rparr>
      (td_pending demo_waiting)\<rparr> = demo_waiting"
    by (simp add: demo_waiting_def demo_pending_def)
  have new: "''c1'' |\<notin>| fmdom (td_approved demo_waiting)" by (simp add: demo_waiting_def)
  have d2: "register_commit ?env' ''c1'' ''laptop'' ''Pad'' ''Direct UDP'' (?d1\<lparr>tm_file := Text ''G''\<rparr>) =
      ?d1\<lparr>tm_file := Text ''W''\<rparr>"
    by (simp add: r register_commit_def new Let_def again save_def)
  have ap: "approve demo_env ''c1'' (manager_of 2 demo_sys) = (Ok (promote demo_env demo_pending),
      (manager_of 2 demo_sys)\<lparr>tm_file := Text ''G'', tm_data := demo_granted\<rparr>)"
    by (simp add: demo_approve)
  have "\<not> fst (is_approved ?env' (ac_client_id (promote demo_env demo_pending))
      (?d1\<lparr>tm_file := Text ''W''\<rparr>))"
    by (rule approval_lost_in_race [OF demo_env_ok ok _ refl _ _ _ ap, where daemon = ?d and cid = "''c1''"
      and host = "''laptop''" and dev = "''Pad''" and tr = "''Direct UDP''"])
      (simp_all add: d2, simp_all add: r demo_data_wf new parse_file_def)
  then show ?thesis
    by (simp add: Let_def ap d2) (simp add: promote_def demo_pending_def)
qed

section \<open>Listings\<close>

lemma map_values_props:
  assumes "trust_env_ok env"
  shows "set (map_values (te_iter env) m) = {v. \<exists>k. fmlookup m k = Some v}"
    and "length (map_values (te_iter env) m) = fcard (fmdom m)"
proof -
  note it = env_iter [OF assms, of "fmdom m"]
  have "set (map_values (te_iter env) m) = (\<lambda>k. the (fmlookup m k)) ` fset (fmdom m)"
    by (simp add: map_values_def it)
  also have "\<dots> = {v. \<exists>k. fmlookup m k = Some v}"
    by (force simp: fmlookup_dom_iff image_iff)
  finally show "set (map_values (te_iter env) m) = {v. \<exists>k. fmlookup m k = Some v}" .
  show "length (map_values (te_iter env) m) = fcard (fmdom m)"
    by (simp add: map_values_def fcard.rep_eq flip: it(1) distinct_card [OF it(2)])
qed

text \<open>
  The listings are complete and in order: \<open>list_pending\<close> has every pending entry once,
  by the time it was first seen, and \<open>list_approved\<close> every approved entry once, by the time
  of approval; listing changes nothing but reloads.
\<close>

theorem listings_complete_sorted:
  assumes "trust_env_ok env" and "list_pending env tm = (ps, tm1)" and "list_approved env tm = (as, tm2)"
    and "d = tm_data (reload env tm)"
  shows "tm1 = reload env tm \<and> tm2 = reload env tm \<and>
    sorted (map pc_first_seen ps) \<and> sorted (map ac_approved_at as) \<and>
    set ps = {p. \<exists>k. fmlookup (td_pending d) k = Some p} \<and> length ps = fcard (fmdom (td_pending d)) \<and>
    set as = {a. \<exists>k. fmlookup (td_approved d) k = Some a} \<and> length as = fcard (fmdom (td_approved d))"
  using assms(2-4)
  by (auto simp: list_pending_def list_approved_def Let_def map_values_props [OF assms(1)])

theorem listings_complete_sorted_witness:
  "set (fst (list_pending demo_env (manager_of 0 demo_sys))) = {demo_pending}"
proof -
  have d: "tm_data (reload demo_env (manager_of 0 demo_sys)) = demo_waiting" by (simp add: demo_reload)
  have "{p. \<exists>k. fmlookup (td_pending demo_waiting) k = Some p} = {demo_pending}"
    by (auto simp: demo_waiting_def split: if_splits)
  with listings_complete_sorted [OF demo_env_ok prod.collapse [symmetric] prod.collapse [symmetric]
      refl, of "manager_of 0 demo_sys"] d
  show ?thesis by simp
qed

end
