(* ===== verification/Session.thy ===== *)
theory Session
  imports Device Frame TrustProps
begin

text \<open>
  What the two listeners of \<^verbatim>\<open>src/server.rs\<close> share: the map of live sessions, each owning one
  virtual device, with its operations (opening or reusing a session for a handshake, marking
  activity, replaying events, reaping idle sessions), and the gate in front of it, which asks
  the authorization store about a client.

  An \<^verbatim>\<open>Instant\<close> is the number of nanoseconds since an arbitrary origin; \<^verbatim>\<open>duration_since\<close> is
  zero for a later instant, which is subtraction on \<^typ>\<open>nat\<close>. The sessions stand behind one
  mutex that each operation holds from its first to its last access, so an operation is one
  function of the map.
\<close>

section \<open>Environment of a step\<close>

record server_env =
  sn_now :: nat
  sn_hostname :: string
  sn_codec :: codec
  sn_uinput :: uinput_env
  sn_trust :: trust_env
  sn_debug :: "message \<Rightarrow> string"

section \<open>Sessions\<close>

record session_entry =
  se_vdev :: virtual_output
  se_last_active :: nat
  se_client_hostname :: string

type_synonym sessions = "(string, session_entry) fmap"

definition device_id_str :: "handshake_payload \<Rightarrow> string" where
  "device_id_str p = (case hp_device_id p of None \<Rightarrow> dm_name (hp_metadata p) | Some d \<Rightarrow> d)"

definition session_key :: "handshake_payload \<Rightarrow> string" where
  "session_key p = hp_client_id p @ '':'' @ device_id_str p"

definition hostname_count :: "string \<Rightarrow> sessions \<Rightarrow> nat" where
  "hostname_count host ss =
     fcard (ffilter (\<lambda>k. map_option se_client_hostname (fmlookup ss k) = Some host) (fmdom ss))"

definition virtual_device_name :: "nat \<Rightarrow> string \<Rightarrow> string \<Rightarrow> string" where
  "virtual_device_name existing host device =
     (if existing = 0 then host @ '': '' @ device @ '' (Joycast)''
      else host @ '' #'' @ show_nat (existing + 1) @ '': '' @ device @ '' (Joycast)'')"

definition touch :: "nat \<Rightarrow> session_entry \<Rightarrow> session_entry" where
  "touch now s = s\<lparr>se_last_active := now\<rparr>"

datatype session_outcome = Reused | Created | CreateFailed failure

text \<open>The block under the session lock of both handshake handlers.\<close>

definition open_session ::
  "server_env \<Rightarrow> handshake_payload \<Rightarrow> sessions \<Rightarrow> session_outcome \<times> sessions" where
  "open_session env p ss =
     (let key = session_key p in
      case fmlookup ss key of
        Some entry \<Rightarrow> (Reused, fmupd key (touch (sn_now env) entry) ss)
      | None \<Rightarrow>
          let existing = hostname_count (hp_client_hostname p) ss;
              dev_name = virtual_device_name existing (hp_client_hostname p) (dm_name (hp_metadata p))
          in (case new_with_name (sn_uinput env) (hp_metadata p) dev_name of
                Inl e \<Rightarrow> (CreateFailed e, ss)
              | Inr vdev \<Rightarrow>
                  (Created, fmupd key \<lparr>se_vdev = vdev, se_last_active = sn_now env,
                     se_client_hostname = hp_client_hostname p\<rparr> ss)))"

text \<open>The bodies under the session lock for \<^verbatim>\<open>Events\<close> and \<^verbatim>\<open>Ping\<close>; nothing where the session is gone.\<close>

definition replay :: "server_env \<Rightarrow> event_wire list \<Rightarrow> session_entry \<Rightarrow> session_entry" where
  "replay env events s =
     (touch (sn_now env) s)\<lparr>se_vdev := fst (emit (sn_uinput env) events (se_vdev s))\<rparr>"

definition session_events ::
  "server_env \<Rightarrow> string \<Rightarrow> event_wire list \<Rightarrow> sessions \<Rightarrow> sessions option" where
  "session_events env key events ss =
     (case fmlookup ss key of None \<Rightarrow> None | Some s \<Rightarrow> Some (fmupd key (replay env events s) ss))"

definition session_ping :: "server_env \<Rightarrow> string \<Rightarrow> sessions \<Rightarrow> sessions option" where
  "session_ping env key ss =
     (case fmlookup ss key of None \<Rightarrow> None | Some s \<Rightarrow> Some (fmupd key (touch (sn_now env) s) ss))"

text \<open>One round of the reaper task.\<close>

definition idle_limit :: nat where
  "idle_limit = 900 * 1000000000"

definition session_active :: "nat \<Rightarrow> session_entry \<Rightarrow> bool" where
  "session_active now s \<longleftrightarrow> now - se_last_active s < idle_limit"

definition reap :: "nat \<Rightarrow> sessions \<Rightarrow> sessions" where
  "reap now ss =
     fmfilter (\<lambda>k. case fmlookup ss k of None \<Rightarrow> False | Some s \<Rightarrow> session_active now s) ss"

section \<open>Facts on sessions\<close>

lemma touch_simps [simp]:
  "se_vdev (touch n s) = se_vdev s" "se_client_hostname (touch n s) = se_client_hostname s"
  "se_last_active (touch n s) = n"
  by (simp_all add: touch_def)

lemma replay_simps [simp]:
  "se_client_hostname (replay env evs s) = se_client_hostname s"
  "se_last_active (replay env evs s) = sn_now env"
  "se_vdev (replay env evs s) = fst (emit (sn_uinput env) evs (se_vdev s))"
  by (simp_all add: replay_def)

lemma fmlookup_reap:
  "fmlookup (reap now ss) k =
     (case fmlookup ss k of None \<Rightarrow> None | Some s \<Rightarrow> if session_active now s then Some s else None)"
  by (auto simp: reap_def split: option.splits)

lemma open_session_cases:
  obtains (reused) s where "fmlookup ss (session_key p) = Some s"
    "open_session env p ss = (Reused, fmupd (session_key p) (touch (sn_now env) s) ss)"
  | (created) vo where "fmlookup ss (session_key p) = None"
    "new_with_name (sn_uinput env) (hp_metadata p) (virtual_device_name
       (hostname_count (hp_client_hostname p) ss) (hp_client_hostname p) (dm_name (hp_metadata p))) = Inr vo"
    "open_session env p ss = (Created, fmupd (session_key p)
       \<lparr>se_vdev = vo, se_last_active = sn_now env, se_client_hostname = hp_client_hostname p\<rparr> ss)"
  | (failed) e where "fmlookup ss (session_key p) = None"
    "new_with_name (sn_uinput env) (hp_metadata p) (virtual_device_name
       (hostname_count (hp_client_hostname p) ss) (hp_client_hostname p) (dm_name (hp_metadata p))) = Inl e"
    "open_session env p ss = (CreateFailed e, ss)"
proof (cases "fmlookup ss (session_key p)")
  case (Some s)
  then show thesis by (intro reused) (auto simp: open_session_def)
next
  case None
  show thesis
  proof (cases "new_with_name (sn_uinput env) (hp_metadata p) (virtual_device_name
       (hostname_count (hp_client_hostname p) ss) (hp_client_hostname p) (dm_name (hp_metadata p)))")
    case (Inl e)
    with None show thesis by (intro failed) (auto simp: open_session_def Let_def)
  next
    case (Inr vo)
    with None show thesis by (intro created) (auto simp: open_session_def Let_def)
  qed
qed

lemma open_session_new:
  assumes "creatable (sn_uinput env) (hp_metadata p)" and "fmlookup ss (session_key p) = None"
  obtains n where "open_session env p ss = (Created, fmupd (session_key p)
     \<lparr>se_vdev = \<lparr>vo_name = n, vo_config = config_of (hp_metadata p) n, vo_log = []\<rparr>,
      se_last_active = sn_now env, se_client_hostname = hp_client_hostname p\<rparr> ss)"
proof (cases rule: open_session_cases [of ss p env])
  case (created vo)
  then show thesis by (intro that) (auto simp: new_with_name_Ok)
next
  case (failed e)
  with assms(1) is_ok_new_with_name show thesis by (metis is_ok_simps(2))
qed (use assms(2) in auto)

lemma open_session_dom:
  "fmlookup (snd (open_session env p ss)) k \<noteq> None \<Longrightarrow> fmlookup ss k \<noteq> None \<or> k = session_key p"
  by (cases rule: open_session_cases [of ss p env]) (auto split: if_splits)

lemma open_session_other [simp]:
  "k \<noteq> session_key p \<Longrightarrow> fmlookup (snd (open_session env p ss)) k = fmlookup ss k"
  by (cases rule: open_session_cases [of ss p env]) auto

text \<open>Opening never discards a device, and the device it makes has received nothing.\<close>

lemma open_session_log:
  "fmlookup (snd (open_session env p ss)) k = Some s \<Longrightarrow>
   (\<exists>s0. fmlookup ss k = Some s0 \<and> se_vdev s = se_vdev s0) \<or>
   (fmlookup ss k = None \<and> k = session_key p \<and> vo_log (se_vdev s) = [])"
  by (cases rule: open_session_cases [of ss p env]) (auto simp: new_with_name_Ok split: if_splits)

lemma open_session_present:
  "fst (open_session env p ss) = Reused \<or> fst (open_session env p ss) = Created \<Longrightarrow>
   fmlookup (snd (open_session env p ss)) (session_key p) \<noteq> None"
  by (cases rule: open_session_cases [of ss p env]) auto

lemma session_events_lookup:
  "session_events env key evs ss = Some ss' \<Longrightarrow>
   fmlookup ss' k = (if k = key then map_option (replay env evs) (fmlookup ss key) else fmlookup ss k)"
  by (auto simp: session_events_def split: option.splits)

lemma session_ping_lookup:
  "session_ping env key ss = Some ss' \<Longrightarrow>
   fmlookup ss' k = (if k = key then map_option (touch (sn_now env)) (fmlookup ss key) else fmlookup ss k)"
  by (auto simp: session_ping_def split: option.splits)

lemma session_None_iff [simp]:
  "session_events env key evs ss = None \<longleftrightarrow> fmlookup ss key = None"
  "session_ping env key ss = None \<longleftrightarrow> fmlookup ss key = None"
  by (auto simp: session_events_def session_ping_def split: option.splits)

section \<open>The gate\<close>

text \<open>
  What a listener relies on from the authorization store: its query answers whom the store
  admits, and neither a query nor a registration admits or expels anybody.
\<close>

locale gate =
  fixes query :: "'env \<Rightarrow> string \<Rightarrow> 'tm \<Rightarrow> bool \<times> 'tm"
    and enqueue :: "'env \<Rightarrow> string \<Rightarrow> string \<Rightarrow> string \<Rightarrow> string \<Rightarrow> 'tm \<Rightarrow> 'tm"
    and admits :: "'tm \<Rightarrow> string \<Rightarrow> bool"
    and ok :: "'env \<Rightarrow> bool"
  assumes query_answer: "ok env \<Longrightarrow> fst (query env cid tm) \<longleftrightarrow> admits tm cid"
    and query_admits: "ok env \<Longrightarrow> admits (snd (query env cid tm)) k \<longleftrightarrow> admits tm k"
    and enqueue_admits: "ok env \<Longrightarrow> admits (enqueue env cid h n t tm) k \<longleftrightarrow> admits tm k"
begin

definition knock :: "'env \<Rightarrow> string \<times> string \<times> string \<times> string \<Rightarrow> 'tm \<Rightarrow> 'tm" where
  "knock env req tm =
     (case req of (cid, h, n, t) \<Rightarrow>
        let (granted, tm1) = query env cid tm in if granted then tm1 else enqueue env cid h n t tm1)"

lemma knock_admits: "ok env \<Longrightarrow> admits (knock env req tm) k \<longleftrightarrow> admits tm k"
  by (auto simp: knock_def query_admits enqueue_admits Let_def split: prod.splits)
    (metis query_admits snd_conv enqueue_admits)+

lemma knocks_admit:
  "\<forall>e \<in> set reqs. ok (fst e) \<Longrightarrow>
   admits (foldl (\<lambda>tm e. knock (fst e) (snd e) tm) tm reqs) k \<longleftrightarrow> admits tm k"
  by (induction reqs arbitrary: tm) (auto simp: knock_admits)

end

text \<open>Whom a manager admits: what its reloaded data says, for a given JSON parser.\<close>

definition effective_data :: "(string \<Rightarrow> trust_data option) \<Rightarrow> trust_manager \<Rightarrow> trust_data" where
  "effective_data J tm = (case parse_file J (tm_file tm) of None \<Rightarrow> tm_data tm | Some d \<Rightarrow> d)"

definition tm_admits :: "(string \<Rightarrow> trust_data option) \<Rightarrow> trust_manager \<Rightarrow> string \<Rightarrow> bool" where
  "tm_admits J tm k \<longleftrightarrow> k |\<in>| fmdom (td_approved (effective_data J tm))"

lemma reload_effective: "tm_data (reload env tm) = effective_data (te_from_json env) tm"
  by (simp add: reload_disk effective_data_def split: option.splits)

lemma effective_reload [simp]: "effective_data (te_from_json env) (reload env tm) = effective_data (te_from_json env) tm"
  by (simp add: reload_disk effective_data_def split: option.splits)

lemma effective_save:
  assumes "trust_env_ok env"
  shows "effective_data (te_from_json env) (snd (save env d (tm\<lparr>tm_data := d\<rparr>))) \<in>
    {d, effective_data (te_from_json env) tm}"
  using save_disk [OF assms, of d "tm\<lparr>tm_data := d\<rparr>"]
  by (auto simp: effective_data_def save_frame split: option.splits)

definition gate_env_ok :: "(string \<Rightarrow> trust_data option) \<Rightarrow> trust_env \<Rightarrow> bool" where
  "gate_env_ok J env \<longleftrightarrow> trust_env_ok env \<and> te_from_json env = J"

lemma register_admits:
  assumes "trust_env_ok env"
  shows "tm_admits (te_from_json env) (register_pending env cid h n t tm) k \<longleftrightarrow>
    tm_admits (te_from_json env) tm k"
proof (cases "cid |\<in>| fmdom (td_approved (tm_data (reload env tm)))")
  case True
  then show ?thesis by (simp add: register_pending_def register_commit_def tm_admits_def)
next
  case False
  let ?tm = "reload env tm"
  let ?d = "(tm_data ?tm)\<lparr>td_pending := fmupd cid \<lparr>pc_client_id = cid, pc_hostname = h,
    pc_device_name = n, pc_transport = t, pc_first_seen = te_now env\<rparr> (td_pending (tm_data ?tm))\<rparr>"
  have eq: "register_pending env cid h n t tm = snd (save env ?d (?tm\<lparr>tm_data := ?d\<rparr>))"
    using False by (simp add: register_pending_def register_commit_def Let_def)
  have "td_approved ?d = td_approved (effective_data (te_from_json env) tm)"
    by (simp add: reload_effective)
  then show ?thesis
    using effective_save [OF assms, of ?d ?tm] unfolding tm_admits_def eq by auto
qed

interpretation tg: gate is_approved register_pending "tm_admits J" "gate_env_ok J" for J
proof unfold_locales
  show "fst (is_approved env cid tm) \<longleftrightarrow> tm_admits J tm cid" if "gate_env_ok J env" for env cid tm
    using that by (auto simp: gate_env_ok_def is_approved_fst tm_admits_def reload_effective)
  show "tm_admits J (snd (is_approved env cid tm)) k \<longleftrightarrow> tm_admits J tm k"
    if "gate_env_ok J env" for env cid tm k
    using that by (auto simp: gate_env_ok_def is_approved_def tm_admits_def Let_def)
  show "tm_admits J (register_pending env cid h n t tm) k \<longleftrightarrow> tm_admits J tm k"
    if "gate_env_ok J env" for env cid h n t tm k
    using that register_admits [of env] by (auto simp: gate_env_ok_def)
qed

end
