(* ===== verification/Server.thy ===== *)
theory Server
  imports Session Transport
begin

text \<open>
  \<^verbatim>\<open>src/server.rs\<close>: the key file and \<^verbatim>\<open>bind\<close>, the UDP packet handler, the handler of one Iroh
  connection, and the tasks that \<^verbatim>\<open>run\<close> starts.

  A handler is one function of the server's state. The state holds the sessions, the UDP loop's
  address table and sent datagrams, each Iroh connection's phase and streams, and the
  authorization store as a \<^typ>\<open>trust_sys\<close> in which the daemon is process 0 and command line
  runs are the others. A panic (which only the \<^verbatim>\<open>uinput\<close> crate can cause here) ends the task it
  happens in: the UDP loop stops, an Iroh connection's task ends.
\<close>

section \<open>Configuration and the server key\<close>

record server_config =
  sc_bind_addr :: "socket_addr option"
  sc_secret_key :: "string option"
  sc_key_file :: "string option"
  sc_disable_udp :: bool
  sc_disable_iroh :: bool
  sc_trust_manager :: "trust_manager option"

definition any_addr :: socket_addr where
  "any_addr = SocketV4 (Ipv4 0 0 0 0) DEFAULT_PORT"

definition server_config_default :: server_config where
  "server_config_default = \<lparr>sc_bind_addr = Some any_addr, sc_secret_key = None, sc_key_file = None,
     sc_disable_udp = False, sc_disable_iroh = False, sc_trust_manager = None\<rparr>"

text \<open>What key handling calls: the \<^verbatim>\<open>hex\<close> crate, key generation, and the write of the key file,
  whose error text is printed.\<close>

record key_env =
  ke_hex_decode :: "string \<Rightarrow> bytes result"
  ke_hex_encode :: "bytes \<Rightarrow> string"
  ke_generate :: bytes
  ke_write_err :: "string \<Rightarrow> string option"

definition parse_secret_key_hex :: "key_env \<Rightarrow> string \<Rightarrow> bytes result" where
  "parse_secret_key_hex ke hex_str =
     and_then (with_context ''Invalid hex string for secret key'' (ke_hex_decode ke (trim hex_str)))
       (\<lambda>bs. if length bs \<noteq> 32
             then bail (''Secret key must be 32 bytes (64 hex characters), got ''
                        @ show_nat (length bs) @ '' bytes'')
             else Ok bs)"

definition etc_key_path :: string where
  "etc_key_path = ''/etc/joycast/server.key''"

definition config_key_path :: "string \<Rightarrow> string" where
  "config_key_path cfg = path_join (path_join cfg ''joycast'') ''server.key''"

definition key_candidates :: "process_env \<Rightarrow> string list" where
  "key_candidates pe =
     [etc_key_path] @
     (case pe_var pe ''SUDO_USER'' of
        Some u \<Rightarrow> (if u \<noteq> [] \<and> u \<noteq> ''root''
                   then [''/home/'' @ u @ ''/.config/joycast/server.key''] else [])
      | None \<Rightarrow> []) @
     (case pe_config_dir pe of Some cfg \<Rightarrow> [config_key_path cfg] | None \<Rightarrow> [])"

definition read_to_string :: "process_env \<Rightarrow> string \<Rightarrow> string result" where
  "read_to_string pe path =
     (case pe_file pe path of
        Text s \<Rightarrow> Ok s
      | Missing \<Rightarrow> Err (Fail [''No such file or directory (os error 2)''])
      | Unreadable \<Rightarrow> Err (Fail [''unreadable file'']))"

definition candidate_key :: "key_env \<Rightarrow> process_env \<Rightarrow> string \<Rightarrow> bytes option" where
  "candidate_key ke pe path =
     (if file_exists (pe_file pe path)
      then (case and_then (read_to_string pe path) (parse_secret_key_hex ke) of
              Inr key \<Rightarrow> Some key
            | Inl _ \<Rightarrow> None)
      else None)"

fun first_key :: "key_env \<Rightarrow> process_env \<Rightarrow> string list \<Rightarrow> bytes option" where
  "first_key ke pe [] = None"
| "first_key ke pe (path # paths) =
     (case candidate_key ke pe path of Some key \<Rightarrow> Some key | None \<Rightarrow> first_key ke pe paths)"

definition new_key_path :: "process_env \<Rightarrow> string" where
  "new_key_path pe =
     (if file_exists (pe_file pe etc_key_path) \<or> trust_is_root_context pe then etc_key_path
      else (case pe_config_dir pe of
              Some cfg \<Rightarrow> config_key_path cfg
            | None \<Rightarrow> ''/etc/joycast/server.key''))"

text \<open>The key, and the files after the call: a generated key is written to its path if the write
  succeeds; a failed write is only reported.\<close>

definition load_or_create_secret_key ::
  "key_env \<Rightarrow> process_env \<Rightarrow> server_config \<Rightarrow> bytes result \<times> process_env" where
  "load_or_create_secret_key ke pe config =
     (case sc_secret_key config of
        Some key_str \<Rightarrow> (parse_secret_key_hex ke key_str, pe)
      | None \<Rightarrow>
          (case sc_key_file config of
             Some path \<Rightarrow>
               (and_then (with_context (''Failed to read key file at '' @ path) (read_to_string pe path))
                  (parse_secret_key_hex ke), pe)
           | None \<Rightarrow>
               (case first_key ke pe (key_candidates pe) of
                  Some key \<Rightarrow> (Ok key, pe)
                | None \<Rightarrow>
                    let target_path = new_key_path pe;
                        key = ke_generate ke
                    in (case ke_write_err ke target_path of
                          Some e \<Rightarrow> (Ok key, pe)
                        | None \<Rightarrow> (Ok key, pe\<lparr>pe_file := (pe_file pe)
                                     (target_path := Text (ke_hex_encode ke key))\<rparr>)))))"

section \<open>State\<close>

datatype conn_phase = Accepting | Awaiting | Established string | Closed "unit result"

record iroh_conn =
  ic_phase :: conn_phase
  ic_recv :: bytes
  ic_send :: byte_writer
  ic_finished :: bool

record server_state =
  sv_trust :: trust_sys
  sv_sessions :: sessions
  sv_udp :: bool
  sv_clients :: "(socket_addr, string) fmap"
  sv_sent :: "(bytes \<times> socket_addr) list"
  sv_iroh :: bool
  sv_conns :: "nat \<Rightarrow> iroh_conn option"

definition daemon_query :: "server_env \<Rightarrow> string \<Rightarrow> server_state \<Rightarrow> bool \<times> server_state" where
  "daemon_query env cid st =
     (let (b, tm) = is_approved (sn_trust env) cid (manager_of 0 (sv_trust st))
      in (b, st\<lparr>sv_trust := put_manager 0 tm (sv_trust st)\<rparr>))"

definition daemon_register ::
  "server_env \<Rightarrow> handshake_payload \<Rightarrow> string \<Rightarrow> server_state \<Rightarrow> server_state" where
  "daemon_register env p transport st =
     st\<lparr>sv_trust := put_manager 0 (register_pending (sn_trust env) (hp_client_id p)
        (hp_client_hostname p) (dm_name (hp_metadata p)) transport (manager_of 0 (sv_trust st)))
        (sv_trust st)\<rparr>"

section \<open>Starting\<close>

record bind_env =
  be_udp :: "socket_addr \<Rightarrow> string option"
  be_iroh :: "string option"
  be_show_addr :: "socket_addr \<Rightarrow> string"
  be_key :: key_env

definition bind_udp :: "bind_env \<Rightarrow> server_config \<Rightarrow> bool result" where
  "bind_udp be config =
     (if \<not> sc_disable_udp config
      then let addr = (case sc_bind_addr config of Some a \<Rightarrow> a | None \<Rightarrow> any_addr)
           in with_context (''Failed to bind Direct UDP socket at '' @ be_show_addr be addr)
                (answer (be_udp be addr) True)
      else Ok False)"

definition bind_iroh :: "bind_env \<Rightarrow> process_env \<Rightarrow> server_config \<Rightarrow> bytes option result \<times> process_env" where
  "bind_iroh be pe config =
     (if \<not> sc_disable_iroh config
      then let (r, pe1) = load_or_create_secret_key (be_key be) pe config
           in (and_then r (\<lambda>key. with_context ''Failed to bind iroh endpoint''
                 (answer (be_iroh be) (Some key))), pe1)
      else (Ok None, pe))"

text \<open>\<^verbatim>\<open>bind\<close>: the server before it runs, with the endpoint's key, and the files it leaves.\<close>

definition bind_server ::
  "bind_env \<Rightarrow> trust_env \<Rightarrow> process_env \<Rightarrow> server_config \<Rightarrow> (server_state \<times> bytes option) result \<times> process_env" where
  "bind_server be te pe config =
     (let tm = (case sc_trust_manager config of Some tm \<Rightarrow> tm | None \<Rightarrow> trust_new te pe None)
      in case bind_udp be config of
           Inl e \<Rightarrow> (Err e, pe)
         | Inr udp \<Rightarrow>
             (case bind_iroh be pe config of
                (Inl e, pe1) \<Rightarrow> (Err e, pe1)
              | (Inr iroh, pe1) \<Rightarrow>
                  (Ok (\<lparr>sv_trust = \<lparr>ts_path = tm_path tm, ts_file = tm_file tm,
                                    ts_mem = (\<lambda>_. trust_default)(0 := tm_data tm)\<rparr>,
                        sv_sessions = fmempty, sv_udp = udp, sv_clients = fmempty, sv_sent = [],
                        sv_iroh = (iroh \<noteq> None), sv_conns = Map.empty\<rparr>, iroh), pe1)))"

text \<open>The two getters of a server that is bound; the public half of a key belongs to \<^verbatim>\<open>iroh\<close>.\<close>

definition iroh_node_id :: "(bytes \<Rightarrow> public_key) \<Rightarrow> server_state \<times> bytes option \<Rightarrow> public_key option" where
  "iroh_node_id public server = map_option public (snd server)"

definition server_trust_manager :: "server_state \<times> bytes option \<Rightarrow> trust_manager" where
  "server_trust_manager server = manager_of 0 (sv_trust (fst server))"

section \<open>Acknowledgements\<close>

definition ack :: "server_env \<Rightarrow> ack_status \<Rightarrow> string \<Rightarrow> message" where
  "ack env st msg = HandshakeAck st (sn_hostname env) msg"

definition pending_text :: "string \<Rightarrow> string" where
  "pending_text cid = ''Connection pending authorization on server. Run ''
     @ squote (''joycast server approve '' @ cid) @ '' to authorize.''"

definition failed_text :: "failure \<Rightarrow> string" where
  "failed_text e = ''Failed to create virtual device: '' @ display_failure e"

section \<open>Direct UDP\<close>

text \<open>\<^verbatim>\<open>if let Ok(bytes) = msg.encode() { let _ = socket.send_to(..) }\<close>: what is handed to the socket.\<close>

definition udp_send :: "server_env \<Rightarrow> message \<Rightarrow> socket_addr \<Rightarrow> server_state \<Rightarrow> server_state" where
  "udp_send env m dst st =
     (case message_encode (sn_codec env) m of
        Inl _ \<Rightarrow> st
      | Inr bs \<Rightarrow> st\<lparr>sv_sent := sv_sent st @ [(bs, dst)]\<rparr>)"

definition udp_handshake ::
  "server_env \<Rightarrow> socket_addr \<Rightarrow> handshake_payload \<Rightarrow> server_state \<Rightarrow> server_state" where
  "udp_handshake env src p st0 =
     (let st1 = st0\<lparr>sv_clients := fmdrop src (sv_clients st0)\<rparr>;
          (granted, st2) = daemon_query env (hp_client_id p) st1
      in if granted
         then (let (r, ss) = open_session env p (sv_sessions st2);
                   st3 = st2\<lparr>sv_sessions := ss\<rparr>
               in case r of
                    CreateFailed (Panic m) \<Rightarrow> st3\<lparr>sv_udp := False\<rparr>
                  | CreateFailed (Fail es) \<Rightarrow>
                      udp_send env (ack env Rejected (failed_text (Fail es))) src st3
                  | _ \<Rightarrow>
                      udp_send env (ack env Approved ''Connection authorized'') src
                        (st3\<lparr>sv_clients := fmupd src (session_key p) (sv_clients st3)\<rparr>))
         else udp_send env (ack env PendingApproval (pending_text (hp_client_id p))) src
                (daemon_register env p ''Direct UDP'' st2))"

definition udp_events ::
  "server_env \<Rightarrow> socket_addr \<Rightarrow> event_wire list \<Rightarrow> server_state \<Rightarrow> server_state" where
  "udp_events env src events st =
     (case fmlookup (sv_clients st) src of
        None \<Rightarrow> st
      | Some key \<Rightarrow>
          (case session_events env key events (sv_sessions st) of
             None \<Rightarrow> st
           | Some ss \<Rightarrow> st\<lparr>sv_sessions := ss\<rparr>))"

definition udp_ping :: "server_env \<Rightarrow> socket_addr \<Rightarrow> server_state \<Rightarrow> server_state" where
  "udp_ping env src st =
     udp_send env Pong src
       (case fmlookup (sv_clients st) src of
          None \<Rightarrow> st
        | Some key \<Rightarrow>
            (case session_ping env key (sv_sessions st) of
               None \<Rightarrow> st
             | Some ss \<Rightarrow> st\<lparr>sv_sessions := ss\<rparr>))"

text \<open>One turn of the loop of \<^verbatim>\<open>run_udp_server\<close> after a datagram arrived.\<close>

definition udp_datagram :: "server_env \<Rightarrow> socket_addr \<Rightarrow> bytes \<Rightarrow> server_state \<Rightarrow> server_state" where
  "udp_datagram env src payload st =
     (if \<not> sv_udp st then st
      else case message_decode (sn_codec env) payload of
             Inl e \<Rightarrow> st
           | Inr (Handshake p) \<Rightarrow> udp_handshake env src p st
           | Inr (Events events) \<Rightarrow> udp_events env src events st
           | Inr Ping \<Rightarrow> udp_ping env src st
           | Inr _ \<Rightarrow> st)"

section \<open>Iroh connections\<close>

text \<open>\<^verbatim>\<open>incoming.accept()\<close> and the transport handshake; either failure ends the task.\<close>

definition iroh_incoming :: "bool \<Rightarrow> bool \<Rightarrow> iroh_conn option" where
  "iroh_incoming accept_ok handshake_ok =
     (if \<not> accept_ok then None
      else if \<not> handshake_ok then None
      else Some \<lparr>ic_phase = Accepting, ic_recv = [],
                 ic_send = \<lparr>bw_out = [], bw_room = 0, bw_flush = False\<rparr>, ic_finished = False\<rparr>)"

text \<open>\<^verbatim>\<open>conn.accept_bi().await\<close> gives the two halves of the stream.\<close>

definition iroh_accept_bi :: "(byte_writer \<times> bytes) result \<Rightarrow> iroh_conn \<Rightarrow> iroh_conn" where
  "iroh_accept_bi r conn =
     (case with_context ''Failed to accept bi-directional stream'' r of
        Inl e \<Rightarrow> conn\<lparr>ic_phase := Closed (Err e)\<rparr>
      | Inr (send, recv) \<Rightarrow> conn\<lparr>ic_phase := Awaiting, ic_send := send, ic_recv := recv\<rparr>)"

text \<open>\<^verbatim>\<open>write_frame(..).await?\<close>: on success the connection goes on in the given phase.\<close>

definition iroh_write :: "server_env \<Rightarrow> message \<Rightarrow> conn_phase \<Rightarrow> iroh_conn \<Rightarrow> iroh_conn" where
  "iroh_write env m next_phase conn =
     (case write_frame (sn_codec env) m (ic_send conn) of
        (Inl e, w) \<Rightarrow> conn\<lparr>ic_send := w, ic_phase := Closed (Err e)\<rparr>
      | (Inr _, w) \<Rightarrow> conn\<lparr>ic_send := w, ic_phase := next_phase\<rparr>)"

definition iroh_finish :: "iroh_conn \<Rightarrow> iroh_conn" where
  "iroh_finish conn = conn\<lparr>ic_finished := True\<rparr>"

text \<open>The handshake of \<^verbatim>\<open>handle_iroh_client\<close>, from the received payload to the main loop. A failed
  write of the pending notice returns before \<^verbatim>\<open>finish\<close>.\<close>

definition iroh_handshake ::
  "server_env \<Rightarrow> handshake_payload \<Rightarrow> iroh_conn \<times> server_state \<Rightarrow> iroh_conn \<times> server_state" where
  "iroh_handshake env p cs =
     (let (conn, st0) = cs;
          (granted, st1) = daemon_query env (hp_client_id p) st0
      in if \<not> granted
         then (let st2 = daemon_register env p ''Iroh P2P'' st1;
                   conn1 = iroh_write env (ack env PendingApproval (pending_text (hp_client_id p)))
                             (Closed (Ok ())) conn
               in (if ic_phase conn1 = Closed (Ok ()) then iroh_finish conn1 else conn1, st2))
         else (let (r, ss) = open_session env p (sv_sessions st1);
                   st2 = st1\<lparr>sv_sessions := ss\<rparr>
               in case r of
                    Reused \<Rightarrow>
                      (iroh_write env (ack env Approved
                         ''Connection authorized (reused existing virtual device)'')
                         (Established (session_key p)) conn, st2)
                  | Created \<Rightarrow>
                      (iroh_write env (ack env Approved ''Connection authorized'')
                         (Established (session_key p)) conn, st2)
                  | CreateFailed (Panic m) \<Rightarrow> (conn\<lparr>ic_phase := Closed (Err (Panic m))\<rparr>, st2)
                  | CreateFailed (Fail es) \<Rightarrow>
                      (iroh_finish ((iroh_write env (ack env Rejected (failed_text (Fail es)))
                          (Closed (Ok ())) conn)\<lparr>ic_phase := Closed (Err (Fail es))\<rparr>), st2)))"

text \<open>The first loop of \<^verbatim>\<open>handle_iroh_client\<close>, which waits for the handshake.\<close>

definition iroh_await ::
  "server_env \<Rightarrow> message \<Rightarrow> iroh_conn \<times> server_state \<Rightarrow> iroh_conn \<times> server_state" where
  "iroh_await env m cs =
     (let (conn, st) = cs in
      case m of
        Handshake p \<Rightarrow> iroh_handshake env p (conn, st)
      | Ping \<Rightarrow> (iroh_write env Pong Awaiting conn, st)
      | other \<Rightarrow> (conn\<lparr>ic_phase := Closed (bail (''Expected Handshake message, got: ''
                     @ sn_debug env other))\<rparr>, st))"

text \<open>The main loop's body for an established connection.\<close>

definition iroh_established ::
  "server_env \<Rightarrow> string \<Rightarrow> message \<Rightarrow> iroh_conn \<times> server_state \<Rightarrow> iroh_conn \<times> server_state" where
  "iroh_established env key m cs =
     (let (conn, st) = cs in
      case m of
        Events events \<Rightarrow>
          (case session_events env key events (sv_sessions st) of
             None \<Rightarrow> (conn\<lparr>ic_phase := Closed (Ok ())\<rparr>, st)
           | Some ss \<Rightarrow> (conn, st\<lparr>sv_sessions := ss\<rparr>))
      | Ping \<Rightarrow>
          (case session_ping env key (sv_sessions st) of
             None \<Rightarrow> (conn\<lparr>ic_phase := Closed (Ok ())\<rparr>, st)
           | Some ss \<Rightarrow> (iroh_write env Pong (Established key) conn, st\<lparr>sv_sessions := ss\<rparr>))
      | _ \<Rightarrow> (conn, st))"

text \<open>One \<^verbatim>\<open>read_frame\<close> of either loop and what follows it.\<close>

definition iroh_read :: "server_env \<Rightarrow> iroh_conn \<times> server_state \<Rightarrow> iroh_conn \<times> server_state" where
  "iroh_read env cs =
     (let (conn, st) = cs in
      case ic_phase conn of
        Awaiting \<Rightarrow>
          (case read_frame (sn_codec env) (ic_recv conn) of
             Inl e \<Rightarrow> (conn\<lparr>ic_phase := Closed (Err e)\<rparr>, st)
           | Inr (m, rest) \<Rightarrow> iroh_await env m (conn\<lparr>ic_recv := rest\<rparr>, st))
      | Established key \<Rightarrow>
          (case read_frame (sn_codec env) (ic_recv conn) of
             Inl e \<Rightarrow> (conn\<lparr>ic_phase := Closed (Ok ())\<rparr>, st)
           | Inr (m, rest) \<Rightarrow> iroh_established env key m (conn\<lparr>ic_recv := rest\<rparr>, st))
      | _ \<Rightarrow> (conn, st))"

text \<open>\<^verbatim>\<open>handle_iroh_client\<close> once the stream is open: reads until the connection closes. The
  environment of the \<open>n\<close>-th read is \<open>envs n\<close>; every read takes bytes or closes.\<close>

function iroh_serve ::
  "(nat \<Rightarrow> server_env) \<Rightarrow> nat \<Rightarrow> iroh_conn \<times> server_state \<Rightarrow> iroh_conn \<times> server_state" where
  "iroh_serve envs n cs =
     (let cs1 = iroh_read (envs n) cs
      in if length (ic_recv (fst cs1)) < length (ic_recv (fst cs)) then iroh_serve envs (Suc n) cs1
         else cs1)"
  by pat_completeness auto
termination
  by (relation "measure (\<lambda>(envs, n, cs). length (ic_recv (fst cs)))") auto

declare iroh_serve.simps [simp del]

section \<open>The running server\<close>

datatype server_input =
    UdpDatagram socket_addr bytes
  | UdpRecvError
  | IrohIncoming nat bool bool
  | IrohEndpointClosed
  | IrohBi nat "(byte_writer \<times> bytes) result"
  | IrohRead nat
  | Reap
  | Cli nat trust_op

text \<open>
  The tasks of \<^verbatim>\<open>run\<close>: the two listeners (each only if bound), one task per Iroh connection, the
  reaper; and the administrator's commands, which are other processes. A connection number is
  used once.
\<close>

fun server_step :: "server_state \<Rightarrow> server_env \<times> server_input \<Rightarrow> server_state" where
  "server_step st (env, UdpDatagram src payload) = udp_datagram env src payload st"
| "server_step st (env, UdpRecvError) = st"
| "server_step st (env, IrohIncoming i a h) =
     (if sv_iroh st \<and> sv_conns st i = None
      then st\<lparr>sv_conns := (sv_conns st)(i := iroh_incoming a h)\<rparr> else st)"
| "server_step st (env, IrohEndpointClosed) = st\<lparr>sv_iroh := False\<rparr>"
| "server_step st (env, IrohBi i r) =
     (case sv_conns st i of
        Some conn \<Rightarrow> (if ic_phase conn = Accepting
                      then st\<lparr>sv_conns := (sv_conns st)(i \<mapsto> iroh_accept_bi r conn)\<rparr> else st)
      | None \<Rightarrow> st)"
| "server_step st (env, IrohRead i) =
     (case sv_conns st i of
        Some conn \<Rightarrow> (let (conn1, st1) = iroh_read env (conn, st)
                      in st1\<lparr>sv_conns := (sv_conns st1)(i \<mapsto> conn1)\<rparr>)
      | None \<Rightarrow> st)"
| "server_step st (env, Reap) = st\<lparr>sv_sessions := reap (sn_now env) (sv_sessions st)\<rparr>"
| "server_step st (env, Cli j c) =
     st\<lparr>sv_trust := trust_sys_step (sv_trust st) (Suc j, sn_trust env, c)\<rparr>"

definition server_run :: "server_state \<Rightarrow> (server_env \<times> server_input) list \<Rightarrow> server_state" where
  "server_run st es = foldl server_step st es"

end
