(* ===== verification/ServerSystem.thy ===== *)
theory ServerSystem
  imports Server
begin

text \<open>
  Facts about single steps of the running server, and what they say of runs: how a step may
  change the sessions, the bindings of peers to sessions, the devices' logs and the
  authorization store. Each becomes an instance of the \<open>traced_step\<close> locale.
\<close>

section \<open>What a step delivers\<close>

datatype peer = UdpPeer socket_addr | IrohPeer nat

text \<open>The message that a step hands to a handler, with its sender.\<close>

fun delivered :: "server_state \<Rightarrow> server_env \<Rightarrow> server_input \<Rightarrow> (peer \<times> message) option" where
  "delivered st env (UdpDatagram src payload) =
     (if sv_udp st
      then (case message_decode (sn_codec env) payload of Inl e \<Rightarrow> None | Inr m \<Rightarrow> Some (UdpPeer src, m))
      else None)"
| "delivered st env (IrohRead i) =
     (case sv_conns st i of
        None \<Rightarrow> None
      | Some conn \<Rightarrow>
          if ic_phase conn = Awaiting \<or> (\<exists>key. ic_phase conn = Established key)
          then (case read_frame (sn_codec env) (ic_recv conn) of
                  Inl e \<Rightarrow> None | Inr (m, rest) \<Rightarrow> Some (IrohPeer i, m))
          else None)"
| "delivered st env _ = None"

fun bound :: "server_state \<Rightarrow> peer \<Rightarrow> string option" where
  "bound st (UdpPeer a) = fmlookup (sv_clients st) a"
| "bound st (IrohPeer i) =
     (case sv_conns st i of
        Some conn \<Rightarrow> (case ic_phase conn of Established key \<Rightarrow> Some key | _ \<Rightarrow> None)
      | None \<Rightarrow> None)"

definition admitted :: "(string \<Rightarrow> trust_data option) \<Rightarrow> server_state \<Rightarrow> string \<Rightarrow> bool" where
  "admitted J st cid = tm_admits J (manager_of 0 (sv_trust st)) cid"

definition env_ok :: "(string \<Rightarrow> trust_data option) \<Rightarrow> server_env \<times> server_input \<Rightarrow> bool" where
  "env_ok J e = gate_env_ok J (sn_trust (fst e))"

section \<open>The parts a handler leaves alone\<close>

lemma udp_send_frame [simp]:
  "sv_trust (udp_send env m d st) = sv_trust st" "sv_sessions (udp_send env m d st) = sv_sessions st"
  "sv_udp (udp_send env m d st) = sv_udp st" "sv_clients (udp_send env m d st) = sv_clients st"
  "sv_iroh (udp_send env m d st) = sv_iroh st" "sv_conns (udp_send env m d st) = sv_conns st"
  by (simp_all add: udp_send_def split: sum.splits)

lemma daemon_query_eq:
  "daemon_query env cid st = (fst (is_approved (sn_trust env) cid (manager_of 0 (sv_trust st))),
     st\<lparr>sv_trust := trust_sys_step (sv_trust st) (0, sn_trust env, Query cid)\<rparr>)"
  by (simp add: daemon_query_def split: prod.splits)

lemma daemon_query_frame [simp]:
  "sv_sessions (snd (daemon_query env cid st)) = sv_sessions st"
  "sv_udp (snd (daemon_query env cid st)) = sv_udp st"
  "sv_clients (snd (daemon_query env cid st)) = sv_clients st"
  "sv_sent (snd (daemon_query env cid st)) = sv_sent st"
  "sv_conns (snd (daemon_query env cid st)) = sv_conns st"
  by (simp_all add: daemon_query_eq)

lemma daemon_query_admits:
  "env_ok J (env, inp) \<Longrightarrow> fst (daemon_query env cid st) \<longleftrightarrow> admitted J st cid"
  using tg.query_answer [of J "sn_trust env"] by (simp add: daemon_query_eq env_ok_def admitted_def)

lemma daemon_register_eq:
  "daemon_register env p t st = st\<lparr>sv_trust := trust_sys_step (sv_trust st) (0, sn_trust env,
     Register (hp_client_id p) (hp_client_hostname p) (dm_name (hp_metadata p)) t)\<rparr>"
  by (simp add: daemon_register_def)

lemma iroh_write_recv [simp]:
  "ic_recv (iroh_write env m ph conn) = ic_recv conn" "ic_finished (iroh_write env m ph conn) = ic_finished conn"
  by (simp_all add: iroh_write_def split: prod.splits sum.splits)

lemma iroh_write_phase:
  "ic_phase (iroh_write env m ph conn) = ph \<or> (\<exists>e. ic_phase (iroh_write env m ph conn) = Closed (Inl e))"
  by (simp add: iroh_write_def split: prod.splits sum.splits)

lemma iroh_write_Established:
  "ic_phase (iroh_write env m ph conn) = Established key \<Longrightarrow> ph = Established key"
  using iroh_write_phase [of env m ph conn] by auto

section \<open>Sessions\<close>

text \<open>The ways in which one message changes the sessions.\<close>

inductive session_move :: "server_env \<Rightarrow> message \<Rightarrow> string option \<Rightarrow> sessions \<Rightarrow> sessions \<Rightarrow> bool"
  for env where
  idle: "session_move env m b ss ss"
| opened: "session_move env (Handshake p) b ss (snd (open_session env p ss))"
| events: "session_events env key evs ss = Some ss' \<Longrightarrow> session_move env (Events evs) (Some key) ss ss'"
| ping: "session_ping env key ss = Some ss' \<Longrightarrow> session_move env Ping (Some key) ss ss'"

inductive_cases session_move_cases: "session_move env m b ss ss'"

lemma udp_handshake_parts:
  assumes "env_ok J (env, inp)"
  shows "sv_sessions (udp_handshake env src p st) =
      (if admitted J st (hp_client_id p) then snd (open_session env p (sv_sessions st)) else sv_sessions st)"
    and "fmlookup (sv_clients (udp_handshake env src p st)) a =
      (if a \<noteq> src then fmlookup (sv_clients st) a
       else if admitted J st (hp_client_id p) \<and> fst (open_session env p (sv_sessions st)) \<in> {Reused, Created}
       then Some (session_key p) else None)"
    and "sv_conns (udp_handshake env src p st) = sv_conns st"
  using daemon_query_admits [OF assms, of "hp_client_id p" "st\<lparr>sv_clients := fmdrop src (sv_clients st)\<rparr>"]
  by (auto simp: udp_handshake_def Let_def daemon_register_eq daemon_query_eq admitted_def
      split: prod.splits session_outcome.splits failure.splits)

lemma iroh_handshake_parts:
  assumes "env_ok J (env, inp)"
  shows "sv_sessions (snd (iroh_handshake env p (conn, st))) =
      (if admitted J st (hp_client_id p) then snd (open_session env p (sv_sessions st)) else sv_sessions st)"
    and "ic_phase (fst (iroh_handshake env p (conn, st))) = Established key \<Longrightarrow>
      admitted J st (hp_client_id p) \<and> key = session_key p \<and>
      fst (open_session env p (sv_sessions st)) \<in> {Reused, Created}"
    and "sv_clients (snd (iroh_handshake env p (conn, st))) = sv_clients st"
    and "sv_conns (snd (iroh_handshake env p (conn, st))) = sv_conns st"
    and "ic_recv (fst (iroh_handshake env p (conn, st))) = ic_recv conn"
  using daemon_query_admits [OF assms, of "hp_client_id p" st]
  by (auto simp: iroh_handshake_def Let_def daemon_register_eq daemon_query_eq admitted_def iroh_finish_def
      split: prod.splits session_outcome.splits failure.splits if_splits dest!: iroh_write_Established)

lemma iroh_established_parts:
  "session_move env m (Some key) (sv_sessions st) (sv_sessions (snd (iroh_established env key m (conn, st))))"
  "sv_clients (snd (iroh_established env key m (conn, st))) = sv_clients st"
  "sv_trust (snd (iroh_established env key m (conn, st))) = sv_trust st"
  "sv_conns (snd (iroh_established env key m (conn, st))) = sv_conns st"
  "ic_phase conn = Established key \<Longrightarrow>
   ic_phase (fst (iroh_established env key m (conn, st))) = Established key' \<Longrightarrow> key' = key"
  "ic_recv (fst (iroh_established env key m (conn, st))) = ic_recv conn"
  by (auto simp: iroh_established_def Let_def intro: session_move.intros
      dest!: iroh_write_Established split: message.splits option.splits)

lemma iroh_await_parts:
  "m \<noteq> Handshake p \<Longrightarrow> (\<And>q. m \<noteq> Handshake q) \<Longrightarrow> snd (iroh_await env m (conn, st)) = st"
  "(\<And>q. m \<noteq> Handshake q) \<Longrightarrow> ic_phase (fst (iroh_await env m (conn, st))) \<noteq> Established key"
  by (auto simp: iroh_await_def Let_def split: message.splits dest!: iroh_write_Established)

text \<open>Iroh: what one read does to the sessions and the phase.\<close>

lemma iroh_read_frame_parts:
  assumes "env_ok J (env, inp)"
  shows "sv_clients (snd (iroh_read env (conn, st))) = sv_clients st \<and>
    sv_conns (snd (iroh_read env (conn, st))) = sv_conns st"
  by (cases "ic_phase conn")
    (auto simp: iroh_read_def iroh_established_parts iroh_await_def Let_def
      iroh_handshake_parts [OF assms] split: sum.splits message.splits)

lemma iroh_read_sessions:
  assumes "env_ok J (env, IrohRead i)" and "sv_conns st i = Some conn"
  shows "sv_sessions (snd (iroh_read env (conn, st))) = sv_sessions st \<or>
    (\<exists>m. delivered st env (IrohRead i) = Some (IrohPeer i, m) \<and>
       (\<forall>p. m = Handshake p \<longrightarrow> admitted J st (hp_client_id p)) \<and>
       session_move env m (bound st (IrohPeer i)) (sv_sessions st) (sv_sessions (snd (iroh_read env (conn, st)))))"
proof (cases "ic_phase conn")
  case Awaiting
  then show ?thesis
    using assms(2)
    by (auto simp: iroh_read_def iroh_await_def Let_def iroh_handshake_parts [OF assms(1)]
        split: sum.splits message.splits intro: session_move.intros)
next
  case (Established key)
  have eq: "iroh_read env (conn, st) =
     (case read_frame (sn_codec env) (ic_recv conn) of
        Inl e \<Rightarrow> (conn\<lparr>ic_phase := Closed (Ok ())\<rparr>, st)
      | Inr (m, rest) \<Rightarrow> iroh_established env key m (conn\<lparr>ic_recv := rest\<rparr>, st))"
    using Established by (simp add: iroh_read_def)
  show ?thesis
  proof (cases "read_frame (sn_codec env) (ic_recv conn)")
    case (Inr mr)
    obtain m rest where mr: "mr = (m, rest)" by (cases mr)
    have d: "delivered st env (IrohRead i) = Some (IrohPeer i, m)"
      and b: "bound st (IrohPeer i) = Some key"
      using assms(2) Established Inr mr by auto
    show ?thesis
    proof (cases "\<exists>p. m = Handshake p")
      case True
      then show ?thesis unfolding eq using Inr mr by (auto simp: iroh_established_def)
    next
      case False
      then have "\<forall>p. m = Handshake p \<longrightarrow> admitted J st (hp_client_id p)" by blast
      moreover have "session_move env m (Some key) (sv_sessions st) (sv_sessions (snd (iroh_read env (conn, st))))"
        unfolding eq using Inr mr by (simp add: iroh_established_parts(1))
      ultimately show ?thesis using d b by metis
    qed
  qed (simp add: eq)
qed (simp_all add: iroh_read_def)

text \<open>The sessions after one step: reaped, or moved by the delivered message, whose handshake is
  admitted.\<close>

lemma step_sessions:
  assumes "env_ok J (env, inp)"
  shows "sv_sessions (server_step st (env, inp)) = sv_sessions st \<or>
    (inp = Reap \<and> sv_sessions (server_step st (env, inp)) = reap (sn_now env) (sv_sessions st)) \<or>
    (\<exists>who m. delivered st env inp = Some (who, m) \<and>
       (\<forall>p. m = Handshake p \<longrightarrow> admitted J st (hp_client_id p)) \<and>
       session_move env m (bound st who) (sv_sessions st) (sv_sessions (server_step st (env, inp))))"
proof (cases inp)
  case (UdpDatagram src payload)
  then show ?thesis
    by (auto simp: udp_datagram_def udp_events_def udp_ping_def udp_handshake_parts [OF assms]
        split: sum.splits message.splits option.splits intro: session_move.intros)
next
  case (IrohRead i)
  show ?thesis
  proof (cases "sv_conns st i")
    case (Some conn)
    have "sv_sessions (server_step st (env, inp)) = sv_sessions (snd (iroh_read env (conn, st)))"
      using IrohRead Some by (simp add: Let_def split: prod.splits)
    then show ?thesis using iroh_read_sessions [of J env i st conn] assms IrohRead Some by metis
  qed (simp add: IrohRead)
qed (auto split: option.splits)

section \<open>Causes\<close>

text \<open>A session exists.\<close>

definition has_session :: "server_state \<Rightarrow> string \<Rightarrow> bool" where
  "has_session st key \<longleftrightarrow> fmlookup (sv_sessions st) key \<noteq> None"

definition opens :: "(string \<Rightarrow> trust_data option) \<Rightarrow> server_state \<Rightarrow> server_env \<times> server_input \<Rightarrow> string \<Rightarrow> bool" where
  "opens J st e key \<longleftrightarrow> (\<exists>who p. delivered st (fst e) (snd e) = Some (who, Handshake p) \<and>
     session_key p = key \<and> admitted J st (hp_client_id p))"

text \<open>A session's device has received a batch.\<close>

definition has_batch :: "server_state \<Rightarrow> string \<times> input_event list \<Rightarrow> bool" where
  "has_batch st kb \<longleftrightarrow> (\<exists>s. fmlookup (sv_sessions st) (fst kb) = Some s \<and> snd kb \<in> set (vo_log (se_vdev s)))"

definition sends_batch :: "server_state \<Rightarrow> server_env \<times> server_input \<Rightarrow> string \<times> input_event list \<Rightarrow> bool" where
  "sends_batch st e kb \<longleftrightarrow> (\<exists>who evs. delivered st (fst e) (snd e) = Some (who, Events evs) \<and>
     bound st who = Some (fst kb) \<and> snd kb = map to_input_event evs)"

text \<open>A peer is bound to a session key.\<close>

definition is_bound :: "server_state \<Rightarrow> peer \<times> string \<Rightarrow> bool" where
  "is_bound st wk \<longleftrightarrow> bound st (fst wk) = Some (snd wk)"

definition binds :: "(string \<Rightarrow> trust_data option) \<Rightarrow> server_state \<Rightarrow> server_env \<times> server_input \<Rightarrow> peer \<times> string \<Rightarrow> bool" where
  "binds J st e wk \<longleftrightarrow> (\<exists>p. delivered st (fst e) (snd e) = Some (fst wk, Handshake p) \<and>
     session_key p = snd wk \<and> admitted J st (hp_client_id p))"

lemma session_move_dom:
  "session_move env m b ss ss' \<Longrightarrow> fmlookup ss' key \<noteq> None \<Longrightarrow>
   fmlookup ss key \<noteq> None \<or> (\<exists>p. m = Handshake p \<and> key = session_key p)"
  by (induction rule: session_move.induct)
    (auto simp: session_events_lookup session_ping_lookup dest: open_session_dom split: if_splits)

lemma emit_log:
  "b \<in> set (vo_log (fst (emit u evs vo))) \<Longrightarrow> b \<in> set (vo_log vo) \<or> b = map to_input_event evs"
  by (auto simp: emit_cases split: if_splits option.splits)

lemma session_move_log:
  "session_move env m b ss ss' \<Longrightarrow> fmlookup ss' key = Some s \<Longrightarrow> batch \<in> set (vo_log (se_vdev s)) \<Longrightarrow>
   (\<exists>s0. fmlookup ss key = Some s0 \<and> batch \<in> set (vo_log (se_vdev s0))) \<or>
   (\<exists>evs. m = Events evs \<and> b = Some key \<and> batch = map to_input_event evs)"
  by (induction rule: session_move.induct)
    (auto simp: session_events_lookup session_ping_lookup dest!: open_session_log emit_log split: if_splits)

lemma step_opens:
  assumes "env_ok J e" and "has_session (server_step st e) key"
  shows "has_session st key \<or> opens J st e key"
proof -
  obtain env inp where e: "e = (env, inp)" by (cases e)
  have s: "fmlookup (sv_sessions (server_step st (env, inp))) key \<noteq> None"
    using assms(2) by (simp add: has_session_def e)
  from step_sessions [OF assms(1) [unfolded e], of st]
  consider "sv_sessions (server_step st (env, inp)) = sv_sessions st"
    | "sv_sessions (server_step st (env, inp)) = reap (sn_now env) (sv_sessions st)"
    | who m where "delivered st env inp = Some (who, m)"
      "\<forall>p. m = Handshake p \<longrightarrow> admitted J st (hp_client_id p)"
      "session_move env m (bound st who) (sv_sessions st) (sv_sessions (server_step st (env, inp)))"
    by blast
  then show ?thesis
  proof cases
    case 2
    with s show ?thesis by (auto simp: has_session_def fmlookup_reap split: option.splits if_splits)
  next
    case 3
    from session_move_dom [OF 3(3) s] 3(1,2) show ?thesis
      by (auto simp: has_session_def opens_def e)
  qed (use s in \<open>simp add: has_session_def\<close>)
qed

lemma step_sends:
  assumes "env_ok J e" and "has_batch (server_step st e) kb"
  shows "has_batch st kb \<or> sends_batch st e kb"
proof -
  obtain env inp where e: "e = (env, inp)" by (cases e)
  obtain s where s: "fmlookup (sv_sessions (server_step st (env, inp))) (fst kb) = Some s"
    and b: "snd kb \<in> set (vo_log (se_vdev s))"
    using assms(2) by (auto simp: has_batch_def e)
  from step_sessions [OF assms(1) [unfolded e], of st]
  consider "sv_sessions (server_step st (env, inp)) = sv_sessions st"
    | "sv_sessions (server_step st (env, inp)) = reap (sn_now env) (sv_sessions st)"
    | who m where "delivered st env inp = Some (who, m)"
      "session_move env m (bound st who) (sv_sessions st) (sv_sessions (server_step st (env, inp)))"
    by blast
  then show ?thesis
  proof cases
    case 2
    with s b show ?thesis by (auto simp: has_batch_def fmlookup_reap split: option.splits if_splits)
  next
    case 3
    from session_move_log [OF 3(2) s b] 3(1) show ?thesis
      by (auto simp: has_batch_def sends_batch_def e)
  qed (use s b in \<open>auto simp: has_batch_def\<close>)
qed

lemma iroh_read_binds:
  assumes "env_ok J (env, IrohRead i)" and "sv_conns st i = Some conn"
    and "ic_phase (fst (iroh_read env (conn, st))) = Established key"
  shows "ic_phase conn = Established key \<or> binds J st (env, IrohRead i) (IrohPeer i, key)"
proof (cases "ic_phase conn")
  case Awaiting
  then show ?thesis
    using assms(2,3)
    by (auto simp: iroh_read_def iroh_await_def Let_def binds_def split: sum.splits message.splits
        dest!: iroh_write_Established iroh_handshake_parts(2) [OF assms(1)])
next
  case (Established key')
  then show ?thesis
    using assms(3) by (auto simp: iroh_read_def split: sum.splits dest!: iroh_established_parts(5) [rotated])
qed (use assms(3) in \<open>simp_all add: iroh_read_def\<close>)

lemma step_binds:
  assumes "env_ok J e" and "is_bound (server_step st e) wk"
  shows "is_bound st wk \<or> binds J st e wk"
proof -
  obtain env inp where e: "e = (env, inp)" by (cases e)
  obtain who key where wk: "wk = (who, key)" by (cases wk)
  have ok: "env_ok J (env, inp)" and b: "bound (server_step st (env, inp)) who = Some key"
    using assms by (simp_all add: e wk is_bound_def)
  show ?thesis
  proof (cases inp)
    case (UdpDatagram src payload)
    then show ?thesis
      using b
      by (cases who) (auto simp: e wk is_bound_def binds_def udp_datagram_def udp_events_def udp_ping_def
          udp_handshake_parts [OF ok] split: sum.splits message.splits option.splits if_splits)
  next
    case (IrohRead i)
    show ?thesis
    proof (cases "sv_conns st i")
      case (Some conn)
      have conns: "sv_conns (server_step st (env, inp)) = (sv_conns st)(i \<mapsto> fst (iroh_read env (conn, st)))"
        "sv_clients (server_step st (env, inp)) = sv_clients st"
        using IrohRead Some iroh_read_frame_parts [OF ok, of conn st] by (auto simp: Let_def split: prod.splits)
      show ?thesis
      proof (cases "who = IrohPeer i")
        case True
        with b conns have "ic_phase (fst (iroh_read env (conn, st))) = Established key"
          by (auto split: conn_phase.splits)
        from iroh_read_binds [OF ok [unfolded IrohRead] Some this] show ?thesis
          using True Some by (auto simp: e wk is_bound_def IrohRead)
      next
        case False
        with b conns show ?thesis by (cases who) (auto simp: e wk is_bound_def)
      qed
    qed (use b IrohRead in \<open>simp add: e wk is_bound_def\<close>)
  next
    case (IrohIncoming i a h)
    then show ?thesis
      using b by (cases who) (auto simp: e wk is_bound_def iroh_incoming_def split: option.splits if_splits conn_phase.splits)
  next
    case (IrohBi i r)
    then show ?thesis
      using b by (cases who) (auto simp: e wk is_bound_def iroh_accept_bi_def split: option.splits if_splits
          conn_phase.splits sum.splits)
  qed (use b in \<open>cases who; auto simp: e wk is_bound_def\<close>)+
qed

section \<open>The server's use of the authorization store\<close>

text \<open>The transport name under which a listener registers, and whether a handshake reaches the gate.\<close>

fun gate_transport :: "server_state \<Rightarrow> peer \<Rightarrow> string option" where
  "gate_transport st (UdpPeer a) = Some ''Direct UDP''"
| "gate_transport st (IrohPeer i) =
     (case sv_conns st i of
        Some conn \<Rightarrow> (if ic_phase conn = Awaiting then Some ''Iroh P2P'' else None)
      | None \<Rightarrow> None)"

definition knock_trace :: "server_state \<Rightarrow> server_env \<Rightarrow> handshake_payload \<Rightarrow> string \<Rightarrow> trust_input list" where
  "knock_trace st env p t =
     (0, sn_trust env, Query (hp_client_id p)) #
     (if fst (is_approved (sn_trust env) (hp_client_id p) (manager_of 0 (sv_trust st))) then []
      else [(0, sn_trust env, Register (hp_client_id p) (hp_client_hostname p) (dm_name (hp_metadata p)) t)])"

lemma manager_knock:
  "manager_of 0 (foldl trust_sys_step (sv_trust st) (knock_trace st env p t)) =
     tg.knock (sn_trust env) (hp_client_id p, hp_client_hostname p, dm_name (hp_metadata p), t)
       (manager_of 0 (sv_trust st))"
  by (auto simp: knock_trace_def tg.knock_def simp del: trust_sys_step.simps split: prod.splits)

lemma knock_trace_admits:
  "gate_env_ok J (sn_trust env) \<Longrightarrow>
   tm_admits J (manager_of 0 (foldl trust_sys_step (sv_trust st) (knock_trace st env p t))) k \<longleftrightarrow>
   admitted J st k"
  by (simp add: manager_knock tg.knock_admits admitted_def)

text \<open>The operations on the store that one step performs.\<close>

definition trust_trace :: "server_state \<Rightarrow> server_env \<times> server_input \<Rightarrow> trust_input list" where
  "trust_trace st e =
     (let (env, inp) = e in
      case inp of
        Cli j c \<Rightarrow> [(Suc j, sn_trust env, c)]
      | _ \<Rightarrow>
          (case delivered st env inp of
             Some (who, Handshake p) \<Rightarrow>
               (case gate_transport st who of Some t \<Rightarrow> knock_trace st env p t | None \<Rightarrow> [])
           | _ \<Rightarrow> []))"

lemma udp_handshake_trust:
  "sv_trust (udp_handshake env src p st) = foldl trust_sys_step (sv_trust st) (knock_trace st env p ''Direct UDP'')"
  by (auto simp: udp_handshake_def knock_trace_def Let_def daemon_query_eq daemon_register_eq
      split: prod.splits session_outcome.splits failure.splits)

lemma iroh_handshake_trust:
  "sv_trust (snd (iroh_handshake env p (conn, st))) = foldl trust_sys_step (sv_trust st) (knock_trace st env p ''Iroh P2P'')"
  by (auto simp: iroh_handshake_def knock_trace_def Let_def daemon_query_eq daemon_register_eq
      split: prod.splits session_outcome.splits failure.splits)

lemma iroh_read_trust:
  assumes "sv_conns st i = Some conn"
  shows "sv_trust (snd (iroh_read env (conn, st))) = foldl trust_sys_step (sv_trust st) (trust_trace st (env, IrohRead i))"
  using assms
  by (cases "ic_phase conn") (auto simp: iroh_read_def iroh_await_def trust_trace_def Let_def
      iroh_established_parts(3) iroh_handshake_trust split: sum.splits message.splits)

lemma step_trust:
  "sv_trust (server_step st e) = foldl trust_sys_step (sv_trust st) (trust_trace st e)"
proof -
  obtain env inp where e: "e = (env, inp)" by (cases e)
  show ?thesis
  proof (cases inp)
    case (UdpDatagram src payload)
    then show ?thesis
      by (auto simp: e udp_datagram_def udp_events_def udp_ping_def udp_handshake_trust trust_trace_def
          split: sum.splits message.splits option.splits)
  next
    case (IrohRead i)
    show ?thesis
    proof (cases "sv_conns st i")
      case (Some conn)
      then have "sv_trust (server_step st e) = sv_trust (snd (iroh_read env (conn, st)))"
        by (simp add: e IrohRead Let_def split: prod.splits)
      then show ?thesis using iroh_read_trust [of st i conn env] Some by (simp add: e IrohRead)
    qed (simp add: e IrohRead trust_trace_def)
  qed (auto simp: e trust_trace_def split: option.splits)
qed

lemma trust_trace_inputs:
  assumes "env_ok J e"
  shows "\<forall>t \<in> set (trust_trace st e). input_ok J t"
  using assms by (cases e) (auto simp: trust_trace_def knock_trace_def env_ok_def gate_env_ok_def
      split: server_input.splits option.splits message.splits prod.splits)

lemma trust_trace_approve:
  "(i, te, Approve t) \<in> set (trust_trace st e) \<Longrightarrow> trust_trace st e = [(i, te, Approve t)] \<and>
   (\<exists>env j. e = (env, Cli j (Approve t)) \<and> i = Suc j \<and> te = sn_trust env)"
  by (cases e) (auto simp: trust_trace_def knock_trace_def split: server_input.splits option.splits
      message.splits if_splits)

definition sv_trust_wf :: "(string \<Rightarrow> trust_data option) \<Rightarrow> server_state \<Rightarrow> bool" where
  "sv_trust_wf J st = trust_sys_wf J (sv_trust st)"

definition known :: "(string \<Rightarrow> trust_data option) \<Rightarrow> server_state \<Rightarrow> string \<Rightarrow> bool" where
  "known J st k = approved_somewhere J (sv_trust st) k"

text \<open>The cause of a client being known: an administrator's \<open>approve\<close> that names it.\<close>

definition grants :: "server_state \<Rightarrow> server_env \<times> server_input \<Rightarrow> string \<Rightarrow> bool" where
  "grants st e k \<longleftrightarrow> (\<exists>env j t. e = (env, Cli j (Approve t)) \<and> starts_with k t)"

lemma admitted_known: "admitted J st k \<Longrightarrow> known J st k"
  by (auto simp: admitted_def tm_admits_def effective_data_def known_def approved_somewhere_def
      split: option.splits)

lemma step_wf: "sv_trust_wf J st \<Longrightarrow> env_ok J e \<Longrightarrow> sv_trust_wf J (server_step st e)"
  unfolding sv_trust_wf_def step_trust by (rule ts.run_inv) (auto dest: trust_trace_inputs)

lemma step_grants:
  assumes "sv_trust_wf J st" and "env_ok J e" and "known J (server_step st e) k"
  shows "known J st k \<or> grants st e k"
proof (cases "known J st k")
  case False
  have "\<exists>us u vs. trust_trace st e = us @ u # vs \<and> approve_cause (foldl trust_sys_step (sv_trust st) us) u k"
    by (rule ts.run_cause [of J]) (use assms False trust_trace_inputs in
        \<open>auto simp: sv_trust_wf_def known_def step_trust\<close>)
  then obtain us u vs where tr: "trust_trace st e = us @ u # vs"
    and c: "approve_cause (foldl trust_sys_step (sv_trust st) us) u k" by blast
  obtain i te op where u: "u = (i, te, op)" by (cases u)
  from c obtain t where t: "op = Approve t" "starts_with k t" by (auto simp: u)
  have "(i, te, Approve t) \<in> set (trust_trace st e)" by (simp add: tr u t)
  from trust_trace_approve [OF this] t(2) show ?thesis by (auto simp: grants_def)
qed simp

section \<open>Instances\<close>

text \<open>One instance per kind of fact; the invariant of all of them is that of the store.\<close>

interpretation sv_session: traced_step server_step "env_ok J" "sv_trust_wf J" has_session "opens J" for J
  by unfold_locales (auto intro: step_wf dest: step_opens)

interpretation sv_batch: traced_step server_step "env_ok J" "sv_trust_wf J" has_batch sends_batch for J
  by unfold_locales (auto dest: step_sends)

interpretation sv_binding: traced_step server_step "env_ok J" "sv_trust_wf J" is_bound "binds J" for J
  by unfold_locales (auto dest: step_binds)

interpretation sv_known: traced_step server_step "env_ok J" "sv_trust_wf J" "known J" grants for J
  by unfold_locales (auto dest: step_grants)

end
