(* ===== verification/ServerProps.thy ===== *)
theory ServerProps
  imports ServerSystem
begin

text \<open>
  The properties of the running server, each followed by an application to a small concrete
  server: one client ''c1'' with one gamepad, the store of \<open>TrustProps\<close>, and a codec with the
  few messages of the example.
\<close>

section \<open>A concrete server\<close>

definition demo_meta :: device_metadata where
  "demo_meta = \<lparr>dm_name = ''Pad'', dm_bustype = 3, dm_vendor = 1118, dm_product = 736,
     dm_version = 2, dm_keys = [304], dm_abs_axes = [], dm_rel_axes = []\<rparr>"

definition demo_hs :: handshake_payload where
  "demo_hs = \<lparr>hp_client_id = ''c1'', hp_client_hostname = ''laptop'', hp_metadata = demo_meta,
     hp_device_id = None\<rparr>"

definition demo_ev :: event_wire where
  "demo_ev = \<lparr>ev_type = 1, ev_code = 304, ev_value = 1\<rparr>"

definition demo_codec :: codec where
  "demo_codec = table_codec [(Handshake demo_hs, [1]), (Events [demo_ev], [2]), (Ping, [3]), (Pong, [4]),
     (HandshakeAck Approved ''desk'' ''Connection authorized'', [5]),
     (HandshakeAck PendingApproval ''desk'' (pending_text ''c1''), [6])]"

definition demo_senv :: "nat \<Rightarrow> server_env" where
  "demo_senv now = \<lparr>sn_now = now, sn_hostname = ''desk'', sn_codec = demo_codec,
     sn_uinput = demo_uinput, sn_trust = demo_env, sn_debug = (\<lambda>_. ''message'')\<rparr>"

definition demo_addr :: socket_addr where
  "demo_addr = SocketV4 (Ipv4 10 0 0 2) 5000"

definition demo_server :: "disk_file \<Rightarrow> server_state" where
  "demo_server f = \<lparr>sv_trust = demo_sys\<lparr>ts_file := f\<rparr>, sv_sessions = fmempty, sv_udp = True,
     sv_clients = fmempty, sv_sent = [], sv_iroh = True, sv_conns = Map.empty\<rparr>"

lemma demo_senv_simps [simp]:
  "sn_now (demo_senv n) = n" "sn_hostname (demo_senv n) = ''desk''" "sn_codec (demo_senv n) = demo_codec"
  "sn_uinput (demo_senv n) = demo_uinput" "sn_trust (demo_senv n) = demo_env"
  by (simp_all add: demo_senv_def)

lemma demo_codec_ok: "codec_ok demo_codec"
  unfolding demo_codec_def by (rule table_codec_ok) simp

lemma demo_decode [simp]:
  "message_decode demo_codec [1] = Ok (Handshake demo_hs)"
  "message_decode demo_codec [2] = Ok (Events [demo_ev])"
  "message_decode demo_codec [3] = Ok Ping"
  by (simp_all add: demo_codec_def message_decode_def table_codec_def)

lemma demo_encode [simp]:
  "message_encode demo_codec Pong = Ok [4]"
  "message_encode demo_codec (Events [demo_ev]) = Ok [2]"
  "message_encode demo_codec (Handshake demo_hs) = Ok [1]"
  "message_encode demo_codec (HandshakeAck Approved ''desk'' ''Connection authorized'') = Ok [5]"
  "message_encode demo_codec (HandshakeAck PendingApproval ''desk'' (pending_text ''c1'')) = Ok [6]"
  by (simp_all add: demo_codec_def message_encode_def table_codec_def)

lemma demo_server_simps [simp]:
  "sv_udp (demo_server f)" "sv_sessions (demo_server f) = fmempty" "sv_clients (demo_server f) = fmempty"
  "sv_sent (demo_server f) = []" "sv_conns (demo_server f) = Map.empty" "sv_iroh (demo_server f)"
  "sv_trust (demo_server f) = demo_sys\<lparr>ts_file := f\<rparr>"
  by (simp_all add: demo_server_def)

lemma demo_hs_simps [simp]:
  "hp_client_id demo_hs = ''c1''" "hp_client_hostname demo_hs = ''laptop''" "hp_metadata demo_hs = demo_meta"
  "session_key demo_hs = ''c1:Pad''" "dm_name demo_meta = ''Pad''"
  by (simp_all add: demo_hs_def session_key_def device_id_str_def demo_meta_def)

lemma demo_env_gate [simp]: "gate_env_ok (te_from_json demo_env) demo_env"
  by (simp add: gate_env_ok_def demo_env_ok)

lemma demo_senv_ok [simp]: "env_ok (te_from_json demo_env) (demo_senv n, inp)"
  by (simp add: env_ok_def)

lemma demo_admitted:
  "sv_trust st = demo_sys\<lparr>ts_file := Text ''G''\<rparr> \<Longrightarrow> admitted (te_from_json demo_env) st ''c1''"
  "\<not> admitted (te_from_json demo_env) (demo_server (Text ''W'')) ''c1''"
  by (simp_all add: admitted_def tm_admits_def effective_data_def parse_file_def)
    (simp_all add: demo_granted_def demo_waiting_def)

section \<open>Handshakes\<close>

lemma udp_handshake_pending:
  assumes "env_ok J (env, inp)" and "\<not> admitted J st (hp_client_id p)"
  shows "udp_handshake env src p st = udp_send env (ack env PendingApproval (pending_text (hp_client_id p))) src
    (st\<lparr>sv_clients := fmdrop src (sv_clients st),
        sv_trust := foldl trust_sys_step (sv_trust st) (knock_trace st env p ''Direct UDP'')\<rparr>)"
  using daemon_query_admits [OF assms(1), of "hp_client_id p" "st\<lparr>sv_clients := fmdrop src (sv_clients st)\<rparr>"] assms(2)
  by (simp add: udp_handshake_def Let_def daemon_query_eq daemon_register_eq admitted_def knock_trace_def)

text \<open>
  A UDP handshake of a client that is not approved gives it nothing: the client waits in the
  store, its address loses any binding it had, no session and no device is made or touched, and
  the one datagram sent is the notice that approval is pending, to that address.
\<close>

theorem udp_unapproved_handshake:
  assumes "env_ok J (env, UdpDatagram src bs)" and "sv_udp st"
    and "message_decode (sn_codec env) bs = Ok (Handshake p)" and "\<not> admitted J st (hp_client_id p)"
  shows "let st' = server_step st (env, UdpDatagram src bs) in
    sv_sessions st' = sv_sessions st \<and> bound st' (UdpPeer src) = None \<and>
    \<not> admitted J st' (hp_client_id p) \<and>
    sv_sent st' = sv_sent st @
      (case message_encode (sn_codec env) (HandshakeAck PendingApproval (sn_hostname env)
              (pending_text (hp_client_id p))) of Inl _ \<Rightarrow> [] | Inr r \<Rightarrow> [(r, src)])"
proof -
  have st': "server_step st (env, UdpDatagram src bs) =
      udp_send env (ack env PendingApproval (pending_text (hp_client_id p))) src
        (st\<lparr>sv_clients := fmdrop src (sv_clients st),
            sv_trust := foldl trust_sys_step (sv_trust st) (knock_trace st env p ''Direct UDP'')\<rparr>)"
    using assms by (simp add: udp_datagram_def udp_handshake_pending)
  have g: "gate_env_ok J (sn_trust env)" using assms(1) by (simp add: env_ok_def)
  have adm: "\<not> admitted J (server_step st (env, UdpDatagram src bs)) (hp_client_id p)"
    unfolding st' admitted_def using assms(4) g by (simp add: knock_trace_admits)
  show ?thesis
    unfolding Let_def by (intro conjI adm) (auto simp: st' udp_send_def ack_def simp del: server_step.simps
      split: sum.splits)
qed

theorem udp_unapproved_handshake_witness:
  "let st' = server_step (demo_server (Text ''W'')) (demo_senv 7, UdpDatagram demo_addr [1]) in
     sv_sessions st' = fmempty \<and> bound st' (UdpPeer demo_addr) = None \<and> sv_sent st' = [([6], demo_addr)]"
proof -
  have "\<not> admitted (te_from_json demo_env) (demo_server (Text ''W'')) (hp_client_id demo_hs)"
    using demo_admitted(2) by simp
  from udp_unapproved_handshake [OF demo_senv_ok _ _ this, of 7 "[1]" demo_addr] show ?thesis
    by (simp add: Let_def del: server_step.simps)
qed

lemma udp_handshake_opened:
  assumes "env_ok J (env, inp)" and "admitted J st (hp_client_id p)"
    and "open_session env p (sv_sessions st) = (r, ss)" and "r = Reused \<or> r = Created"
  shows "udp_handshake env src p st = udp_send env (ack env Approved ''Connection authorized'') src
    (st\<lparr>sv_trust := trust_sys_step (sv_trust st) (0, sn_trust env, Query (hp_client_id p)),
        sv_sessions := ss, sv_clients := fmupd src (session_key p) (fmdrop src (sv_clients st))\<rparr>)"
  using daemon_query_admits [OF assms(1), of "hp_client_id p" "st\<lparr>sv_clients := fmdrop src (sv_clients st)\<rparr>"] assms(2-4)
  by (auto simp: udp_handshake_def Let_def daemon_query_eq admitted_def)

text \<open>
  A UDP handshake of an approved client whose device exists or can be created binds the
  sender's address to the client's session and acknowledges it; the session's device is the one
  that existed, with all it received, or a new one made from the handshake's metadata that has
  received nothing; the session counts as active now, and no other session changes.
\<close>

theorem udp_approved_handshake:
  assumes "env_ok J (env, UdpDatagram src bs)" and "sv_udp st"
    and "message_decode (sn_codec env) bs = Ok (Handshake p)" and "admitted J st (hp_client_id p)"
    and "has_session st (session_key p) \<or> creatable (sn_uinput env) (hp_metadata p)"
  shows "let st' = server_step st (env, UdpDatagram src bs) in
    bound st' (UdpPeer src) = Some (session_key p) \<and>
    (\<exists>s. fmlookup (sv_sessions st') (session_key p) = Some s \<and> se_last_active s = sn_now env \<and>
       (case fmlookup (sv_sessions st) (session_key p) of
          Some s0 \<Rightarrow> se_vdev s = se_vdev s0
        | None \<Rightarrow> vo_config (se_vdev s) = config_of (hp_metadata p) (virtual_device_name
            (hostname_count (hp_client_hostname p) (sv_sessions st)) (hp_client_hostname p)
            (dm_name (hp_metadata p))) \<and> vo_log (se_vdev s) = [])) \<and>
    (\<forall>k. k = session_key p \<or> fmlookup (sv_sessions st') k = fmlookup (sv_sessions st) k) \<and>
    sv_sent st' = sv_sent st @
      (case message_encode (sn_codec env) (HandshakeAck Approved (sn_hostname env) ''Connection authorized'')
       of Inl _ \<Rightarrow> [] | Inr r \<Rightarrow> [(r, src)])"
proof -
  obtain r ss where os: "open_session env p (sv_sessions st) = (r, ss)" by (cases "open_session env p (sv_sessions st)")
  have r: "r = Reused \<or> r = Created"
    using assms(5) os by (cases rule: open_session_cases [of "sv_sessions st" p env])
      (auto simp: has_session_def new_with_name_Ok simp flip: is_ok_new_with_name [of _ _ "virtual_device_name
        (hostname_count (hp_client_hostname p) (sv_sessions st)) (hp_client_hostname p) (dm_name (hp_metadata p))"])
  have d: "udp_datagram env src bs st = udp_send env (ack env Approved ''Connection authorized'') src
    (st\<lparr>sv_trust := trust_sys_step (sv_trust st) (0, sn_trust env, Query (hp_client_id p)),
        sv_sessions := ss, sv_clients := fmupd src (session_key p) (fmdrop src (sv_clients st))\<rparr>)"
    using assms(2,3) udp_handshake_opened [OF assms(1,4) os r] by (simp add: udp_datagram_def)
  have ss: "\<exists>s. fmlookup ss (session_key p) = Some s \<and> se_last_active s = sn_now env \<and>
       (case fmlookup (sv_sessions st) (session_key p) of
          Some s0 \<Rightarrow> se_vdev s = se_vdev s0
        | None \<Rightarrow> vo_config (se_vdev s) = config_of (hp_metadata p) (virtual_device_name
            (hostname_count (hp_client_hostname p) (sv_sessions st)) (hp_client_hostname p)
            (dm_name (hp_metadata p))) \<and> vo_log (se_vdev s) = [])"
    using os r by (cases rule: open_session_cases [of "sv_sessions st" p env]) (auto simp: new_with_name_Ok)
  have "\<forall>k. k = session_key p \<or> fmlookup ss k = fmlookup (sv_sessions st) k"
    using open_session_other [of _ p env "sv_sessions st"] os by (metis snd_conv)
  with ss show ?thesis
    by (auto simp: d Let_def udp_send_def ack_def split: sum.splits)
qed

theorem udp_approved_handshake_witness:
  "let st' = server_step (demo_server (Text ''G'')) (demo_senv 7, UdpDatagram demo_addr [1]) in
    bound st' (UdpPeer demo_addr) = Some ''c1:Pad'' \<and> has_session st' ''c1:Pad'' \<and>
    sv_sent st' = [([5], demo_addr)]"
proof -
  have "admitted (te_from_json demo_env) (demo_server (Text ''G'')) (hp_client_id demo_hs)"
    by (simp add: demo_admitted)
  from udp_approved_handshake [OF demo_senv_ok _ _ this, of 7 "[1]" demo_addr] show ?thesis
    by (auto simp: Let_def demo_creatable has_session_def simp del: server_step.simps)
qed

section \<open>Where a device's input comes from\<close>

text \<open>
  C1. No input without authorization. Take a server that starts with no session, no bound peer
  and nobody approved, and any interleaving of datagrams, Iroh reads, reaper rounds and command
  line operations. If a session's device has received a batch, then some \<open>Events\<close> message
  carried exactly that batch and came from a peer bound to that session; before it, the same
  peer's handshake had bound it with a client id and device of that session; and before that, an
  administrator had run \<open>approve\<close> with that client's id or a prefix of it.
\<close>

theorem device_input_authorized:
  assumes "sv_trust_wf J st" and "\<forall>e \<in> set es. env_ok J e"
    and "sv_sessions st = fmempty" and "\<forall>who. bound st who = None" and "\<forall>k. \<not> known J st k"
    and "fmlookup (sv_sessions (server_run st es)) key = Some s" and "batch \<in> set (vo_log (se_vdev s))"
  shows "\<exists>es1 env inp es2 who evs. es = es1 @ (env, inp) # es2 \<and>
      delivered (server_run st es1) env inp = Some (who, Events evs) \<and> batch = map to_input_event evs \<and>
      (\<exists>ds1 denv dinp ds2 p. es1 = ds1 @ (denv, dinp) # ds2 \<and>
        delivered (server_run st ds1) denv dinp = Some (who, Handshake p) \<and> session_key p = key \<and>
        (\<exists>as1 aenv j t as2. ds1 = as1 @ (aenv, Cli j (Approve t)) # as2 \<and> starts_with (hp_client_id p) t))"
proof -
  have "has_batch (foldl server_step st es) (key, batch)"
    using assms(6,7) by (auto simp: has_batch_def server_run_def)
  moreover have "\<not> has_batch st (key, batch)" using assms(3) by (simp add: has_batch_def)
  ultimately obtain es1 e es2 where es: "es = es1 @ e # es2"
    and c: "sends_batch (foldl server_step st es1) e (key, batch)"
    using sv_batch.run_cause [OF assms(1,2)] by blast
  then obtain who evs where ev: "delivered (server_run st es1) (fst e) (snd e) = Some (who, Events evs)"
    "batch = map to_input_event evs" and b: "is_bound (foldl server_step st es1) (who, key)"
    by (auto simp: sends_batch_def server_run_def is_bound_def)
  have ok1: "\<forall>e \<in> set es1. env_ok J e" using assms(2) es by simp
  have "\<not> is_bound st (who, key)" using assms(4) by (simp add: is_bound_def)
  from sv_binding.run_cause [OF assms(1) ok1 b this] obtain ds1 d ds2 where es1: "es1 = ds1 @ d # ds2"
    and "binds J (foldl server_step st ds1) d (who, key)" by blast
  then obtain p where p: "delivered (server_run st ds1) (fst d) (snd d) = Some (who, Handshake p)"
    "session_key p = key" and a: "known J (foldl server_step st ds1) (hp_client_id p)"
    by (auto simp: binds_def server_run_def dest: admitted_known)
  have ok2: "\<forall>e \<in> set ds1. env_ok J e" using ok1 es1 by simp
  from sv_known.run_cause [OF assms(1) ok2 a] assms(5) obtain as1 env j t as2
    where "ds1 = as1 @ (env, Cli j (Approve t)) # as2" "starts_with (hp_client_id p) t"
    by (auto simp: grants_def)
  with es ev es1 p show ?thesis by (metis surjective_pairing)
qed

text \<open>The example run: approval on the command line, handshake, one batch.\<close>

definition demo_es :: "(server_env \<times> server_input) list" where
  "demo_es = [(demo_senv 5, Cli 0 (Approve ''c1'')), (demo_senv 6, UdpDatagram demo_addr [1]),
     (demo_senv 7, UdpDatagram demo_addr [2])]"

lemma demo_new: "new_with_name demo_uinput m n = Inr \<lparr>vo_name = n, vo_config = config_of m n, vo_log = []\<rparr>"
  by (simp add: new_with_name_Ok demo_creatable)

definition demo_entry :: session_entry where
  "demo_entry = \<lparr>se_vdev = \<lparr>vo_name = ''laptop: Pad (Joycast)'',
       vo_config = config_of demo_meta ''laptop: Pad (Joycast)'', vo_log = []\<rparr>,
     se_last_active = 6, se_client_hostname = ''laptop''\<rparr>"

definition demo_live :: "trust_sys \<Rightarrow> server_state" where
  "demo_live t = (demo_server (Text ''G''))\<lparr>sv_trust := t, sv_sessions := fmupd ''c1:Pad'' demo_entry fmempty,
     sv_clients := fmupd demo_addr ''c1:Pad'' fmempty, sv_sent := [([5], demo_addr)]\<rparr>"

lemma demo_handshake:
  assumes "ts_file t = Text ''G''"
  shows "server_step ((demo_server (Text ''W''))\<lparr>sv_trust := t\<rparr>) (demo_senv 6, UdpDatagram demo_addr [1]) =
    demo_live (trust_sys_step t (0, demo_env, Query ''c1''))"
proof -
  let ?st = "(demo_server (Text ''W''))\<lparr>sv_trust := t\<rparr>"
  have os: "open_session (demo_senv 6) demo_hs (sv_sessions ?st) =
      (Created, fmupd ''c1:Pad'' demo_entry fmempty)"
    by (simp add: open_session_def hostname_count_def virtual_device_name_def demo_new demo_entry_def Let_def)
  have adm: "admitted (te_from_json demo_env) ?st (hp_client_id demo_hs)"
    using assms by (simp add: admitted_def tm_admits_def effective_data_def parse_file_def)
      (simp add: demo_granted_def)
  have "server_step ?st (demo_senv 6, UdpDatagram demo_addr [1]) = udp_handshake (demo_senv 6) demo_addr demo_hs ?st"
    by (simp add: udp_datagram_def)
  also have "\<dots> = demo_live (trust_sys_step t (0, demo_env, Query ''c1''))"
    by (subst udp_handshake_opened [OF demo_senv_ok adm os])
      (simp_all add: demo_live_def udp_send_def ack_def demo_server_def)
  finally show ?thesis .
qed

lemma demo_events:
  "sv_sessions (server_step (demo_live t) (demo_senv 7, UdpDatagram demo_addr [2])) =
     fmupd ''c1:Pad'' (replay (demo_senv 7) [demo_ev] demo_entry) fmempty"
  by (simp add: demo_live_def udp_datagram_def udp_events_def session_events_def)

lemma demo_approved_file: "ts_file (trust_sys_step demo_sys (Suc j, demo_env, Approve ''c1'')) = Text ''G''"
  by (simp add: demo_approve put_manager_def)

lemma demo_sys_W: "demo_sys\<lparr>ts_file := Text ''W''\<rparr> = demo_sys"
  by (simp add: demo_sys_def)

lemma demo_es_sessions:
  "sv_sessions (server_run (demo_server (Text ''W'')) demo_es) =
     fmupd ''c1:Pad'' (replay (demo_senv 7) [demo_ev] demo_entry) fmempty"
proof -
  have "server_step (demo_server (Text ''W'')) (demo_senv 5, Cli 0 (Approve ''c1'')) =
      (demo_server (Text ''W''))\<lparr>sv_trust := trust_sys_step demo_sys (Suc 0, demo_env, Approve ''c1'')\<rparr>"
    by (simp add: demo_sys_W del: trust_sys_step.simps)
  then show ?thesis
    unfolding server_run_def demo_es_def
    by (simp only: foldl.simps demo_handshake [OF demo_approved_file] demo_events)
qed

lemma demo_not_known: "\<not> known (te_from_json demo_env) (demo_server (Text ''W'')) k"
  by (simp add: known_def approved_somewhere_def parse_file_def)
    (simp add: demo_waiting_def trust_default_def)

lemma demo_unbound: "bound (demo_server f) who = None"
  by (cases who) simp_all

lemma demo_server_wf: "sv_trust_wf (te_from_json demo_env) (demo_server (Text ''W''))"
  by (simp add: sv_trust_wf_def demo_sys_W demo_wf)

lemma demo_es_ok: "\<forall>e \<in> set demo_es. env_ok (te_from_json demo_env) e"
  by (simp add: demo_es_def)

theorem device_input_authorized_witness:
  "\<exists>es1 env inp es2 who evs. demo_es = es1 @ (env, inp) # es2 \<and>
      delivered (server_run (demo_server (Text ''W'')) es1) env inp = Some (who, Events evs) \<and>
      map to_input_event [demo_ev] = map to_input_event evs"
proof -
  have b: "map to_input_event [demo_ev] \<in> set (vo_log (se_vdev (replay (demo_senv 7) [demo_ev] demo_entry)))"
    by (simp add: demo_uinput_def emit_cases)
  have l: "fmlookup (sv_sessions (server_run (demo_server (Text ''W'')) demo_es)) ''c1:Pad'' =
      Some (replay (demo_senv 7) [demo_ev] demo_entry)"
    by (simp add: demo_es_sessions)
  have u: "\<forall>who. bound (demo_server (Text ''W'')) who = None" by (simp add: demo_unbound)
  have k: "\<forall>k. \<not> known (te_from_json demo_env) (demo_server (Text ''W'')) k" by (simp add: demo_not_known)
  from device_input_authorized [OF demo_server_wf demo_es_ok demo_server_simps(2) u k l b]
  show ?thesis by blast
qed

section \<open>The store that the server uses\<close>

text \<open>The operations on the store that a run performs, in order.\<close>

fun run_trace :: "server_state \<Rightarrow> (server_env \<times> server_input) list \<Rightarrow> trust_input list" where
  "run_trace st [] = []"
| "run_trace st (e # es) = trust_trace st e @ run_trace (server_step st e) es"

text \<open>
  C11. The server refines the shared store: the store after any run of the server is the store
  after the operations that the run performed on it, the daemon's being only queries and, for a
  client that is not approved, registrations, one handshake at a time, and the others those of
  the command line. So every property of the store's own runs holds of the running server.
\<close>

theorem server_refines_store:
  "sv_trust (server_run st es) = foldl trust_sys_step (sv_trust st) (run_trace st es)"
  unfolding server_run_def by (induction es arbitrary: st) (auto simp: step_trust)

end
