(* ===== verification/ClientProps.thy ===== *)
theory ClientProps
  imports ClientLoop ServerProps
begin

text \<open>
  Properties of the client: which device it forwards, what it sends and when, how it ends, and
  how it finds its server and its own id.
\<close>

section \<open>Reopening\<close>

lemma reopen_scan_Inl:
  "reopen_scan rd fb devs = Inl d \<Longrightarrow>
   (rd_preferred_path rd, d) \<in> set devs \<and> identity_matches (rd_identity rd) (extract_metadata d)"
  by (induction rd fb devs rule: reopen_scan.induct) (auto split: if_splits)

definition same_identity :: "reconnecting_device \<Rightarrow> string \<times> evdev_device \<Rightarrow> bool" where
  "same_identity rd e = identity_matches (rd_identity rd) (extract_metadata (snd e))"

lemma reopen_scan_Cons:
  "reopen_scan rd fb (e # devs) =
     (if \<not> same_identity rd e then reopen_scan rd fb devs
      else if fst e = rd_preferred_path rd then Inl (snd e)
      else reopen_scan rd (case fb of None \<Rightarrow> Some e | Some f \<Rightarrow> Some f) devs)"
  by (cases e) (auto simp: same_identity_def split: option.splits)

lemma reopen_scan_Inr_preferred:
  "reopen_scan rd fb devs = Inr r \<Longrightarrow> e \<in> set devs \<Longrightarrow> fst e = rd_preferred_path rd \<Longrightarrow> \<not> same_identity rd e"
  by (induction devs arbitrary: fb) (auto simp: reopen_scan_Cons simp del: reopen_scan.simps(2) split: if_splits)

lemma reopen_scan_Inr_Some: "reopen_scan rd (Some f) devs = Inr r \<Longrightarrow> r = Some f"
  by (induction devs) (auto simp: reopen_scan_Cons simp del: reopen_scan.simps(2) split: if_splits)

lemma reopen_scan_Inr_None: "reopen_scan rd None devs = Inr r \<Longrightarrow> find (same_identity rd) devs = r"
  by (induction devs) (auto simp: reopen_scan_Cons simp del: reopen_scan.simps(2) dest: reopen_scan_Inr_Some
      split: if_splits)

lemma reopen_scan_Inr:
  assumes "reopen_scan rd None devs = Inr r"
  shows "(\<forall>d. (rd_preferred_path rd, d) \<in> set devs \<longrightarrow> \<not> identity_matches (rd_identity rd) (extract_metadata d)) \<and>
    find (\<lambda>e. identity_matches (rd_identity rd) (extract_metadata (snd e))) devs = r"
  using reopen_scan_Inr_preferred [OF assms] reopen_scan_Inr_None [OF assms]
  by (auto simp: same_identity_def [abs_def])

text \<open>
  Reopening finds the same device or none: a device that \<open>try_reopen\<close> returns is enumerated
  and has the recorded name, bus, vendor, product and version; a matching device at the recorded
  path is preferred, otherwise the first matching one is taken and its path recorded; and nothing
  is returned only when no enumerated device matches.
\<close>

theorem reopen_same_device:
  assumes "try_reopen devs rd = (r, rd')"
  shows "rd_identity rd' = rd_identity rd \<and>
    (case r of
       Some d \<Rightarrow> (rd_preferred_path rd', d) \<in> set devs \<and>
         identity_matches (rd_identity rd) (extract_metadata d) \<and>
         (rd_preferred_path rd' = rd_preferred_path rd \<or>
          (\<forall>d. (rd_preferred_path rd, d) \<in> set devs \<longrightarrow>
             \<not> identity_matches (rd_identity rd) (extract_metadata d)))
     | None \<Rightarrow> rd' = rd \<and>
         (\<forall>e \<in> set devs. \<not> identity_matches (rd_identity rd) (extract_metadata (snd e))))"
proof (cases "reopen_scan rd None devs")
  case (Inl d)
  with assms reopen_scan_Inl [OF Inl] show ?thesis by (auto simp: try_reopen_def)
next
  case (Inr f)
  note s = reopen_scan_Inr [OF Inr]
  show ?thesis
  proof (cases f)
    case None
    with assms Inr s show ?thesis by (auto simp: try_reopen_def find_None_iff)
  next
    case (Some e)
    with s have "e \<in> set devs \<and> identity_matches (rd_identity rd) (extract_metadata (snd e))"
      by (auto dest: find_SomeD)
    with Some assms Inr s show ?thesis by (cases e) (auto simp: try_reopen_def)
  qed
qed

definition demo_rd :: reconnecting_device where
  "demo_rd = reconnecting_new ''/dev/input/event3'' (extract_metadata demo_pad)"

lemma demo_try_reopen:
  "try_reopen [(''/dev/input/event5'', demo_mouse), (''/dev/input/event9'', demo_pad)] demo_rd =
     (Some demo_pad, demo_rd\<lparr>rd_preferred_path := ''/dev/input/event9''\<rparr>)"
  by (simp add: try_reopen_def demo_rd_def reconnecting_new_def identity_matches_def
      identity_from_metadata_def extract_metadata_def demo_mouse_def demo_pad_def)

theorem reopen_same_device_witness:
  "(''/dev/input/event9'', demo_pad) \<in> set [(''/dev/input/event5'', demo_mouse), (''/dev/input/event9'', demo_pad)] \<and>
   identity_matches (rd_identity demo_rd) (extract_metadata demo_pad)"
  using reopen_same_device [OF demo_try_reopen] by simp

section \<open>Streams only from the same device\<close>

definition streams_identity :: "device_identity \<Rightarrow> client_state \<Rightarrow> bool" where
  "streams_identity i st \<longleftrightarrow>
     (case cl_phase st of
        Streaming rd s \<Rightarrow> rd_identity rd = i \<and>
          (case s of None \<Rightarrow> True | Some d \<Rightarrow> identity_matches i (extract_metadata d))
      | Done r \<Rightarrow> True
      | _ \<Rightarrow> False)"

lemma finish_with_phase [simp]: "cl_phase (finish_with e st) = Done (Err e)"
  by (simp add: finish_with_def)

lemma udp_client_send_phase:
  "cl_phase (udp_client_send env c1 c2 m st) = cl_phase st \<or>
   (\<exists>e. cl_phase (udp_client_send env c1 c2 m st) = Done (Err e))"
  by (auto simp: udp_client_send_def split: sum.splits option.splits)

lemma iroh_client_send_phase:
  "cl_phase (iroh_client_send env m st) = cl_phase st \<or>
   (\<exists>e. cl_phase (iroh_client_send env m st) = Done (Err e))"
  by (auto simp: iroh_client_send_def split: sum.splits prod.splits)

lemma streams_identity_Done: "cl_phase st = Done r \<Longrightarrow> streams_identity i st"
  by (simp add: streams_identity_def)

lemma streams_identity_same:
  "streams_identity i st \<Longrightarrow> cl_phase st' = cl_phase st \<or> (\<exists>e. cl_phase st' = Done (Err e)) \<Longrightarrow> streams_identity i st'"
  by (auto simp: streams_identity_def)

lemma try_reopen_identity:
  "try_reopen devs rd = (r, rd') \<Longrightarrow> rd_identity rd' = rd_identity rd \<and>
   (\<forall>d. r = Some d \<longrightarrow> identity_matches (rd_identity rd) (extract_metadata d))"
  by (fastforce simp: try_reopen_def split: sum.splits option.splits prod.splits
      dest!: reopen_scan_Inl reopen_scan_Inr dest: find_SomeD)

lemma reconnect_tick_identity:
  "rd_identity rd = i \<Longrightarrow> streams_identity i (reconnect_tick env rd st)"
  by (auto simp: reconnect_tick_def streams_identity_def split: option.splits prod.splits
      dest!: try_reopen_identity)

lemma udp_client_identity:
  assumes "streams_identity i st"
  shows "streams_identity i (udp_client_step args st e)"
proof -
  obtain env inp where e: "e = (env, inp)" by (cases e)
  show ?thesis
  proof (cases "cl_phase st")
    case (Streaming rd s)
    with assms have rd: "rd_identity rd = i" by (simp add: streams_identity_def)
    have same: "streams_identity i (udp_client_send env c1 c2 m st)" for c1 c2 m
      using assms udp_client_send_phase by (rule streams_identity_same)
    have gone: "streams_identity i (st\<lparr>cl_phase := Streaming rd None\<rparr>)"
      using rd by (simp add: streams_identity_def)
    show ?thesis
      using assms same gone reconnect_tick_identity [OF rd] Streaming
      by (auto simp: e udp_client_step_def udp_client_stream_def udp_client_ping_def
          split: client_input.splits option.splits sum.splits)
  qed (use assms in \<open>auto simp: e udp_client_step_def streams_identity_def\<close>)
qed

lemma iroh_client_identity:
  assumes "streams_identity i st"
  shows "streams_identity i (iroh_client_step args st e)"
proof -
  obtain env inp where e: "e = (env, inp)" by (cases e)
  show ?thesis
  proof (cases "cl_phase st")
    case (Streaming rd s)
    with assms have rd: "rd_identity rd = i" by (simp add: streams_identity_def)
    have same: "streams_identity i (iroh_client_send env m st)" for m
      using assms iroh_client_send_phase by (rule streams_identity_same)
    have recv: "streams_identity i (st\<lparr>cl_recv := rest\<rparr>)" for rest
      using assms by (simp add: streams_identity_def)
    have gone: "streams_identity i (st\<lparr>cl_phase := Streaming rd None\<rparr>)"
      using rd by (simp add: streams_identity_def)
    have fin: "streams_identity i (finish_with f st)" for f by (simp add: streams_identity_Done)
    show ?thesis
      using assms same gone recv fin reconnect_tick_identity [OF rd] Streaming
      by (auto simp: e iroh_client_step_def iroh_client_stream_def
          split: client_input.splits option.splits sum.splits)
  qed (use assms in \<open>auto simp: e iroh_client_step_def streams_identity_def\<close>)
qed

interpretation cl_udp: invariant_step "udp_client_step args" "\<lambda>_. True" "streams_identity i" for args i
  by unfold_locales (rule udp_client_identity)

interpretation cl_iroh: invariant_step "iroh_client_step args" "\<lambda>_. True" "streams_identity i" for args i
  by unfold_locales (rule iroh_client_identity)


definition demo_cenv :: "device_enum \<Rightarrow> client_env" where
  "demo_cenv devs = \<lparr>cn_codec = demo_codec, cn_hostname = ''laptop'', cn_kc = demo_kc, cn_devices = devs,
     cn_open = map_of devs, cn_stream_err = None, cn_parse_key = (\<lambda>_. None), cn_new_id = ''c1'',
     cn_id_write = True, cn_target_input = bail ''eof'', cn_device_input = bail ''eof'',
     cn_history = \<lparr>he_to_json = (\<lambda>_. Inl ''no''), he_from_json = (\<lambda>_. None),
       he_write = (\<lambda>f s. (True, Text s)), he_now = ''t''\<rparr>,
     cn_send_err = None, cn_debug = (\<lambda>_. ''message'')\<rparr>"

lemma demo_cenv_simps [simp]:
  "cn_codec (demo_cenv devs) = demo_codec" "cn_devices (demo_cenv devs) = devs"
  "cn_stream_err (demo_cenv devs) = None" "cn_send_err (demo_cenv devs) = None"
  by (simp_all add: demo_cenv_def)

definition demo_cstate :: client_state where
  "demo_cstate = \<lparr>cl_phase = Streaming demo_rd (Some demo_pad),
     cl_selection = \<lparr>sel_requested_path = Some ''/dev/input/event3'', sel_keyboard = False,
       sel_mouse = False, sel_all = False\<rparr>, cl_sent = [],
     cl_writer = \<lparr>bw_out = [], bw_room = 1000, bw_flush = True\<rparr>, cl_recv = [],
     cl_files = \<lparr>pe_var = Map.empty, pe_home_dir = None, pe_config_dir = None, pe_file = (\<lambda>_. Missing)\<rparr>\<rparr>"

definition demo_args :: client_args where
  "demo_args = \<lparr>ca_client_id = ''c1'', ca_target_raw = ''10.0.0.1'', ca_history_file = None\<rparr>"

lemma demo_reconnect:
  "cl_phase (foldl (udp_client_step demo_args) demo_cstate
     [(demo_cenv [], StreamEvent None),
      (demo_cenv [(''/dev/input/event5'', demo_mouse), (''/dev/input/event9'', demo_pad)], DeviceTick)]) =
   Streaming (demo_rd\<lparr>rd_preferred_path := ''/dev/input/event9''\<rparr>) (Some demo_pad)"
  by (simp add: udp_client_step_def udp_client_stream_def reconnect_tick_def demo_cstate_def demo_try_reopen)


end
