(* ===== verification/ClientFlow.thy ===== *)
theory ClientFlow
  imports ClientProps
begin

text \<open>
  What a client sends, when it starts to forward input and how it ends.
\<close>

section \<open>Forwarding\<close>

text \<open>The message that an input makes a streaming client send.\<close>

fun forwarded :: "client_input \<Rightarrow> message list" where
  "forwarded (StreamEvent (Some (Inr ev))) = [event_message ev]"
| "forwarded KeepaliveTick = [Ping]"
| "forwarded _ = []"

text \<open>Inputs that leave the device's stream open.\<close>

fun stays_open :: "client_input \<Rightarrow> bool" where
  "stays_open (StreamEvent (Some (Inr ev))) = True"
| "stays_open (StreamEvent _) = False"
| "stays_open _ = True"

definition udp_can_send :: "client_env \<Rightarrow> client_input \<Rightarrow> bool" where
  "udp_can_send env inp \<longleftrightarrow> cn_send_err env = None \<and> list_all (\<lambda>m. is_ok (message_encode (cn_codec env) m)) (forwarded inp)"

definition encoded :: "client_env \<times> client_input \<Rightarrow> bytes list" where
  "encoded e = concat (map (\<lambda>m. case message_encode (cn_codec (fst e)) m of Inl _ \<Rightarrow> [] | Inr bs \<Rightarrow> [bs]) (forwarded (snd e)))"

lemma udp_stream_step:
  assumes "cl_phase st = Streaming rd (Some d)" and "stays_open (snd e)" and "udp_can_send (fst e) (snd e)"
  shows "udp_client_step args st e = st\<lparr>cl_sent := cl_sent st @ encoded e\<rparr>"
proof -
  obtain env inp where e: "e = (env, inp)" by (cases e)
  show ?thesis
  proof (cases inp)
    case (StreamEvent r)
    with assms(2) e obtain ev where "r = Some (Inr ev)" by (cases r rule: option.exhaust; simp; cases "the r"; simp)
    with assms StreamEvent e show ?thesis
      by (auto simp: udp_client_step_def udp_client_stream_def udp_client_send_def udp_can_send_def encoded_def
          is_ok_iff)
  qed (use assms e in \<open>auto simp: udp_client_step_def udp_client_stream_def udp_client_send_def udp_client_ping_def
        udp_can_send_def encoded_def is_ok_iff\<close>)
qed

text \<open>
  A streaming UDP client forwards every input event: while the device's stream stays open and the
  socket takes the datagrams, the client sends exactly one datagram for each event and one ping
  for each keepalive tick, in the order of the inputs, and keeps streaming.
\<close>

lemma udp_stream_run:
  assumes "cl_phase st = Streaming rd (Some d)"
    and "\<forall>e \<in> set es. stays_open (snd e) \<and> udp_can_send (fst e) (snd e)"
  shows "foldl (udp_client_step args) st es = st\<lparr>cl_sent := cl_sent st @ concat (map encoded es)\<rparr>"
  using assms
proof (induction es arbitrary: st)
  case (Cons e es)
  have "udp_client_step args st e = st\<lparr>cl_sent := cl_sent st @ encoded e\<rparr>"
    using Cons.prems by (intro udp_stream_step) auto
  with Cons.IH [of "st\<lparr>cl_sent := cl_sent st @ encoded e\<rparr>"] Cons.prems show ?case by simp
qed simp

definition demo_ie :: input_event where
  "demo_ie = \<lparr>ie_type = 1, ie_code = 304, ie_value = 1\<rparr>"

lemma demo_event_message [simp]: "event_message demo_ie = Events [demo_ev]"
  by (simp add: event_message_def demo_ie_def demo_ev_def)

lemma demo_encode_ping [simp]: "message_encode demo_codec Ping = Ok [3]"
  by (simp add: demo_codec_def message_encode_def table_codec_def)

section \<open>The end of a run\<close>

lemma done_absorbs:
  "cl_phase st = Done r \<Longrightarrow> foldl (udp_client_step args) st es = st"
  "cl_phase st = Done r \<Longrightarrow> foldl (iroh_client_step args) st es = st"
  by (induction es) (simp_all add: udp_client_step_def iroh_client_step_def split: prod.splits)

text \<open>
  Without approval a UDP client forwards nothing: when the acknowledgement it waits for says
  that approval is pending or that it was rejected, it ends with that error; and whatever inputs
  come later, its state, with everything it has sent, stays as it is.
\<close>

theorem udp_client_stops_unapproved:
  assumes "cl_phase st = WaitAck d path"
    and "message_decode (cn_codec env) bs = Ok (HandshakeAck status host msg)" and "status \<noteq> Approved"
  shows "foldl (udp_client_step args) st ((env, Received (Ok bs)) # es) =
    st\<lparr>cl_phase := Done (Err (Fail [if status = Rejected then ''Server rejected connection: '' @ msg
                                   else ''Connection pending server authorization.'']))\<rparr>"
proof -
  have "udp_client_step args st (env, Received (Ok bs)) =
    st\<lparr>cl_phase := Done (Err (Fail [if status = Rejected then ''Server rejected connection: '' @ msg
                                   else ''Connection pending server authorization.'']))\<rparr>"
    using assms by (cases status) (auto simp: udp_client_step_def udp_client_ack_def on_ack_def finish_with_def)
  then show ?thesis by (simp only: foldl.simps) (rule done_absorbs, simp)
qed

lemma demo_decode_pending [simp]:
  "message_decode demo_codec [6] = Ok (HandshakeAck PendingApproval ''desk'' (pending_text ''c1''))"
  by (rule codec_okD [OF demo_codec_ok]) simp

theorem udp_client_stops_unapproved_witness:
  "cl_sent (foldl (udp_client_step demo_args) (demo_cstate\<lparr>cl_phase := WaitAck demo_pad ''p''\<rparr>)
     [(demo_cenv [], Received (Ok [6])), (demo_cenv [], StreamEvent (Some (Ok demo_ie)))]) = []"
proof -
  let ?st = "demo_cstate\<lparr>cl_phase := WaitAck demo_pad ''p''\<rparr>"
  have w: "cl_phase ?st = WaitAck demo_pad ''p''" by simp
  have m: "message_decode (cn_codec (demo_cenv [])) [6] = Ok (HandshakeAck PendingApproval ''desk'' (pending_text ''c1''))"
    by simp
  have "cl_sent ?st = []" by (simp add: demo_cstate_def)
  then show ?thesis by (subst udp_client_stops_unapproved [OF w m]) simp_all
qed

section \<open>The start of forwarding\<close>

definition is_streaming :: "client_state \<Rightarrow> unit \<Rightarrow> bool" where
  "is_streaming st u \<longleftrightarrow> (\<exists>rd s. cl_phase st = Streaming rd s)"

definition approved_frame :: "client_state \<Rightarrow> client_env \<times> client_input \<Rightarrow> unit \<Rightarrow> bool" where
  "approved_frame st e u \<longleftrightarrow> snd e = FrameReady \<and> (\<exists>d path. cl_phase st = WaitAck d path) \<and>
     (\<exists>host msg rest. read_frame (cn_codec (fst e)) (cl_recv st) = Ok (HandshakeAck Approved host msg, rest))"

definition approved_or_timeout :: "client_state \<Rightarrow> client_env \<times> client_input \<Rightarrow> unit \<Rightarrow> bool" where
  "approved_or_timeout st e u \<longleftrightarrow> (\<exists>d path. cl_phase st = WaitAck d path) \<and>
     (snd e = Timeout \<or> (\<exists>bs host msg. snd e = Received (Ok bs) \<and>
        message_decode (cn_codec (fst e)) bs = Ok (HandshakeAck Approved host msg)))"

lemma send_not_streaming:
  "\<not> is_streaming st u \<Longrightarrow> \<not> is_streaming (udp_client_send env c1 c2 m st) u"
  "\<not> is_streaming st u \<Longrightarrow> \<not> is_streaming (iroh_client_send env m st) u"
  using udp_client_send_phase [of env c1 c2 m st] iroh_client_send_phase [of env m st]
  by (auto simp: is_streaming_def)

lemma finish_not_streaming [simp]: "\<not> is_streaming (finish_with e st) u"
  by (simp add: is_streaming_def)

lemma on_ack_streaming:
  "is_streaming (on_ack env args tr d path status host msg st) u \<Longrightarrow> status = Approved"
  by (cases status) (simp_all add: on_ack_def)

lemma udp_streaming_cause:
  assumes "is_streaming (udp_client_step args st e) u"
  shows "is_streaming st u \<or> approved_or_timeout st e u"
proof -
  obtain env inp where e: "e = (env, inp)" by (cases e)
  show ?thesis
  proof (cases "cl_phase st")
    case WaitDevice
    then have no: "\<not> is_streaming (st\<lparr>cl_selection := sel, cl_phase := WaitAck d path\<rparr>) u"
      "\<not> is_streaming (st\<lparr>cl_selection := sel\<rparr>) u" "\<not> is_streaming st u" for sel d path
      by (simp_all add: is_streaming_def)
    show ?thesis
      using assms no send_not_streaming WaitDevice
      by (auto simp: e udp_client_step_def udp_client_wait_def udp_client_ping_def
          split: client_input.splits prod.splits option.splits)
  next
    case (WaitAck d path)
    then have "\<not> is_streaming st u" by (simp add: is_streaming_def)
    then show ?thesis
      using assms WaitAck
      by (auto simp: e udp_client_step_def udp_client_ack_def approved_or_timeout_def
          split: client_input.splits sum.splits message.splits dest: on_ack_streaming)
  qed (use assms in \<open>auto simp: e udp_client_step_def is_streaming_def\<close>)
qed

lemma iroh_streaming_cause:
  assumes "is_streaming (iroh_client_step args st e) u"
  shows "is_streaming st u \<or> approved_frame st e u"
proof -
  obtain env inp where e: "e = (env, inp)" by (cases e)
  show ?thesis
  proof (cases "cl_phase st")
    case WaitDevice
    then have no: "\<not> is_streaming (st\<lparr>cl_selection := sel, cl_phase := WaitAck d path\<rparr>) u"
      "\<not> is_streaming (st\<lparr>cl_phase := WaitPong\<rparr>) u"
      "\<not> is_streaming (st\<lparr>cl_selection := sel\<rparr>) u" "\<not> is_streaming st u" for sel d path
      by (simp_all add: is_streaming_def)
    show ?thesis
      using assms no send_not_streaming(2) WaitDevice
      by (auto simp: e iroh_client_step_def iroh_client_wait_def iroh_client_send_then_def
          split: client_input.splits prod.splits option.splits)
  next
    case WaitPong
    then have "\<not> is_streaming (st\<lparr>cl_recv := rest, cl_phase := WaitDevice\<rparr>) u" "\<not> is_streaming st u" for rest
      by (simp_all add: is_streaming_def)
    then show ?thesis
      using assms WaitPong by (auto simp: e iroh_client_step_def iroh_client_pong_def
          split: client_input.splits sum.splits prod.splits if_splits)
  next
    case (WaitAck d path)
    then have "\<not> is_streaming st u" by (simp add: is_streaming_def)
    then show ?thesis
      using assms WaitAck
      by (auto simp: e iroh_client_step_def iroh_client_ack_def approved_frame_def
          split: client_input.splits sum.splits message.splits dest: on_ack_streaming)
  qed (use assms in \<open>auto simp: e iroh_client_step_def is_streaming_def\<close>)
qed

interpretation cl_udp_start: traced_step "udp_client_step args" "\<lambda>_. True" "\<lambda>_. True" is_streaming approved_or_timeout
  for args
  by unfold_locales (auto dest: udp_streaming_cause)

interpretation cl_iroh_start: traced_step "iroh_client_step args" "\<lambda>_. True" "\<lambda>_. True" is_streaming approved_frame
  for args
  by unfold_locales (auto dest: iroh_streaming_cause)

text \<open>
  An Iroh client forwards input only after the server approved it: if a client that waits for
  its device reaches the streaming phase, then on the way it read an acknowledgement with status
  \<open>Approved\<close>.
\<close>

theorem iroh_client_needs_approval:
  assumes "cl_phase st = WaitDevice" and "cl_phase (foldl (iroh_client_step args) st es) = Streaming rd s"
  shows "\<exists>es1 env es2 host msg rest. es = es1 @ (env, FrameReady) # es2 \<and>
    read_frame (cn_codec env) (cl_recv (foldl (iroh_client_step args) st es1)) =
      Ok (HandshakeAck Approved host msg, rest)"
proof -
  have "is_streaming (foldl (iroh_client_step args) st es) ()" "\<not> is_streaming st ()"
    using assms by (auto simp: is_streaming_def)
  from cl_iroh_start.run_cause [OF _ _ this] obtain es1 e es2 where es: "es = es1 @ e # es2"
    and c: "approved_frame (foldl (iroh_client_step args) st es1) e ()" by blast
  obtain env inp where e: "e = (env, inp)" by (cases e)
  from c obtain host msg rest where "inp = FrameReady"
    "read_frame (cn_codec env) (cl_recv (foldl (iroh_client_step args) st es1)) =
      Ok (HandshakeAck Approved host msg, rest)" by (auto simp: approved_frame_def e)
  with es e show ?thesis by blast
qed

lemma demo_read_approved:
  "read_frame demo_codec [0, 0, 0, 1, 5] = Ok (HandshakeAck Approved ''desk'' ''Connection authorized'', [])"
proof -
  have "sendable demo_codec (HandshakeAck Approved ''desk'' ''Connection authorized'')"
    by (rule sendableI [OF demo_codec_ok demo_encode(4)]) (simp add: max_frame_def)
  from fr.get_put [OF this, of "[]"] show ?thesis by (simp add: frame_bytes_def be32_def)
qed

definition demo_pad_env :: client_env where
  "demo_pad_env = (demo_cenv [(''/dev/input/event3'', demo_pad)])\<lparr>cn_codec := demo_codec\<lparr>to_allocvec := (\<lambda>_. Ok [1])\<rparr>\<rparr>"

definition demo_iroh_start :: client_state where
  "demo_iroh_start = demo_cstate\<lparr>cl_phase := WaitDevice, cl_recv := [0, 0, 0, 1, 5]\<rparr>"

lemma demo_iroh_run:
  "cl_phase (foldl (iroh_client_step demo_args) demo_iroh_start
     [(demo_pad_env, DeviceTick), (demo_cenv [], FrameReady)]) = Streaming demo_rd (Some demo_pad)"
proof -
  have open_pad: "try_open_initial_device demo_pad_env (cl_selection demo_iroh_start) =
      (Some (demo_pad, ''/dev/input/event3''), cl_selection demo_iroh_start)"
    by (simp add: try_open_initial_device_def demo_iroh_start_def demo_cstate_def demo_pad_env_def demo_cenv_def)
  have enc: "message_encode (cn_codec demo_pad_env) m = Ok [1]" for m
    by (simp add: demo_pad_env_def message_encode_def)
  have p: "cl_phase demo_iroh_start = WaitDevice"
    and w: "cl_writer demo_iroh_start = \<lparr>bw_out = [], bw_room = 1000, bw_flush = True\<rparr>"
    by (simp_all add: demo_iroh_start_def demo_cstate_def)
  have s1: "iroh_client_step demo_args demo_iroh_start (demo_pad_env, DeviceTick) =
      demo_iroh_start\<lparr>cl_phase := WaitAck demo_pad ''/dev/input/event3'',
        cl_writer := \<lparr>bw_out = [0, 0, 0, 1, 1], bw_room = 995, bw_flush = True\<rparr>\<rparr>"
    using open_pad p w
    by (simp add: iroh_client_step_def iroh_client_wait_def iroh_client_send_then_def iroh_client_send_def
        write_frame_Ok [OF enc] frame_bytes_def enc be32_def)
  show ?thesis
    by (simp only: foldl.simps s1)
      (simp add: iroh_client_step_def iroh_client_ack_def demo_iroh_start_def demo_read_approved on_ack_def
        start_streaming_def demo_rd_def)
qed

theorem iroh_client_needs_approval_witness:
  "\<exists>es1 env es2 host msg rest.
     [(demo_pad_env, DeviceTick), (demo_cenv [], FrameReady)] = es1 @ (env, FrameReady) # es2 \<and>
     read_frame (cn_codec env) (cl_recv (foldl (iroh_client_step demo_args) demo_iroh_start es1)) =
       Ok (HandshakeAck Approved host msg, rest)"
  by (rule iroh_client_needs_approval [OF _ demo_iroh_run]) (simp add: demo_iroh_start_def)

text \<open>
  A UDP client needs an acknowledgement or four silent seconds: if it reaches the streaming
  phase, then while waiting for the acknowledgement it received one with status \<open>Approved\<close>, or
  the wait timed out.
\<close>

theorem udp_client_start_cause:
  assumes "cl_phase st = WaitDevice" and "cl_phase (foldl (udp_client_step args) st es) = Streaming rd s"
  shows "\<exists>es1 env inp es2. es = es1 @ (env, inp) # es2 \<and>
    (\<exists>d path. cl_phase (foldl (udp_client_step args) st es1) = WaitAck d path) \<and>
    (inp = Timeout \<or> (\<exists>bs host msg. inp = Received (Ok bs) \<and>
       message_decode (cn_codec env) bs = Ok (HandshakeAck Approved host msg)))"
proof -
  have "is_streaming (foldl (udp_client_step args) st es) ()" "\<not> is_streaming st ()"
    using assms by (auto simp: is_streaming_def)
  from cl_udp_start.run_cause [OF _ _ this] obtain es1 e es2 where es: "es = es1 @ e # es2"
    and c: "approved_or_timeout (foldl (udp_client_step args) st es1) e ()" by blast
  obtain env inp where e: "e = (env, inp)" by (cases e)
  from c show ?thesis unfolding es e approved_or_timeout_def fst_conv snd_conv by blast
qed

lemma demo_udp_run:
  "cl_phase (foldl (udp_client_step demo_args) demo_iroh_start
     [(demo_pad_env, DeviceTick), (demo_cenv [], Timeout)]) = Streaming demo_rd (Some demo_pad)"
  by (simp add: udp_client_step_def udp_client_wait_def try_open_initial_device_def demo_iroh_start_def
      demo_cstate_def demo_pad_env_def udp_client_send_def message_encode_def udp_client_ack_def
      start_streaming_def demo_rd_def demo_cenv_def)

theorem udp_client_start_cause_witness:
  "\<exists>es1 env inp es2. [(demo_pad_env, DeviceTick), (demo_cenv [], Timeout)] = es1 @ (env, inp) # es2 \<and>
    (\<exists>d path. cl_phase (foldl (udp_client_step demo_args) demo_iroh_start es1) = WaitAck d path) \<and>
    (inp = Timeout \<or> (\<exists>bs host msg. inp = Received (Ok bs) \<and>
       message_decode (cn_codec env) bs = Ok (HandshakeAck Approved host msg)))"
  by (rule udp_client_start_cause [OF _ demo_udp_run]) (simp add: demo_iroh_start_def)

end
