(* ===== verification/ServerLife.thy ===== *)
theory ServerLife
  imports ServerProps
begin

text \<open>
  The life of sessions: how long they last, what removes them, what peers see when they are
  gone, and the way of a stream of frames from an Iroh client to the device.
\<close>

section \<open>Sessions last\<close>

definition same_device :: "session_entry \<Rightarrow> session_entry \<Rightarrow> bool" where
  "same_device s s' \<longleftrightarrow> vo_config (se_vdev s') = vo_config (se_vdev s) \<and>
     prefix (vo_log (se_vdev s)) (vo_log (se_vdev s'))"

lemma same_device_refl [simp]: "same_device s s"
  by (simp add: same_device_def)

lemma same_device_trans: "same_device a b \<Longrightarrow> same_device b c \<Longrightarrow> same_device a c"
  by (auto simp: same_device_def intro: prefix_order.trans)

lemma same_device_replay [simp]: "same_device s (replay env evs s)"
  by (auto simp: same_device_def emit_cases split: option.splits)

lemma same_device_touch [simp]: "same_device s (touch n s)"
  by (simp add: same_device_def)

definition keeps :: "string \<Rightarrow> session_entry \<Rightarrow> server_state \<Rightarrow> bool" where
  "keeps key s st \<longleftrightarrow> (\<exists>s'. fmlookup (sv_sessions st) key = Some s' \<and> same_device s s')"

lemma session_move_keeps:
  "session_move env m b ss ss' \<Longrightarrow> fmlookup ss key = Some s \<Longrightarrow>
   \<exists>s'. fmlookup ss' key = Some s' \<and> same_device s s'"
proof (induction rule: session_move.induct)
  case (opened p b ss)
  then show ?case by (cases rule: open_session_cases [of ss p env]) auto
qed (auto simp: session_events_lookup session_ping_lookup)

lemma step_keeps:
  assumes "env_ok J e" and "snd e \<noteq> Reap" and "keeps key s st"
  shows "keeps key s (server_step st e)"
proof -
  obtain env inp where e: "e = (env, inp)" by (cases e)
  obtain s0 where s0: "fmlookup (sv_sessions st) key = Some s0" "same_device s s0"
    using assms(3) by (auto simp: keeps_def)
  have "\<exists>s'. fmlookup (sv_sessions (server_step st e)) key = Some s' \<and> same_device s0 s'"
    using step_sessions [of J env inp st] assms(1,2) session_move_keeps [OF _ s0(1)] s0(1)
    unfolding e by fastforce
  with s0(2) show ?thesis by (auto simp: keeps_def intro: same_device_trans)
qed

interpretation sv_keeps: invariant_step server_step "\<lambda>e. env_ok J e \<and> snd e \<noteq> Reap" "keeps key s" for J key s
  by unfold_locales (blast intro: step_keeps)

text \<open>
  C20. Only the reaper ends a session: over any run without a reaper round, whatever peers send,
  connect or disconnect and whatever the administrator does, an open session stays open, with
  the same virtual device configuration, and its device's log only grows at its end.
\<close>

theorem session_persists:
  assumes "\<forall>e \<in> set es. env_ok J e \<and> snd e \<noteq> Reap" and "fmlookup (sv_sessions st) key = Some s"
  shows "\<exists>s'. fmlookup (sv_sessions (server_run st es)) key = Some s' \<and>
    vo_config (se_vdev s') = vo_config (se_vdev s) \<and> prefix (vo_log (se_vdev s)) (vo_log (se_vdev s'))"
proof -
  have "keeps key s st" using assms(2) by (auto simp: keeps_def)
  from sv_keeps.run_inv [OF this assms(1)] show ?thesis
    by (auto simp: keeps_def same_device_def server_run_def)
qed

theorem session_persists_witness:
  "\<exists>s'. fmlookup (sv_sessions (server_run (demo_live demo_sys)
      [(demo_senv 7, UdpDatagram demo_addr [2]), (demo_senv 8, Cli 0 (Revoke ''c1'')),
       (demo_senv 9, UdpDatagram demo_addr [1])])) ''c1:Pad'' = Some s' \<and>
    vo_config (se_vdev s') = config_of demo_meta ''laptop: Pad (Joycast)''"
proof -
  have "fmlookup (sv_sessions (demo_live demo_sys)) ''c1:Pad'' = Some demo_entry"
    by (simp add: demo_live_def)
  from session_persists [OF _ this, of "[(demo_senv 7, UdpDatagram demo_addr [2]),
      (demo_senv 8, Cli 0 (Revoke ''c1'')), (demo_senv 9, UdpDatagram demo_addr [1])]"
      "te_from_json demo_env"]
  show ?thesis by (auto simp: demo_entry_def)
qed

section \<open>The reaper\<close>


lemma udp_activity:
  assumes "sv_udp st" and "message_decode (sn_codec env) bs = Ok m" and "m = Ping \<or> m = Events evs"
    and "bound st (UdpPeer src) = Some key" and "fmlookup (sv_sessions st) key = Some s"
  shows "\<exists>s'. fmlookup (sv_sessions (server_step st (env, UdpDatagram src bs))) key = Some s' \<and>
    se_last_active s' = sn_now env"
  using assms
  by (auto simp: udp_datagram_def udp_ping_def udp_events_def session_ping_def session_events_def)

lemma iroh_activity:
  assumes "delivered st env (IrohRead i) = Some (IrohPeer i, m)" and "m = Ping \<or> m = Events evs"
    and "bound st (IrohPeer i) = Some key" and "fmlookup (sv_sessions st) key = Some s"
  shows "\<exists>s'. fmlookup (sv_sessions (server_step st (env, IrohRead i))) key = Some s' \<and>
    se_last_active s' = sn_now env"
  using assms
  by (auto simp: iroh_read_def iroh_established_def session_ping_def session_events_def Let_def
      split: option.splits conn_phase.splits if_splits sum.splits prod.splits)

text \<open>
  An active peer keeps its session: after a \<open>Ping\<close> or an \<open>Events\<close> message of a peer bound to
  a live session, over either transport, a reaper round less than 900 seconds later leaves that
  session in place.
\<close>

theorem activity_prevents_reaping:
  assumes "delivered st env inp = Some (who, m)" and "m = Ping \<or> m = Events evs"
    and "bound st who = Some key" and "has_session st key"
    and "sn_now env' - sn_now env < idle_limit"
  shows "has_session (server_step (server_step st (env, inp)) (env', Reap)) key"
proof -
  from assms(4) obtain s where s: "fmlookup (sv_sessions st) key = Some s" by (auto simp: has_session_def)
  have "\<exists>s'. fmlookup (sv_sessions (server_step st (env, inp))) key = Some s' \<and> se_last_active s' = sn_now env"
  proof (cases inp)
    case (UdpDatagram src bs)
    with assms(1) have "sv_udp st" "message_decode (sn_codec env) bs = Ok m" "who = UdpPeer src"
      by (auto split: if_splits sum.splits)
    with udp_activity [OF _ _ assms(2) _ s] assms(3) UdpDatagram show ?thesis by blast
  next
    case (IrohRead i)
    with assms(1) have "who = IrohPeer i" by (auto split: if_splits sum.splits option.splits)
    with iroh_activity [OF _ assms(2) _ s] assms(1,3) IrohRead show ?thesis by blast
  qed (use assms(1) in auto)
  then show ?thesis
    using assms(5) by (auto simp: has_session_def fmlookup_reap session_active_def)
qed

theorem activity_prevents_reaping_witness:
  "has_session (server_step (server_step (demo_live demo_sys) (demo_senv 1000000000000, UdpDatagram demo_addr [3]))
     (demo_senv 1800000000000, Reap)) ''c1:Pad''"
proof (rule activity_prevents_reaping [where who = "UdpPeer demo_addr" and m = Ping])
  show "delivered (demo_live demo_sys) (demo_senv 1000000000000) (UdpDatagram demo_addr [3]) =
      Some (UdpPeer demo_addr, Ping)" by (simp add: demo_live_def)
  show "bound (demo_live demo_sys) (UdpPeer demo_addr) = Some ''c1:Pad''" by (simp add: demo_live_def)
  show "has_session (demo_live demo_sys) ''c1:Pad''" by (simp add: demo_live_def has_session_def)
qed (simp_all add: idle_limit_def)

text \<open>
  After its session was reaped, a UDP peer is not told: its address stays bound, its events
  are dropped without any answer or change of state, and its pings are still answered with a
  pong.
\<close>

theorem udp_silent_after_reaping:
  assumes "sv_udp st" and "bound st (UdpPeer src) = Some key" and "\<not> has_session st key"
    and "message_decode (sn_codec env) bs = Ok m"
  shows "server_step st (env, UdpDatagram src bs) =
    (case m of
       Events evs \<Rightarrow> st
     | Ping \<Rightarrow> udp_send env Pong src st
     | Handshake p \<Rightarrow> udp_handshake env src p st
     | _ \<Rightarrow> st)"
  using assms by (cases m) (simp_all add: udp_datagram_def udp_events_def udp_ping_def has_session_def
      session_events_def session_ping_def)

theorem udp_silent_after_reaping_witness:
  "let st = (demo_live demo_sys)\<lparr>sv_sessions := fmempty\<rparr> in
     server_step st (demo_senv 7, UdpDatagram demo_addr [2]) = st \<and>
     sv_sent (server_step st (demo_senv 7, UdpDatagram demo_addr [3])) = sv_sent st @ [([4], demo_addr)]"
proof -
  let ?st = "(demo_live demo_sys)\<lparr>sv_sessions := fmempty\<rparr>"
  have a: "sv_udp ?st" "bound ?st (UdpPeer demo_addr) = Some ''c1:Pad''" "\<not> has_session ?st ''c1:Pad''"
    by (simp_all add: demo_live_def has_session_def)
  have "message_decode (sn_codec (demo_senv 7)) [2] = Ok (Events [demo_ev])"
    "message_decode (sn_codec (demo_senv 7)) [3] = Ok Ping" by simp_all
  from this [THEN udp_silent_after_reaping [OF a]] show ?thesis by (simp add: Let_def udp_send_def)
qed

text \<open>
  Revocation does not reach open sessions: whatever the administrator does on the command
  line, and whatever happens to the store's file, an address that is bound to a live session
  still has its events replayed on the device.
\<close>

theorem revocation_spares_live_session:
  assumes "sv_udp st" and "bound st (UdpPeer src) = Some key" and "fmlookup (sv_sessions st) key = Some s"
    and "list_all (\<lambda>e. \<exists>j c. snd e = Cli j c) es" and "message_decode (sn_codec env) bs = Ok (Events evs)"
  shows "fmlookup (sv_sessions (server_step (server_run st es) (env, UdpDatagram src bs))) key =
    Some (replay env evs s)"
proof -
  have "\<exists>t. server_run st es = st\<lparr>sv_trust := t\<rparr>" using assms(4) unfolding server_run_def
  proof (induction es arbitrary: st)
    case Nil
    have "st = st\<lparr>sv_trust := sv_trust st\<rparr>" by simp
    then show ?case by (metis foldl_Nil)
  next
    case (Cons e es)
    then obtain env j c where "e = (env, Cli j c)" by (cases e) auto
    with Cons.IH [of "server_step st e"] Cons.prems show ?case by auto
  qed
  then show ?thesis
    using assms by (auto simp: udp_datagram_def udp_events_def session_events_def)
qed

theorem revocation_spares_live_session_witness:
  "fmlookup (sv_sessions (server_step (server_run (demo_live demo_sys) [(demo_senv 7, Cli 0 (Revoke ''c1''))])
      (demo_senv 8, UdpDatagram demo_addr [2]))) ''c1:Pad'' = Some (replay (demo_senv 8) [demo_ev] demo_entry)"
  by (rule revocation_spares_live_session) (simp_all add: demo_live_def)

end
