(* ===== verification/ServerIroh.thy ===== *)
theory ServerIroh
  imports ServerLife
begin

text \<open>
  Iroh connections on the server: the order of the protocol, agreement with the UDP handler, and
  the path of a stream of frames to the device. Also the names under which sessions are kept.
\<close>

section \<open>Order of the protocol\<close>

text \<open>
  Before its handshake an Iroh connection has no effect on the server: a \<open>Ping\<close> is answered
  and the connection goes on waiting (or closes when the answer cannot be written), any other
  message or a bad frame closes it with an error, and the server's state stays as it was.
\<close>

theorem iroh_needs_handshake:
  assumes "ic_phase conn = Awaiting" and "\<And>p rest. read_frame (sn_codec env) (ic_recv conn) \<noteq> Ok (Handshake p, rest)"
  shows "snd (iroh_read env (conn, st)) = st \<and>
    (ic_phase (fst (iroh_read env (conn, st))) = Awaiting \<longrightarrow>
       (\<exists>rest. read_frame (sn_codec env) (ic_recv conn) = Ok (Ping, rest))) \<and>
    (ic_phase (fst (iroh_read env (conn, st))) = Awaiting \<or>
       (\<exists>e. ic_phase (fst (iroh_read env (conn, st))) = Closed (Err e)))"
proof (cases "read_frame (sn_codec env) (ic_recv conn)")
  case (Inl e)
  then show ?thesis using assms(1) by (simp add: iroh_read_def)
next
  case (Inr mr)
  obtain m rest where mr: "mr = (m, rest)" by (cases mr)
  have "m \<noteq> Handshake p" for p using assms(2) [of p rest] Inr mr by auto
  then show ?thesis
    using assms(1) Inr mr iroh_write_phase [of env Pong Awaiting "conn\<lparr>ic_recv := rest\<rparr>"]
    by (cases m) (auto simp: iroh_read_def iroh_await_def bail_def)
qed

definition demo_conn :: "bytes \<Rightarrow> iroh_conn" where
  "demo_conn bs = \<lparr>ic_phase = Awaiting, ic_recv = bs,
     ic_send = \<lparr>bw_out = [], bw_room = 1000, bw_flush = True\<rparr>, ic_finished = False\<rparr>"

lemma demo_conn_simps [simp]: "ic_phase (demo_conn bs) = Awaiting" "ic_recv (demo_conn bs) = bs"
  by (simp_all add: demo_conn_def)

lemma demo_read_events: "read_frame demo_codec [0, 0, 0, 1, 2] = Ok (Events [demo_ev], [])"
proof -
  have "sendable demo_codec (Events [demo_ev])"
    by (rule sendableI [OF demo_codec_ok demo_encode(2)]) (simp add: max_frame_def)
  from fr.get_put [OF this, of "[]"] show ?thesis by (simp add: frame_bytes_def be32_def)
qed

theorem iroh_needs_handshake_witness:
  "snd (iroh_read (demo_senv 7) (demo_conn [0, 0, 0, 1, 2], demo_live demo_sys)) = demo_live demo_sys"
proof -
  have "read_frame (sn_codec (demo_senv 7)) (ic_recv (demo_conn [0, 0, 0, 1, 2])) \<noteq> Ok (Handshake p, rest)" for p rest
    by (simp add: demo_read_events)
  from iroh_needs_handshake [OF demo_conn_simps(1) this] show ?thesis by blast
qed

text \<open>
  An Iroh handshake of a client that is not approved opens nothing: sessions and bindings are
  unchanged, the connection ends, and the client is still not approved.
\<close>

theorem iroh_unapproved_handshake:
  assumes "env_ok J (env, IrohRead i)" and "\<not> admitted J st (hp_client_id p)"
  shows "let (conn', st') = iroh_handshake env p (conn, st) in
    sv_sessions st' = sv_sessions st \<and> sv_clients st' = sv_clients st \<and>
    (\<exists>r. ic_phase conn' = Closed r) \<and> \<not> admitted J st' (hp_client_id p)"
proof -
  obtain conn' st' where eq: "iroh_handshake env p (conn, st) = (conn', st')" by (cases "iroh_handshake env p (conn, st)")
  have c: "\<not> fst (daemon_query env (hp_client_id p) st)"
    using daemon_query_admits [OF assms(1)] assms(2) by simp
  have "\<exists>r. ic_phase conn' = Closed r"
    using eq c iroh_write_phase [of env "ack env PendingApproval (pending_text (hp_client_id p))" "Closed (Ok ())" conn]
    by (auto simp: iroh_handshake_def Let_def daemon_query_eq iroh_finish_def split: if_splits)
  moreover have "sv_trust st' = foldl trust_sys_step (sv_trust st) (knock_trace st env p ''Iroh P2P'')"
    using iroh_handshake_trust [of env p conn st] eq by simp
  then have "\<not> admitted J st' (hp_client_id p)"
    using assms knock_trace_admits [of J env st p "''Iroh P2P''"] by (simp add: admitted_def [of J st'] env_ok_def)
  moreover have "sv_sessions st' = sv_sessions st" "sv_clients st' = sv_clients st"
    using iroh_handshake_parts(1,3) [OF assms(1), of p conn st] assms(2) eq by simp_all
  ultimately show ?thesis by (simp add: eq)
qed

theorem iroh_unapproved_handshake_witness:
  "let (conn', st') = iroh_handshake (demo_senv 7) demo_hs (demo_conn [], demo_server (Text ''W'')) in
    sv_sessions st' = fmempty \<and> (\<exists>r. ic_phase conn' = Closed r)"
proof -
  have "\<not> admitted (te_from_json demo_env) (demo_server (Text ''W'')) (hp_client_id demo_hs)"
    using demo_admitted(2) by simp
  from iroh_unapproved_handshake [OF demo_senv_ok this, of 7 "demo_conn []"] show ?thesis
    by (auto split: prod.splits)
qed

text \<open>
  Both transports treat a handshake alike: for the same state, environment and payload, the
  UDP handler and the Iroh handler leave the same sessions.
\<close>

theorem transports_agree:
  "sv_sessions (udp_handshake env src p st) = sv_sessions (snd (iroh_handshake env p (conn, st)))"
  by (auto simp: udp_handshake_def iroh_handshake_def Let_def daemon_query_eq daemon_register_eq
      split: prod.splits session_outcome.splits failure.splits)

section \<open>A stream of frames\<close>

lemma iroh_serve_stop: "ic_recv (fst (iroh_read (envs n) cs)) = ic_recv (fst cs) \<Longrightarrow> iroh_serve envs n cs = iroh_read (envs n) cs"
  by (subst iroh_serve.simps) (simp add: Let_def)

lemma iroh_serve_more:
  "length (ic_recv (fst (iroh_read (envs n) cs))) < length (ic_recv (fst cs)) \<Longrightarrow>
   iroh_serve envs n cs = iroh_serve envs (Suc n) (iroh_read (envs n) cs)"
  by (subst iroh_serve.simps) (simp add: Let_def)

lemma read_frame_empty: "\<exists>e. read_frame c [] = Inl e"
  by (simp add: read_frame_def early_eof_def)

lemma iroh_read_eof:
  "ic_phase conn = Established key \<Longrightarrow> ic_recv conn = [] \<Longrightarrow>
   iroh_read env (conn, st) = (conn\<lparr>ic_phase := Closed (Ok ())\<rparr>, st)"
  using read_frame_empty [of "sn_codec env"] by (auto simp: iroh_read_def)

lemma iroh_read_events:
  assumes "ic_phase conn = Established key" and "sendable (sn_codec env) (Events evs)"
    and "ic_recv conn = frame_bytes (sn_codec env) (Events evs) @ rest"
    and "fmlookup (sv_sessions st) key = Some s"
  shows "iroh_read env (conn, st) =
    (conn\<lparr>ic_recv := rest\<rparr>, st\<lparr>sv_sessions := fmupd key (replay env evs s) (sv_sessions st)\<rparr>)"
  using assms by (simp add: iroh_read_def fr.get_put iroh_established_def session_events_def)

lemma iroh_serve_events:
  assumes "\<forall>n. sn_codec (envs n) = c \<and> ui_emit (sn_uinput (envs n)) = None"
    and "\<forall>b \<in> set batches. sendable c (Events b)"
  shows "ic_phase conn = Established key \<Longrightarrow>
    ic_recv conn = concat (map (frame_bytes c) (map Events batches)) \<Longrightarrow>
    fmlookup (sv_sessions st) key = Some s \<Longrightarrow>
    ic_phase (fst (iroh_serve envs n (conn, st))) = Closed (Ok ()) \<and>
    (\<exists>s'. fmlookup (sv_sessions (snd (iroh_serve envs n (conn, st)))) key = Some s' \<and>
       vo_log (se_vdev s') = vo_log (se_vdev s) @ map (map to_input_event) (filter (\<lambda>b. b \<noteq> []) batches) \<and>
       vo_config (se_vdev s') = vo_config (se_vdev s))"
  using assms(2)
proof (induction batches arbitrary: conn st s n)
  case Nil
  then show ?case by (simp add: iroh_serve_stop iroh_read_eof)
next
  case (Cons b batches)
  let ?rest = "concat (map (frame_bytes c) (map Events batches))"
  have env: "sn_codec (envs n) = c" "ui_emit (sn_uinput (envs n)) = None" using assms(1) by simp_all
  have snd: "sendable c (Events b)" and rest: "\<forall>b \<in> set batches. sendable c (Events b)" using Cons.prems by simp_all
  let ?conn = "conn\<lparr>ic_recv := ?rest\<rparr>"
    and ?st = "st\<lparr>sv_sessions := fmupd key (replay (envs n) b s) (sv_sessions st)\<rparr>"
  have r: "iroh_read (envs n) (conn, st) = (?conn, ?st)"
    using Cons.prems snd env by (intro iroh_read_events) simp_all
  have "length (ic_recv (fst (iroh_read (envs n) (conn, st)))) < length (ic_recv conn)"
    using Cons.prems(2) fr.put_nonempty [OF snd] by (simp add: r)
  then have eq: "iroh_serve envs n (conn, st) = iroh_serve envs (Suc n) (?conn, ?st)"
    by (subst iroh_serve_more) (simp_all add: r)
  have l: "fmlookup (sv_sessions ?st) key = Some (replay (envs n) b s)" by simp
  from Cons.IH [of ?conn ?st "replay (envs n) b s" "Suc n", OF _ _ l rest] Cons.prems(1) env(2)
  show ?case unfolding eq by (cases "b = []") (auto simp: emit_cases)
qed

text \<open>
  End to end: what a client writes with \<open>write_frames\<close> as a sequence of \<open>Events\<close> messages on
  an established Iroh stream, the server replays on the session's device: batch by batch, in
  order, each event unchanged, empty batches left out, nothing else; and when the stream ends the
  connection ends cleanly and the device stays.
\<close>

theorem iroh_stream_replayed:
  assumes "codec_ok c" and "\<forall>n. sn_codec (envs n) = c \<and> ui_emit (sn_uinput (envs n)) = None"
    and "write_frames c (map Events batches) w = (Ok (), w')"
    and "\<forall>b \<in> set batches. \<forall>bs. message_encode c (Events b) = Ok bs \<longrightarrow> length bs \<le> max_frame"
    and "ic_phase conn = Established key" and "ic_recv conn = drop (length (bw_out w)) (bw_out w')"
    and "fmlookup (sv_sessions st) key = Some s"
  shows "ic_phase (fst (iroh_serve envs n (conn, st))) = Closed (Ok ()) \<and>
    (\<exists>s'. fmlookup (sv_sessions (snd (iroh_serve envs n (conn, st)))) key = Some s' \<and>
       vo_log (se_vdev s') = vo_log (se_vdev s) @ map (map to_input_event) (filter (\<lambda>b. b \<noteq> []) batches) \<and>
       vo_config (se_vdev s') = vo_config (se_vdev s))"
proof -
  from write_frames_out [OF assms(3)]
  have out: "ic_recv conn = concat (map (frame_bytes c) (map Events batches))"
    and enc: "\<forall>b \<in> set batches. \<exists>bs. message_encode c (Events b) = Ok bs" using assms(6) by auto
  from enc have "\<forall>b \<in> set batches. sendable c (Events b)"
    using assms(1,4) by (meson sendableI)
  from iroh_serve_events [OF assms(2) this assms(5) out assms(7)] show ?thesis .
qed

theorem iroh_stream_replayed_witness:
  "\<exists>s'. fmlookup (sv_sessions (snd (iroh_serve (\<lambda>n. demo_senv n) 0
      ((demo_conn [0, 0, 0, 1, 2, 0, 0, 0, 1, 2])\<lparr>ic_phase := Established ''c1:Pad''\<rparr>, demo_live demo_sys)))) ''c1:Pad''
      = Some s' \<and> vo_log (se_vdev s') = [[to_input_event demo_ev], [to_input_event demo_ev]]"
proof -
  let ?w = "\<lparr>bw_out = [], bw_room = 100, bw_flush = True\<rparr>"
  let ?w' = "\<lparr>bw_out = [0, 0, 0, 1, 2, 0, 0, 0, 1, 2], bw_room = 90, bw_flush = True\<rparr>"
  let ?conn = "(demo_conn [0, 0, 0, 1, 2, 0, 0, 0, 1, 2])\<lparr>ic_phase := Established ''c1:Pad''\<rparr>"
  have env: "\<forall>n. sn_codec (demo_senv n) = demo_codec \<and> ui_emit (sn_uinput (demo_senv n)) = None"
    by (simp add: demo_uinput_def)
  have wr: "write_frames demo_codec (map Events [[demo_ev], [demo_ev]]) ?w = (Ok (), ?w')"
    by (simp add: write_frame_Ok [where bs = "[2]"] frame_bytes_def be32_def)
  have len: "\<forall>b \<in> set [[demo_ev], [demo_ev]]. \<forall>bs. message_encode demo_codec (Events b) = Ok bs \<longrightarrow>
      length bs \<le> max_frame" by (simp add: max_frame_def)
  have c: "ic_phase ?conn = Established ''c1:Pad''" "ic_recv ?conn = drop (length (bw_out ?w)) (bw_out ?w')"
    by (simp_all add: demo_conn_def)
  have s: "fmlookup (sv_sessions (demo_live demo_sys)) ''c1:Pad'' = Some demo_entry" by (simp add: demo_live_def)
  from iroh_stream_replayed [OF demo_codec_ok env wr len c s, of 0] show ?thesis
    by (auto simp: demo_entry_def)
qed

section \<open>Session names\<close>

lemma split_at_separator:
  "a @ x # c = b @ x # d \<Longrightarrow> x \<notin> set a \<Longrightarrow> x \<notin> set b \<Longrightarrow> a = b \<and> c = d"
proof (induction a arbitrary: b)
  case Nil
  then show ?case by (cases b) auto
next
  case (Cons y a)
  then show ?case by (cases b) auto
qed

text \<open>
  Sessions of different clients are kept apart when client ids have no colon, as the generated
  ones do not: equal session keys then mean the same client id and the same device.
\<close>

theorem session_key_injective:
  assumes "CHR 0x3A \<notin> set (hp_client_id p)" and "CHR 0x3A \<notin> set (hp_client_id q)"
    and "session_key p = session_key q"
  shows "hp_client_id p = hp_client_id q \<and> device_id_str p = device_id_str q"
proof -
  have "hp_client_id p @ CHR 0x3A # device_id_str p = hp_client_id q @ CHR 0x3A # device_id_str q"
    using assms(3) by (simp add: session_key_def)
  from split_at_separator [OF this assms(1,2)] show ?thesis .
qed

theorem session_key_injective_witness:
  "hp_client_id demo_hs = hp_client_id (demo_hs\<lparr>hp_device_id := Some ''Pad''\<rparr>) \<and>
   device_id_str demo_hs = device_id_str (demo_hs\<lparr>hp_device_id := Some ''Pad''\<rparr>)"
  by (rule session_key_injective) (simp_all add: session_key_def device_id_str_def demo_hs_def demo_meta_def)

text \<open>The server does not check client ids: with a colon in one, two clients share a session.\<close>

lemma session_key_collision:
  "\<exists>p q. hp_client_id p \<noteq> hp_client_id q \<and> session_key p = session_key q"
proof (intro exI conjI)
  let ?p = "demo_hs\<lparr>hp_client_id := ''a:b'', hp_device_id := Some ''c''\<rparr>"
  let ?q = "demo_hs\<lparr>hp_client_id := ''a'', hp_device_id := Some ''b:c''\<rparr>"
  show "hp_client_id ?p \<noteq> hp_client_id ?q" by (simp add: demo_hs_def)
  show "session_key ?p = session_key ?q" by (simp add: session_key_def device_id_str_def demo_hs_def)
qed

end
