(* ===== verification/EndToEnd.thy ===== *)
theory EndToEnd
  imports ClientFlow ServerIroh
begin

text \<open>
  Client and server together over Direct UDP, on a network that delivers the datagrams of one
  client in order: the handshake brings both into the same session, and from then on the
  virtual device receives what the physical device produced.
\<close>

section \<open>Input events\<close>

lemma event_message_roundtrip:
  "event_message ev = Events evs \<Longrightarrow> map to_input_event evs = [ev]"
  by (cases ev) (auto simp: event_message_def to_input_event_def)

fun input_events :: "client_input \<Rightarrow> input_event list" where
  "input_events (StreamEvent (Some (Inr ev))) = [ev]"
| "input_events _ = []"

lemma forwarded_cases:
  obtains "forwarded inp = []" "input_events inp = []"
  | "forwarded inp = [Ping]" "input_events inp = []"
  | ev where "forwarded inp = [event_message ev]" "input_events inp = [ev]"
  by (cases inp rule: forwarded.cases) auto

text \<open>The server's inputs when the datagrams arrive one after the other from one address.\<close>

definition arrivals :: "(nat \<Rightarrow> server_env) \<Rightarrow> socket_addr \<Rightarrow> nat \<Rightarrow> bytes list \<Rightarrow> (server_env \<times> server_input) list" where
  "arrivals envs src n dgs = map (\<lambda>(k, bs). (envs k, UdpDatagram src bs)) (List.enumerate n dgs)"

lemma arrivals_simps [simp]:
  "arrivals envs src n [] = []"
  "arrivals envs src n (bs # dgs) = (envs n, UdpDatagram src bs) # arrivals envs src (Suc n) dgs"
  by (simp_all add: arrivals_def)

lemma arrivals_append:
  "arrivals envs src n (xs @ ys) = arrivals envs src n xs @ arrivals envs src (n + length xs) ys"
  by (induction xs arbitrary: n) simp_all

definition live_at :: "server_state \<Rightarrow> socket_addr \<Rightarrow> string \<Rightarrow> virtual_output \<Rightarrow> bool" where
  "live_at st src key vo \<longleftrightarrow> sv_udp st \<and> fmlookup (sv_clients st) src = Some key \<and>
     (\<exists>s. fmlookup (sv_sessions st) key = Some s \<and> se_vdev s = vo)"

lemma live_ping:
  assumes "live_at st src key vo" and "message_decode (sn_codec env) bs = Ok Ping"
  shows "live_at (server_step st (env, UdpDatagram src bs)) src key vo"
  using assms by (auto simp: live_at_def udp_datagram_def udp_ping_def session_ping_def)

lemma live_events:
  assumes "live_at st src key vo" and "message_decode (sn_codec env) bs = Ok (event_message ev)"
    and "ui_emit (sn_uinput env) = None"
  shows "live_at (server_step st (env, UdpDatagram src bs)) src key (vo\<lparr>vo_log := vo_log vo @ [[ev]]\<rparr>)"
proof -
  obtain evs where evs: "event_message ev = Events evs" by (simp add: event_message_def)
  from event_message_roundtrip [OF this] have m: "map to_input_event evs = [ev]" "evs \<noteq> []" by auto
  show ?thesis
    using assms m by (auto simp: live_at_def evs udp_datagram_def udp_events_def session_events_def emit_cases)
qed

lemma live_input:
  assumes "live_at st src key vo" and "codec_ok c" and "cn_codec (fst e) = c"
    and "udp_can_send (fst e) (snd e)" and "\<forall>n. sn_codec (envs n) = c \<and> ui_emit (sn_uinput (envs n)) = None"
  shows "live_at (server_run st (arrivals envs src n (encoded e))) src key
    (vo\<lparr>vo_log := vo_log vo @ map (\<lambda>ev. [ev]) (input_events (snd e))\<rparr>)"
proof (cases rule: forwarded_cases [of "snd e"])
  case 1
  then show ?thesis using assms(1) by (simp add: encoded_def server_run_def)
next
  case 2
  with assms(3,4) obtain bs where bs: "message_encode c Ping = Ok bs" by (auto simp: udp_can_send_def is_ok_iff)
  have "message_decode (sn_codec (envs n)) bs = Ok Ping" using codec_okD [OF assms(2) bs] assms(5) by simp
  with live_ping [OF assms(1)] 2 bs assms(3) show ?thesis by (simp add: encoded_def server_run_def del: server_step.simps)
next
  case (3 ev)
  with assms(3,4) obtain bs where bs: "message_encode c (event_message ev) = Ok bs"
    by (auto simp: udp_can_send_def is_ok_iff)
  have "message_decode (sn_codec (envs n)) bs = Ok (event_message ev)"
    using codec_okD [OF assms(2) bs] assms(5) by simp
  with live_events [OF assms(1)] 3 bs assms(3,5) show ?thesis
    by (simp add: encoded_def server_run_def del: server_step.simps)
qed

lemma live_inputs:
  assumes "codec_ok c" and "\<forall>n. sn_codec (envs n) = c \<and> ui_emit (sn_uinput (envs n)) = None"
  shows "live_at st src key vo \<Longrightarrow> \<forall>e \<in> set es. cn_codec (fst e) = c \<and> udp_can_send (fst e) (snd e) \<Longrightarrow>
    live_at (server_run st (arrivals envs src n (concat (map encoded es)))) src key
      (vo\<lparr>vo_log := vo_log vo @ map (\<lambda>ev. [ev]) (concat (map (input_events \<circ> snd) es))\<rparr>)"
proof (induction es arbitrary: st vo n)
  case Nil
  then show ?case by (simp add: server_run_def)
next
  case (Cons e es)
  let ?st = "server_run st (arrivals envs src n (encoded e))"
  have "live_at ?st src key (vo\<lparr>vo_log := vo_log vo @ map (\<lambda>ev. [ev]) (input_events (snd e))\<rparr>)"
    using Cons.prems live_input [OF Cons.prems(1) assms(1) _ _ assms(2)] by simp
  from Cons.IH [OF this, of "n + length (encoded e)"] Cons.prems(2) show ?case
    by (simp add: arrivals_append server_run_def)
qed

text \<open>
  C7. End to end over Direct UDP: when a client streams a device to a server that has its address
  bound to a live session, then after any mixture of input events, keepalives and received
  datagrams, with every datagram delivered in order, the virtual device has received exactly the
  events that the physical device produced, one batch each, in order and unchanged, and it is
  still the session's device.
\<close>

theorem udp_end_to_end:
  assumes "codec_ok c" and "\<forall>n. sn_codec (envs n) = c \<and> ui_emit (sn_uinput (envs n)) = None"
    and "cl_phase cst = Streaming rd (Some d)" and "cl_sent cst = []"
    and "\<forall>e \<in> set es. stays_open (snd e) \<and> cn_codec (fst e) = c \<and> udp_can_send (fst e) (snd e)"
    and "sv_udp st" and "bound st (UdpPeer src) = Some key" and "fmlookup (sv_sessions st) key = Some s"
  shows "\<exists>s'. fmlookup (sv_sessions (server_run st (arrivals envs src 0
        (cl_sent (foldl (udp_client_step args) cst es))))) key = Some s' \<and>
      vo_log (se_vdev s') = vo_log (se_vdev s) @ map (\<lambda>ev. [ev]) (concat (map (input_events \<circ> snd) es)) \<and>
      vo_config (se_vdev s') = vo_config (se_vdev s)"
proof -
  have "live_at st src key (se_vdev s)" using assms(6-8) by (simp add: live_at_def)
  from live_inputs [OF assms(1,2) this, of es 0] assms(5)
  have "live_at (server_run st (arrivals envs src 0 (concat (map encoded es)))) src key
    ((se_vdev s)\<lparr>vo_log := vo_log (se_vdev s) @ map (\<lambda>ev. [ev]) (concat (map (input_events \<circ> snd) es))\<rparr>)" by simp
  moreover have "cl_sent (foldl (udp_client_step args) cst es) = concat (map encoded es)"
    using assms(4,5) by (subst udp_stream_run [OF assms(3)]) auto
  ultimately show ?thesis by (auto simp: live_at_def)
qed

theorem udp_end_to_end_witness:
  "\<exists>s'. fmlookup (sv_sessions (server_run (demo_live demo_sys) (arrivals (\<lambda>n. demo_senv n) demo_addr 0
       (cl_sent (foldl (udp_client_step demo_args) demo_cstate
          [(demo_cenv [], StreamEvent (Some (Ok demo_ie))), (demo_cenv [], KeepaliveTick),
           (demo_cenv [], Received (Ok [4])), (demo_cenv [], StreamEvent (Some (Ok demo_ie)))]))))) ''c1:Pad'' = Some s' \<and>
     vo_log (se_vdev s') = [[demo_ie], [demo_ie]]"
proof -
  let ?es = "[(demo_cenv [], StreamEvent (Some (Ok demo_ie))), (demo_cenv [], KeepaliveTick),
    (demo_cenv [], Received (Ok [4])), (demo_cenv [], StreamEvent (Some (Ok demo_ie)))]"
  have env: "\<forall>n. sn_codec (demo_senv n) = demo_codec \<and> ui_emit (sn_uinput (demo_senv n)) = None"
    by (simp add: demo_uinput_def)
  have ph: "cl_phase demo_cstate = Streaming demo_rd (Some demo_pad)" "cl_sent demo_cstate = []"
    by (simp_all add: demo_cstate_def)
  have es: "\<forall>e \<in> set ?es. stays_open (snd e) \<and> cn_codec (fst e) = demo_codec \<and> udp_can_send (fst e) (snd e)"
    by (simp add: udp_can_send_def)
  have st: "sv_udp (demo_live demo_sys)" "bound (demo_live demo_sys) (UdpPeer demo_addr) = Some ''c1:Pad''"
    "fmlookup (sv_sessions (demo_live demo_sys)) ''c1:Pad'' = Some demo_entry" by (simp_all add: demo_live_def)
  from udp_end_to_end [OF demo_codec_ok env ph es st, of demo_args] show ?thesis
    by (auto simp: demo_entry_def)
qed

section \<open>The handshake of both ends\<close>

text \<open>
  Handshake end to end over Direct UDP: when a waiting client opens its device, the server
  admits the client's id and has no session for it yet, and device creation succeeds, then the
  client's datagram makes the server create a virtual device from the metadata of the physical
  one, bind the client's address to it and answer; and the client, receiving that answer, starts
  streaming the device it opened.
\<close>

theorem udp_handshake_end_to_end:
  assumes "codec_ok c" and "cn_codec cenv = c" and "sn_codec senv = c" and "cn_send_err cenv = None"
    and "cn_stream_err cenv = None" and "cl_phase cst = WaitDevice" and "cl_sent cst = []"
    and "try_open_initial_device cenv (cl_selection cst) = (Some (d, path), sel)"
    and "message_encode c (handshake_message cenv (ca_client_id args) (extract_metadata d) path) = Ok hello"
    and "message_encode c (HandshakeAck Approved (sn_hostname senv) ''Connection authorized'') = Ok reply"
    and "env_ok J (senv, UdpDatagram src hello)" and "sv_udp st" and "admitted J st (ca_client_id args)"
    and "creatable (sn_uinput senv) (extract_metadata d)"
    and "fmlookup (sv_sessions st) (ca_client_id args @ '':'' @ path) = None"
  shows "let cst1 = udp_client_step args cst (cenv, DeviceTick);
             st1 = server_step st (senv, UdpDatagram src hello)
         in cl_sent cst1 = [hello] \<and> sv_sent st1 = sv_sent st @ [(reply, src)] \<and>
            bound st1 (UdpPeer src) = Some (ca_client_id args @ '':'' @ path) \<and>
            (\<exists>s. fmlookup (sv_sessions st1) (ca_client_id args @ '':'' @ path) = Some s \<and> vo_log (se_vdev s) = [] \<and>
               uc_id (vo_config (se_vdev s)) = dv_input_id d \<and>
               uc_abs (vo_config (se_vdev s)) = extract_abs_axes d) \<and>
            cl_phase (udp_client_step args cst1 (cenv, Received (Ok reply))) =
              Streaming (reconnecting_new path (extract_metadata d)) (Some d)"
proof -
  let ?p = "\<lparr>hp_client_id = ca_client_id args, hp_client_hostname = cn_hostname cenv,
    hp_metadata = extract_metadata d, hp_device_id = Some path\<rparr>"
  let ?key = "ca_client_id args @ '':'' @ path"
  have key: "session_key ?p = ?key" by (simp add: session_key_def device_id_str_def)
  have hello: "message_decode (sn_codec senv) hello = Ok (Handshake ?p)"
    using codec_okD [OF assms(1,9)] assms(3) by (simp add: handshake_message_def)
  have reply: "message_decode (cn_codec cenv) reply = Ok (HandshakeAck Approved (sn_hostname senv) ''Connection authorized'')"
    using codec_okD [OF assms(1,10)] assms(2) by simp
  have c1: "udp_client_step args cst (cenv, DeviceTick) =
      cst\<lparr>cl_selection := sel, cl_phase := WaitAck d path, cl_sent := [hello]\<rparr>"
    using assms(2,4,6-9) by (simp add: udp_client_step_def udp_client_wait_def udp_client_send_def)
  obtain n where os: "open_session senv ?p (sv_sessions st) = (Created, fmupd ?key
     \<lparr>se_vdev = \<lparr>vo_name = n, vo_config = config_of (extract_metadata d) n, vo_log = []\<rparr>,
      se_last_active = sn_now senv, se_client_hostname = cn_hostname cenv\<rparr> (sv_sessions st))"
    using open_session_new [of senv ?p "sv_sessions st"] assms(14,15) by (auto simp: key)
  have adm: "admitted J st (hp_client_id ?p)" using assms(13) by simp
  have "server_step st (senv, UdpDatagram src hello) = udp_handshake senv src ?p st"
    using assms(12) hello by (simp add: udp_datagram_def)
  note s1 = this [unfolded udp_handshake_opened [OF assms(11) adm os disjI2 [OF refl]]]
  have enc: "message_encode (sn_codec senv) (ack senv Approved ''Connection authorized'') = Ok reply"
    using assms(3,10) by (simp add: ack_def)
  have "cl_phase (udp_client_step args (cst\<lparr>cl_selection := sel, cl_phase := WaitAck d path, cl_sent := [hello]\<rparr>)
      (cenv, Received (Ok reply))) = Streaming (reconnecting_new path (extract_metadata d)) (Some d)"
    using assms(5) reply by (simp add: udp_client_step_def udp_client_ack_def on_ack_def start_streaming_def)
  moreover have "uc_id (config_of (extract_metadata d) n) = dv_input_id d"
    "uc_abs (config_of (extract_metadata d) n) = extract_abs_axes d"
    by (simp_all add: config_of_def extract_metadata_def)
  ultimately show ?thesis
    unfolding Let_def c1 s1 by (simp add: udp_send_def enc key)
qed

definition demo_hello_env :: client_env where
  "demo_hello_env = (demo_cenv [(''/dev/input/event3'', demo_pad)])\<lparr>cn_codec := table_codec
     [(handshake_message (demo_cenv []) ''c1'' (extract_metadata demo_pad) ''/dev/input/event3'', [1]),
      (HandshakeAck Approved ''desk'' ''Connection authorized'', [5])]\<rparr>"

lemma demo_hello_simps [simp]:
  "cn_send_err demo_hello_env = None" "cn_stream_err demo_hello_env = None"
  "cn_hostname demo_hello_env = ''laptop''" "cn_hostname (demo_cenv ds) = ''laptop''"
  by (simp_all add: demo_hello_env_def demo_cenv_def)

theorem udp_handshake_end_to_end_witness:
  "cl_phase (udp_client_step demo_args (udp_client_step demo_args demo_iroh_start (demo_hello_env, DeviceTick))
      (demo_hello_env, Received (Ok [5]))) = Streaming demo_rd (Some demo_pad)"
proof -
  let ?c = "cn_codec demo_hello_env"
  let ?senv = "(demo_senv 7)\<lparr>sn_codec := ?c\<rparr>"
  have c: "codec_ok ?c" unfolding demo_hello_env_def by (simp add: table_codec_ok)
  have opn: "try_open_initial_device demo_hello_env (cl_selection demo_iroh_start) =
      (Some (demo_pad, ''/dev/input/event3''), cl_selection demo_iroh_start)"
    by (simp add: try_open_initial_device_def demo_iroh_start_def demo_cstate_def demo_hello_env_def demo_cenv_def)
  have hello: "message_encode ?c (handshake_message demo_hello_env (ca_client_id demo_args)
      (extract_metadata demo_pad) ''/dev/input/event3'') = Ok [1]"
    by (simp add: demo_args_def handshake_message_def) (simp add: demo_hello_env_def message_encode_def
        table_codec_def handshake_message_def)
  have reply: "message_encode ?c (HandshakeAck Approved (sn_hostname ?senv) ''Connection authorized'') = Ok [5]"
    by (simp add: demo_hello_env_def message_encode_def table_codec_def handshake_message_def)
  have start: "cl_phase demo_iroh_start = WaitDevice" "cl_sent demo_iroh_start = []"
    by (simp_all add: demo_iroh_start_def demo_cstate_def)
  have ok: "env_ok (te_from_json demo_env) (?senv, UdpDatagram demo_addr [1])" by (simp add: env_ok_def)
  have adm: "admitted (te_from_json demo_env) (demo_server (Text ''G'')) (ca_client_id demo_args)"
    by (simp add: demo_admitted demo_args_def)
  from udp_handshake_end_to_end [OF c refl _ _ _ start opn hello reply ok _ adm] show ?thesis
    by (simp add: Let_def demo_creatable demo_rd_def)
qed

end
