(* ===== verification/IrohEndToEnd.thy ===== *)
theory IrohEndToEnd
  imports EndToEnd
begin

text \<open>
  Client and server together over an Iroh connection, whose stream is reliable and ordered:
  what a streaming client writes, the server's connection reads frame by frame, replays the
  events and answers the keepalives.
\<close>

section \<open>What the client writes\<close>

definition writes_encoded :: "client_env \<Rightarrow> client_input \<Rightarrow> bool" where
  "writes_encoded env inp \<longleftrightarrow> list_all (\<lambda>m. is_ok (message_encode (cn_codec env) m)) (forwarded inp)"

lemma iroh_client_send_cases:
  obtains e where "cl_phase (iroh_client_send env m st) = Done (Err e)"
  | "cl_phase (iroh_client_send env m st) = cl_phase st"
    "bw_out (cl_writer (iroh_client_send env m st)) =
      bw_out (cl_writer st) @ frame_bytes (cn_codec env) m"
    "is_ok (message_encode (cn_codec env) m)"
proof (cases "write_frame (cn_codec env) m (cl_writer st)")
  case (Pair r w)
  show ?thesis
  proof (cases r)
    case (Inl e)
    with Pair have "cl_phase (iroh_client_send env m st) = Done (Err e)"
      by (simp add: iroh_client_send_def finish_with_def)
    then show ?thesis by (rule that(1))
  next
    case (Inr u)
    then have "write_frame (cn_codec env) m (cl_writer st) = (Ok (), w)" using Pair by simp
    from write_frame_OkD [OF this] have "bw_out w = bw_out (cl_writer st) @ frame_bytes (cn_codec env) m"
      "is_ok (message_encode (cn_codec env) m)" by (metis, auto simp: is_ok_iff)
    then show ?thesis using Pair Inr by (intro that(2)) (simp_all add: iroh_client_send_def)
  qed
qed

text \<open>A step of a streaming client fails for good, or it writes the frames of what it forwards.\<close>

lemma iroh_stream_step:
  assumes "cl_phase st = Streaming rd (Some d)" and "stays_open (snd e)"
  shows "(\<exists>r. cl_phase (iroh_client_step args st e) = Done r) \<or>
    cl_phase (iroh_client_step args st e) = Streaming rd (Some d) \<and>
    bw_out (cl_writer (iroh_client_step args st e)) =
      bw_out (cl_writer st) @ concat (map (frame_bytes (cn_codec (fst e))) (forwarded (snd e))) \<and>
    writes_encoded (fst e) (snd e)"
proof -
  obtain env inp where e: "e = (env, inp)" by (cases e)
  have snt: "?thesis" if "iroh_client_step args st e = iroh_client_send env m st" "forwarded inp = [m]" for m
    using assms(1) that e by (cases rule: iroh_client_send_cases [of env m st]) (auto simp: writes_encoded_def)
  show ?thesis
  proof (cases inp)
    case (StreamEvent r)
    with assms(2) e obtain ev where "r = Some (Inr ev)"
      by (cases r rule: option.exhaust; simp; cases "the r"; simp)
    then show ?thesis using assms(1) e StreamEvent
      by (intro snt) (simp_all add: iroh_client_step_def iroh_client_stream_def)
  next
    case KeepaliveTick
    then show ?thesis using assms(1) e
      by (intro snt) (simp_all add: iroh_client_step_def iroh_client_stream_def)
  qed (use assms(1) e in \<open>auto simp: iroh_client_step_def iroh_client_stream_def finish_with_def
        writes_encoded_def split: sum.split\<close>)
qed

lemma iroh_stream_run:
  assumes "cl_phase (foldl (iroh_client_step args) st es) = Streaming rd (Some d)"
  shows "cl_phase st = Streaming rd (Some d) \<Longrightarrow>
    \<forall>e \<in> set es. stays_open (snd e) \<and> cn_codec (fst e) = c \<Longrightarrow>
    bw_out (cl_writer (foldl (iroh_client_step args) st es)) =
      bw_out (cl_writer st) @ concat (map (frame_bytes c) (concat (map (forwarded \<circ> snd) es))) \<and>
    list_all (\<lambda>m. is_ok (message_encode c m)) (concat (map (forwarded \<circ> snd) es))"
  using assms
proof (induction es arbitrary: st)
  case (Cons e es)
  let ?st = "iroh_client_step args st e"
  have "\<nexists>r. cl_phase ?st = Done r"
    using Cons.prems(3) done_absorbs(2) [of ?st _ args es] by auto
  with iroh_stream_step [OF Cons.prems(1), of e args] Cons.prems(2)
  have "cl_phase ?st = Streaming rd (Some d)" "writes_encoded (fst e) (snd e)"
    "bw_out (cl_writer ?st) = bw_out (cl_writer st) @ concat (map (frame_bytes c) (forwarded (snd e)))"
    by auto
  with Cons.IH [of ?st] Cons.prems(2,3) show ?case by (simp add: writes_encoded_def)
qed simp

section \<open>What the server reads\<close>

text \<open>The messages of an established client: events, and keepalives that are answered.\<close>

fun replayed :: "message \<Rightarrow> input_event list list" where
  "replayed (Events evs) = (if evs = [] then [] else [map to_input_event evs])"
| "replayed _ = []"

definition client_message :: "codec \<Rightarrow> message \<Rightarrow> bool" where
  "client_message c m \<longleftrightarrow> sendable c m \<and> (m = Ping \<or> (\<exists>evs. m = Events evs))"

text \<open>A connection that reads for the session \<open>key\<close> and has room for \<open>n\<close> answers.\<close>

definition serving :: "string \<Rightarrow> nat \<Rightarrow> nat \<Rightarrow> iroh_conn \<Rightarrow> bool" where
  "serving key k n conn \<longleftrightarrow> ic_phase conn = Established key \<and>
     n * k \<le> bw_room (ic_send conn) \<and> bw_flush (ic_send conn)"

lemma iroh_read_message:
  assumes "client_message c m" and env: "sn_codec env = c" "ui_emit (sn_uinput env) = None"
    and pong: "message_encode c Pong = Ok pbs"
    and "serving key (4 + length pbs) (Suc n) conn" and recv: "ic_recv conn = frame_bytes c m @ rest"
    and s: "fmlookup (sv_sessions st) key = Some s"
  shows "\<exists>conn' st' s'. iroh_read env (conn, st) = (conn', st') \<and> ic_recv conn' = rest \<and>
    serving key (4 + length pbs) n conn' \<and>
    bw_out (ic_send conn') = bw_out (ic_send conn) @ (if m = Ping then frame_bytes c Pong else []) \<and>
    fmlookup (sv_sessions st') key = Some s' \<and>
    vo_log (se_vdev s') = vo_log (se_vdev s) @ replayed m \<and>
    vo_config (se_vdev s') = vo_config (se_vdev s)"
proof -
  have ph: "ic_phase conn = Established key" and room: "4 + length pbs \<le> bw_room (ic_send conn)"
    "n * (4 + length pbs) \<le> bw_room (ic_send conn) - (4 + length pbs)" "bw_flush (ic_send conn)"
    using assms(5) by (auto simp: serving_def)
  have read: "read_frame c (ic_recv conn) = Ok (m, rest)"
    using assms(1) recv by (simp add: client_message_def fr.get_put)
  consider "m = Ping" | evs where "m = Events evs" using assms(1) by (auto simp: client_message_def)
  then show ?thesis
  proof cases
    case 1
    have "iroh_read env (conn, st) =
        (conn\<lparr>ic_recv := rest, ic_send := (ic_send conn)\<lparr>bw_out := bw_out (ic_send conn) @ frame_bytes c Pong,
            bw_room := bw_room (ic_send conn) - (4 + length pbs)\<rparr>\<rparr>,
         st\<lparr>sv_sessions := fmupd key (touch (sn_now env) s) (sv_sessions st)\<rparr>)"
      using ph read env s room 1
      by (simp add: iroh_read_def iroh_established_def session_ping_def iroh_write_def
          write_frame_Ok [OF pong])
    with 1 ph room show ?thesis by (simp add: serving_def)
  next
    case (2 evs)
    have "iroh_read env (conn, st) =
        (conn\<lparr>ic_recv := rest\<rparr>, st\<lparr>sv_sessions := fmupd key (replay env evs s) (sv_sessions st)\<rparr>)"
      using assms(1) ph recv env s 2 by (intro iroh_read_events) (simp_all add: client_message_def)
    with 2 ph room env show ?thesis by (auto simp: serving_def emit_cases)
  qed
qed

lemma iroh_serve_messages:
  assumes env: "\<forall>n. sn_codec (envs n) = c \<and> ui_emit (sn_uinput (envs n)) = None"
    and pong: "message_encode c Pong = Ok pbs"
  shows "list_all (client_message c) ms \<Longrightarrow> serving key (4 + length pbs) (length ms) conn \<Longrightarrow>
    ic_recv conn = concat (map (frame_bytes c) ms) \<Longrightarrow> fmlookup (sv_sessions st) key = Some s \<Longrightarrow>
    \<exists>conn' st' s'. iroh_serve envs n (conn, st) = (conn', st') \<and> ic_phase conn' = Closed (Ok ()) \<and>
      bw_out (ic_send conn') = bw_out (ic_send conn) @
        concat (replicate (length (filter (\<lambda>m. m = Ping) ms)) (frame_bytes c Pong)) \<and>
      fmlookup (sv_sessions st') key = Some s' \<and>
      vo_log (se_vdev s') = vo_log (se_vdev s) @ concat (map replayed ms) \<and>
      vo_config (se_vdev s') = vo_config (se_vdev s)"
proof (induction ms arbitrary: conn st s n)
  case Nil
  then have "ic_phase conn = Established key" by (simp add: serving_def)
  with Nil show ?case by (simp add: iroh_serve_stop iroh_read_eof)
next
  case (Cons m ms)
  have m: "client_message c m" and ms: "list_all (client_message c) ms" using Cons.prems(1) by simp_all
  obtain conn1 st1 s1 where r: "iroh_read (envs n) (conn, st) = (conn1, st1)"
    and recv: "ic_recv conn1 = concat (map (frame_bytes c) ms)"
    and srv: "serving key (4 + length pbs) (length ms) conn1"
    and out: "bw_out (ic_send conn1) = bw_out (ic_send conn) @ (if m = Ping then frame_bytes c Pong else [])"
    and s1: "fmlookup (sv_sessions st1) key = Some s1"
    and log: "vo_log (se_vdev s1) = vo_log (se_vdev s) @ replayed m"
      "vo_config (se_vdev s1) = vo_config (se_vdev s)"
    using iroh_read_message [OF m _ _ pong, of "envs n" key "length ms" conn _ st s] env Cons.prems(2-4)
    by auto
  have "length (ic_recv (fst (iroh_read (envs n) (conn, st)))) < length (ic_recv conn)"
    using m Cons.prems(3) fr.put_nonempty [of c m] by (simp add: r recv client_message_def)
  then have eq: "iroh_serve envs n (conn, st) = iroh_serve envs (Suc n) (conn1, st1)"
    by (subst iroh_serve_more) (simp_all add: r)
  from Cons.IH [OF ms srv recv s1, of "Suc n"] out log show ?case
    unfolding eq by auto
qed

section \<open>Both ends\<close>

lemma replayed_forwarded: "concat (map replayed (forwarded inp)) = map (\<lambda>ev. [ev]) (input_events inp)"
proof (cases rule: forwarded_cases [of inp])
  case (3 ev)
  obtain evs where evs: "event_message ev = Events evs" by (simp add: event_message_def)
  from event_message_roundtrip [OF this] have "map to_input_event evs = [ev]" "evs \<noteq> []" by auto
  with 3 evs show ?thesis by simp
qed simp_all

lemma forwarded_kinds: "m \<in> set (forwarded inp) \<Longrightarrow> m = Ping \<or> (\<exists>evs. m = Events evs)"
  by (cases rule: forwarded_cases [of inp]) (auto simp: event_message_def)

text \<open>
  C8. End to end over Iroh: while a client streams a device on an established connection and its run
  does not end, whatever mixture of events, keepalives and received frames it takes, the bytes it
  has written make the server replay exactly the events that the physical device produced, one
  batch each, in order and unchanged, on the same device, and answer each keepalive with one
  \<open>Pong\<close>; when the stream ends, the connection ends cleanly.
\<close>

theorem iroh_end_to_end:
  assumes "codec_ok c" and "\<forall>n. sn_codec (envs n) = c \<and> ui_emit (sn_uinput (envs n)) = None"
    and "message_encode c Pong = Ok pbs"
    and "\<forall>e \<in> set es. \<forall>m \<in> set (forwarded (snd e)). \<forall>bs.
      message_encode c m = Ok bs \<longrightarrow> length bs \<le> max_frame"
    and "cl_phase cst = Streaming rd (Some d)" and "bw_out (cl_writer cst) = []"
    and "\<forall>e \<in> set es. stays_open (snd e) \<and> cn_codec (fst e) = c"
    and "cl_phase (foldl (iroh_client_step args) cst es) = Streaming rd (Some d)"
    and "ic_recv conn = bw_out (cl_writer (foldl (iroh_client_step args) cst es))"
    and "serving key (4 + length pbs) (length es) conn" and "fmlookup (sv_sessions st) key = Some s"
  shows "\<exists>conn' st' s'. iroh_serve envs 0 (conn, st) = (conn', st') \<and> ic_phase conn' = Closed (Ok ()) \<and>
    bw_out (ic_send conn') = bw_out (ic_send conn) @
      concat (replicate (length (filter (\<lambda>e. snd e = KeepaliveTick) es)) (frame_bytes c Pong)) \<and>
    fmlookup (sv_sessions st') key = Some s' \<and>
    vo_log (se_vdev s') = vo_log (se_vdev s) @ map (\<lambda>ev. [ev]) (concat (map (input_events \<circ> snd) es)) \<and>
    vo_config (se_vdev s') = vo_config (se_vdev s)"
proof -
  let ?ms = "concat (map (forwarded \<circ> snd) es)"
  from iroh_stream_run [OF assms(8,5,7)] assms(6,9)
  have recv: "ic_recv conn = concat (map (frame_bytes c) ?ms)"
    and enc: "list_all (\<lambda>m. is_ok (message_encode c m)) ?ms" by simp_all
  have "client_message c m" if "m \<in> set ?ms" for m
    using that enc assms(4) forwarded_kinds
    by (fastforce simp: client_message_def list_all_iff is_ok_iff intro: sendableI [OF assms(1)])
  then have ms: "list_all (client_message c) ?ms" by (simp add: list_all_iff)
  have one: "length (forwarded inp) \<le> 1" for inp
    by (cases rule: forwarded_cases [of inp]) simp_all
  have "length (concat (map (forwarded \<circ> snd) xs)) \<le> length xs" for xs :: "(client_env \<times> client_input) list"
  proof (induction xs)
    case (Cons e xs)
    with one [of "snd e"] show ?case by simp
  qed simp
  from mult_le_mono1 [OF this [of es], of "4 + length pbs"]
  have srv: "serving key (4 + length pbs) (length ?ms) conn"
    using assms(10) unfolding serving_def by linarith
  have "length (filter (\<lambda>m. m = Ping) (forwarded inp)) = (if inp = KeepaliveTick then 1 else 0)" for inp
    by (cases inp rule: forwarded.cases) (simp_all add: event_message_def)
  then have pings: "length (filter (\<lambda>m. m = Ping) ?ms) = length (filter (\<lambda>e. snd e = KeepaliveTick) es)"
    by (induction es) simp_all
  have logs: "concat (map replayed ?ms) = map (\<lambda>ev. [ev]) (concat (map (input_events \<circ> snd) es))"
    by (induction es) (simp_all add: replayed_forwarded)
  from iroh_serve_messages [OF assms(2,3) ms srv recv assms(11), of 0] show ?thesis
    by (simp only: pings logs)
qed

theorem iroh_end_to_end_witness:
  "\<exists>conn' st' s'. iroh_serve (\<lambda>n. demo_senv n) 0
      ((demo_conn (bw_out (cl_writer (foldl (iroh_client_step demo_args) demo_cstate
          [(demo_cenv [], StreamEvent (Some (Ok demo_ie))), (demo_cenv [], KeepaliveTick),
           (demo_cenv [], StreamEvent (Some (Ok demo_ie)))]))))\<lparr>ic_phase := Established ''c1:Pad''\<rparr>,
       demo_live demo_sys) = (conn', st') \<and>
     bw_out (ic_send conn') = [0, 0, 0, 1, 4] \<and>
     fmlookup (sv_sessions st') ''c1:Pad'' = Some s' \<and> vo_log (se_vdev s') = [[demo_ie], [demo_ie]]"
proof -
  let ?es = "[(demo_cenv [], StreamEvent (Some (Ok demo_ie))), (demo_cenv [], KeepaliveTick),
    (demo_cenv [], StreamEvent (Some (Ok demo_ie)))]"
  let ?cst = "foldl (iroh_client_step demo_args) demo_cstate ?es"
  let ?conn = "(demo_conn (bw_out (cl_writer ?cst)))\<lparr>ic_phase := Established ''c1:Pad''\<rparr>"
  have env: "\<forall>n. sn_codec (demo_senv n) = demo_codec \<and> ui_emit (sn_uinput (demo_senv n)) = None"
    by (simp add: demo_uinput_def)
  have pong: "message_encode demo_codec Pong = Ok [4]"
    by (simp add: demo_codec_def message_encode_def table_codec_def)
  have len: "\<forall>e \<in> set ?es. \<forall>m \<in> set (forwarded (snd e)). \<forall>bs.
      message_encode demo_codec m = Ok bs \<longrightarrow> length bs \<le> max_frame"
    by (simp add: max_frame_def)
  have start: "cl_phase demo_cstate = Streaming demo_rd (Some demo_pad)" "bw_out (cl_writer demo_cstate) = []"
    by (simp_all add: demo_cstate_def)
  have es: "\<forall>e \<in> set ?es. stays_open (snd e) \<and> cn_codec (fst e) = demo_codec" by simp
  have fin: "cl_phase ?cst = Streaming demo_rd (Some demo_pad)"
    by (simp add: iroh_client_step_def iroh_client_stream_def iroh_client_send_def demo_cstate_def
        write_frame_Ok [where bs = "[2]"] write_frame_Ok [where bs = "[3]"])
  have srv: "serving ''c1:Pad'' (4 + length [4 :: u8]) (length ?es) ?conn"
    by (simp add: serving_def demo_conn_def)
  have recv: "ic_recv ?conn = bw_out (cl_writer ?cst)" by (simp add: demo_conn_def)
  have live: "fmlookup (sv_sessions (demo_live demo_sys)) ''c1:Pad'' = Some demo_entry"
    by (simp add: demo_live_def)
  have "bw_out (ic_send ?conn) = []" by (simp add: demo_conn_def)
  with iroh_end_to_end [OF demo_codec_ok env pong len start es fin recv srv live] pong show ?thesis
    by (fastforce simp: demo_entry_def frame_bytes_def be32_def)
qed

section \<open>The handshake of both ends\<close>

definition room_for :: "byte_writer \<Rightarrow> bytes \<Rightarrow> bool" where
  "room_for w bs \<longleftrightarrow> 4 + length bs \<le> bw_room w \<and> bw_flush w \<and> length bs \<le> max_frame"

lemma write_frame_room:
  assumes "message_encode c m = Ok bs" and "room_for w bs"
  shows "\<exists>w'. write_frame c m w = (Ok (), w') \<and> bw_out w' = bw_out w @ frame_bytes c m"
  using assms by (simp add: room_for_def write_frame_Ok)

lemma read_frame_room:
  assumes "codec_ok c" and "message_encode c m = Ok bs" and "room_for w bs"
  shows "read_frame c (frame_bytes c m) = Ok (m, [])"
proof -
  have "sendable c m"
    using sendableI [OF assms(1,2)] assms(3) by (simp add: room_for_def)
  from fr.get_put [OF this, of "[]"] show ?thesis by simp
qed

text \<open>
  C16. Handshake end to end over Iroh: when a waiting client opens its device, the server admits the
  client's id and has no session for it yet, and device creation succeeds, then the frame that
  the client writes makes the server create a virtual device from the metadata of the physical
  one, take the connection into the main loop for that session and write an acknowledgement; and
  the client, reading that frame, starts streaming the device it opened.
\<close>

theorem iroh_handshake_end_to_end:
  assumes "codec_ok c" and "cn_codec cenv = c" and "sn_codec senv = c"
    and "cn_stream_err cenv = None" and "cl_phase cst = WaitDevice" and "bw_out (cl_writer cst) = []"
    and "try_open_initial_device cenv (cl_selection cst) = (Some (d, path), sel)"
    and "message_encode c (handshake_message cenv (ca_client_id args) (extract_metadata d) path) = Ok hello"
    and "message_encode c (HandshakeAck Approved (sn_hostname senv) ''Connection authorized'') = Ok reply"
    and "room_for (cl_writer cst) hello" and "room_for (ic_send conn) reply"
    and "ic_phase conn = Awaiting" and "bw_out (ic_send conn) = []"
    and "env_ok J (senv, inp)" and "admitted J st (ca_client_id args)"
    and "creatable (sn_uinput senv) (extract_metadata d)"
    and "fmlookup (sv_sessions st) (ca_client_id args @ '':'' @ path) = None"
  shows "let cst1 = iroh_client_step args cst (cenv, DeviceTick);
             (conn1, st1) = iroh_read senv (conn\<lparr>ic_recv := bw_out (cl_writer cst1)\<rparr>, st);
             cst2 = iroh_client_step args (cst1\<lparr>cl_recv := bw_out (ic_send conn1)\<rparr>) (cenv, FrameReady)
         in ic_phase conn1 = Established (ca_client_id args @ '':'' @ path) \<and> ic_recv conn1 = [] \<and>
            (\<exists>s. fmlookup (sv_sessions st1) (ca_client_id args @ '':'' @ path) = Some s \<and> vo_log (se_vdev s) = [] \<and>
               uc_id (vo_config (se_vdev s)) = dv_input_id d \<and>
               uc_abs (vo_config (se_vdev s)) = extract_abs_axes d) \<and>
            cl_phase cst2 = Streaming (reconnecting_new path (extract_metadata d)) (Some d) \<and>
            cl_recv cst2 = []"
proof -
  let ?p = "\<lparr>hp_client_id = ca_client_id args, hp_client_hostname = cn_hostname cenv,
    hp_metadata = extract_metadata d, hp_device_id = Some path\<rparr>"
  let ?key = "ca_client_id args @ '':'' @ path"
  let ?ack = "HandshakeAck Approved (sn_hostname senv) ''Connection authorized''"
  have key: "session_key ?p = ?key" by (simp add: session_key_def device_id_str_def)
  have hm: "handshake_message cenv (ca_client_id args) (extract_metadata d) path = Handshake ?p"
    by (simp add: handshake_message_def)
  obtain w where w: "write_frame c (Handshake ?p) (cl_writer cst) = (Ok (), w)"
    "bw_out w = frame_bytes c (Handshake ?p)"
    using write_frame_room [OF assms(8,10)] assms(6) hm by auto
  have c1: "iroh_client_step args cst (cenv, DeviceTick) =
      cst\<lparr>cl_selection := sel, cl_phase := WaitAck d path, cl_writer := w\<rparr>"
    using assms(2,5,7) w(1)
    by (simp add: iroh_client_step_def iroh_client_wait_def iroh_client_send_then_def
        iroh_client_send_def hm)
  obtain n where os: "open_session senv ?p (sv_sessions st) = (Created, fmupd ?key
     \<lparr>se_vdev = \<lparr>vo_name = n, vo_config = config_of (extract_metadata d) n, vo_log = []\<rparr>,
      se_last_active = sn_now senv, se_client_hostname = cn_hostname cenv\<rparr> (sv_sessions st))"
    (is "_ = (Created, ?ss)")
    using open_session_new [of senv ?p "sv_sessions st"] assms(16,17) by (auto simp: key)
  obtain w2 where w2: "write_frame c ?ack (ic_send conn) = (Ok (), w2)" "bw_out w2 = frame_bytes c ?ack"
    using write_frame_room [OF assms(9,11)] assms(13) by auto
  have query: "fst (daemon_query senv (hp_client_id ?p) st)"
    using daemon_query_admits [OF assms(14), of "hp_client_id ?p" st] assms(15) by simp
  then obtain st' where "daemon_query senv (hp_client_id ?p) st = (True, st')"
      and st': "sv_sessions st' = sv_sessions st"
    using daemon_query_eq [of senv "hp_client_id ?p" st] by auto
  moreover have "read_frame c (bw_out w) = Ok (Handshake ?p, [])"
    using read_frame_room [OF assms(1) assms(8) [unfolded hm]] assms(10) w(2) by simp
  ultimately have s1: "iroh_read senv (conn\<lparr>ic_recv := bw_out w\<rparr>, st) =
      (conn\<lparr>ic_recv := [], ic_send := w2, ic_phase := Established ?key\<rparr>, st'\<lparr>sv_sessions := ?ss\<rparr>)"
    using assms(3,12) os w2(1)
    by (simp add: iroh_read_def iroh_await_def iroh_handshake_def iroh_write_def ack_def key)
  have "read_frame c (bw_out w2) = Ok (?ack, [])"
    using read_frame_room [OF assms(1,9,11)] w2(2) by simp
  then have "cl_phase (iroh_client_step args (cst\<lparr>cl_selection := sel, cl_phase := WaitAck d path,
        cl_writer := w, cl_recv := bw_out w2\<rparr>) (cenv, FrameReady)) =
      Streaming (reconnecting_new path (extract_metadata d)) (Some d)"
    "cl_recv (iroh_client_step args (cst\<lparr>cl_selection := sel, cl_phase := WaitAck d path,
        cl_writer := w, cl_recv := bw_out w2\<rparr>) (cenv, FrameReady)) = []"
    using assms(2,4)
    by (simp_all add: iroh_client_step_def iroh_client_ack_def on_ack_def start_streaming_def)
  moreover have "uc_id (config_of (extract_metadata d) n) = dv_input_id d"
    "uc_abs (config_of (extract_metadata d) n) = extract_abs_axes d"
    by (simp_all add: config_of_def extract_metadata_def)
  ultimately show ?thesis
    unfolding Let_def c1 by (simp add: s1)
qed

theorem iroh_handshake_end_to_end_witness:
  "let cst = demo_iroh_start\<lparr>cl_recv := []\<rparr>; senv = (demo_senv 7)\<lparr>sn_codec := cn_codec demo_hello_env\<rparr>;
       cst1 = iroh_client_step demo_args cst (demo_hello_env, DeviceTick);
       (conn1, st1) = iroh_read senv ((demo_conn [])\<lparr>ic_recv := bw_out (cl_writer cst1)\<rparr>, demo_server (Text ''G''))
   in ic_phase conn1 = Established ''c1:/dev/input/event3''"
proof -
  let ?c = "cn_codec demo_hello_env" and ?cst = "demo_iroh_start\<lparr>cl_recv := []\<rparr>"
  let ?senv = "(demo_senv 7)\<lparr>sn_codec := ?c\<rparr>"
  have c: "codec_ok ?c" unfolding demo_hello_env_def by (simp add: table_codec_ok)
  have opn: "try_open_initial_device demo_hello_env (cl_selection ?cst) =
      (Some (demo_pad, ''/dev/input/event3''), cl_selection ?cst)"
    by (simp add: try_open_initial_device_def demo_iroh_start_def demo_cstate_def demo_hello_env_def demo_cenv_def)
  have hello: "message_encode ?c (handshake_message demo_hello_env (ca_client_id demo_args)
      (extract_metadata demo_pad) ''/dev/input/event3'') = Ok [1]"
    by (simp add: demo_args_def handshake_message_def) (simp add: demo_hello_env_def message_encode_def
        table_codec_def handshake_message_def)
  have reply: "message_encode ?c (HandshakeAck Approved (sn_hostname ?senv) ''Connection authorized'') = Ok [5]"
    by (simp add: demo_hello_env_def message_encode_def table_codec_def handshake_message_def)
  have start: "cl_phase ?cst = WaitDevice" "bw_out (cl_writer ?cst) = []"
    by (simp_all add: demo_iroh_start_def demo_cstate_def)
  have room: "room_for (cl_writer ?cst) [1]" "room_for (ic_send (demo_conn [])) [5]"
    by (simp_all add: room_for_def demo_iroh_start_def demo_cstate_def demo_conn_def max_frame_def)
  have conn: "bw_out (ic_send (demo_conn [])) = []" by (simp add: demo_conn_def)
  have ok: "env_ok (te_from_json demo_env) (?senv, Reap)" by (simp add: env_ok_def)
  have adm: "admitted (te_from_json demo_env) (demo_server (Text ''G'')) (ca_client_id demo_args)"
    by (simp add: demo_admitted demo_args_def)
  from iroh_handshake_end_to_end [OF c refl _ _ start opn hello reply room demo_conn_simps(1) conn ok adm]
  show ?thesis
    by (auto simp: Let_def demo_creatable demo_args_def)
qed

end
