(* ===== verification/KeyFile.thy ===== *)
theory KeyFile
  imports Server
begin

text \<open>
  The server's key file: which key a server starts with, and that its node id stays the same
  over restarts.
\<close>

lemma first_key_None: "first_key ke pe paths = None \<longleftrightarrow> list_all (\<lambda>p. candidate_key ke pe p = None) paths"
  by (induction paths) (auto split: option.splits)

lemma first_key_after_write:
  "target \<in> set paths \<Longrightarrow> first_key ke pe paths = None \<Longrightarrow> candidate_key ke' pe' target = Some key \<Longrightarrow>
   (\<And>p. p \<noteq> target \<Longrightarrow> candidate_key ke' pe' p = candidate_key ke pe p) \<Longrightarrow>
   first_key ke' pe' paths = Some key"
proof (induction paths)
  case (Cons p paths)
  then show ?case by (cases "p = target") (auto split: option.splits)
qed simp

lemma new_key_path_candidate: "new_key_path pe \<in> set (key_candidates pe)"
  by (auto simp: new_key_path_def key_candidates_def etc_key_path_def split: option.splits)

lemma parse_secret_key_hex_cong:
  "ke_hex_decode ke' = ke_hex_decode ke \<Longrightarrow> parse_secret_key_hex ke' = parse_secret_key_hex ke"
  by (rule ext) (simp add: parse_secret_key_hex_def)

lemma candidate_key_cong:
  "ke_hex_decode ke' = ke_hex_decode ke \<Longrightarrow> pe_file pe' p = pe_file pe p \<Longrightarrow>
   candidate_key ke' pe' p = candidate_key ke pe p"
  by (drule parse_secret_key_hex_cong) (simp add: candidate_key_def read_to_string_def)

lemma key_candidates_file [simp]: "key_candidates (pe\<lparr>pe_file := f\<rparr>) = key_candidates pe"
  by (simp add: key_candidates_def cong: option.case_cong)

lemma first_key_cong:
  "ke_hex_decode ke' = ke_hex_decode ke \<Longrightarrow> first_key ke' pe paths = first_key ke pe paths"
proof (induction paths)
  case (Cons p paths)
  then show ?case using candidate_key_cong [of ke' ke pe p pe] by (simp cong: option.case_cong)
qed simp

lemma candidate_key_written:
  assumes "ke_hex_decode ke' (trim s) = Ok key" and "length key = 32"
  shows "candidate_key ke' (pe\<lparr>pe_file := (pe_file pe)(p := Text s)\<rparr>) p = Some key"
  using assms by (simp add: candidate_key_def file_exists_def read_to_string_def parse_secret_key_hex_def)

text \<open>
  When a key was loaded, or generated and written, then every later search with the same
  configuration and environment finds the same key, whatever it would have generated, and writes
  nothing.
\<close>

theorem secret_key_again:
  assumes "load_or_create_secret_key ke pe config = (Ok key, pe')"
    and "ke_hex_decode ke' = ke_hex_decode ke"
    and "ke_write_err ke (new_key_path pe) = None" and "length (ke_generate ke) = 32"
    and "ke_hex_decode ke (trim (ke_hex_encode ke (ke_generate ke))) = Ok (ke_generate ke)"
  shows "load_or_create_secret_key ke' pe' config = (Ok key, pe')"
proof -
  have parse: "parse_secret_key_hex ke' = parse_secret_key_hex ke"
    by (rule parse_secret_key_hex_cong [OF assms(2)])
  consider (given) k where "sc_secret_key config = Some k"
    | (from_file) p where "sc_secret_key config = None" "sc_key_file config = Some p"
    | (search) "sc_secret_key config = None" "sc_key_file config = None" by fastforce
  then show ?thesis
  proof cases
    case search
    show ?thesis
    proof (cases "first_key ke pe (key_candidates pe)")
      case (Some k)
      with search assms(1) have "k = key" "pe' = pe" by (simp_all add: load_or_create_secret_key_def)
      with search Some show ?thesis
        by (simp add: load_or_create_secret_key_def first_key_cong [OF assms(2)])
    next
      case None
      let ?p = "new_key_path pe"
      let ?pe = "pe\<lparr>pe_file := (pe_file pe)(?p := Text (ke_hex_encode ke (ke_generate ke)))\<rparr>"
      from None search assms(1,3) have key: "key = ke_generate ke" and pe': "pe' = ?pe"
        by (auto simp: load_or_create_secret_key_def Let_def)
      have w: "candidate_key ke' ?pe ?p = Some key"
        unfolding key by (rule candidate_key_written) (simp_all add: assms)
      have o: "candidate_key ke' ?pe p = candidate_key ke pe p" if "p \<noteq> ?p" for p
        by (rule candidate_key_cong [OF assms(2)]) (simp add: that)
      from first_key_after_write [OF new_key_path_candidate None w o]
      show ?thesis using search by (simp add: load_or_create_secret_key_def pe')
    qed
  qed (use assms(1) in \<open>auto simp: load_or_create_secret_key_def parse\<close>)
qed

definition demo_key_env :: "bytes \<Rightarrow> key_env" where
  "demo_key_env k = \<lparr>ke_hex_decode = (\<lambda>s. if s = ''aa'' then Ok (replicate 32 1) else bail ''bad hex''),
     ke_hex_encode = (\<lambda>_. ''aa''), ke_generate = k, ke_write_err = (\<lambda>_. None)\<rparr>"

definition demo_empty_env :: process_env where
  "demo_empty_env = \<lparr>pe_var = (\<lambda>_. None), pe_home_dir = None, pe_config_dir = Some ''/home/u/.config'',
     pe_file = (\<lambda>_. Missing)\<rparr>"

lemma demo_first_start:
  "load_or_create_secret_key (demo_key_env (replicate 32 1)) demo_empty_env server_config_default =
     (Ok (replicate 32 1), demo_empty_env\<lparr>pe_file := (\<lambda>_. Missing)
       (new_key_path demo_empty_env := Text ''aa'')\<rparr>)"
proof -
  have "candidate_key (demo_key_env (replicate 32 1)) demo_empty_env p = None" for p
    by (simp add: candidate_key_def demo_empty_env_def file_exists_def)
  then have "first_key (demo_key_env (replicate 32 1)) demo_empty_env (key_candidates demo_empty_env) = None"
    by (simp add: first_key_None list_all_iff)
  then show ?thesis
    by (simp add: load_or_create_secret_key_def server_config_default_def demo_key_env_def)
      (simp add: demo_empty_env_def)
qed

theorem secret_key_again_witness:
  "fst (load_or_create_secret_key (demo_key_env (replicate 32 9))
     (snd (load_or_create_secret_key (demo_key_env (replicate 32 1)) demo_empty_env server_config_default))
     server_config_default) = Ok (replicate 32 1)"
proof -
  have a: "ke_hex_decode (demo_key_env (replicate 32 9)) = ke_hex_decode (demo_key_env (replicate 32 1))"
    "ke_write_err (demo_key_env (replicate 32 1)) (new_key_path demo_empty_env) = None"
    "length (ke_generate (demo_key_env (replicate 32 1))) = 32"
    by (simp_all add: demo_key_env_def)
  have "trim ''aa'' = ''aa''" by code_simp
  then have "ke_hex_decode (demo_key_env (replicate 32 1)) (trim (ke_hex_encode (demo_key_env (replicate 32 1))
      (ke_generate (demo_key_env (replicate 32 1))))) = Ok (ke_generate (demo_key_env (replicate 32 1)))"
    by (simp add: demo_key_env_def)
  from secret_key_again [OF demo_first_start a this] show ?thesis by (simp add: demo_first_start)
qed

text \<open>
  C40. The server's node id is static: when a server has started with some key, loaded or newly
  generated, and the key file could be written, then every later start with the same configuration
  on the files that the first one left, if its sockets bind, has the same node id, whatever key it
  would have generated, and writes nothing. Without a store given to it, each start opens the one at
  the default path.
\<close>

theorem node_id_static:
  assumes "bind_server be te pe config = (Ok srv, pe')"
    and "be_udp be' = be_udp be" and "be_iroh be' = be_iroh be"
    and "ke_hex_decode (be_key be') = ke_hex_decode (be_key be)"
    and "ke_write_err (be_key be) (new_key_path pe) = None" and "length (ke_generate (be_key be)) = 32"
    and "ke_hex_decode (be_key be) (trim (ke_hex_encode (be_key be) (ke_generate (be_key be)))) =
      Ok (ke_generate (be_key be))"
  shows "\<exists>srv'. bind_server be' te' pe' config = (Ok srv', pe') \<and>
    iroh_node_id public srv' = iroh_node_id public srv \<and>
    (iroh_node_id public srv = None \<longleftrightarrow> sc_disable_iroh config) \<and>
    (sc_trust_manager config = None \<longrightarrow> server_trust_manager srv' = trust_new te' pe' None)"
proof (cases "sc_disable_iroh config")
  case True
  with assms(1) have "pe' = pe" and "snd srv = None"
    by (auto simp: bind_server_def bind_iroh_def Let_def split: sum.splits)
  with assms(1,2) True show ?thesis
    by (auto simp: bind_server_def bind_udp_def bind_iroh_def iroh_node_id_def server_trust_manager_def
        manager_of_def Let_def answer_def split: sum.splits option.splits if_splits)
next
  case False
  with assms(1,3) obtain key where key: "load_or_create_secret_key (be_key be) pe config = (Ok key, pe')"
    and id: "snd srv = Some key" and "be_iroh be = None"
    by (auto simp: bind_server_def bind_iroh_def Let_def and_then_def answer_def
        split: sum.splits option.splits prod.splits)
  from secret_key_again [OF key assms(4-7)] this(3) assms(1-3) False show ?thesis
    by (auto simp: bind_server_def bind_udp_def bind_iroh_def iroh_node_id_def server_trust_manager_def id
        manager_of_def Let_def and_then_def answer_def
        split: sum.splits option.splits if_splits)
qed

definition demo_bind :: "bytes \<Rightarrow> bind_env" where
  "demo_bind k = \<lparr>be_udp = (\<lambda>_. None), be_iroh = None, be_show_addr = (\<lambda>_. []),
     be_key = demo_key_env k\<rparr>"

theorem node_id_static_witness:
  "\<forall>te. \<exists>srv srv' pe. bind_server (demo_bind (replicate 32 1)) te demo_empty_env server_config_default = (Ok srv, pe) \<and>
     bind_server (demo_bind (replicate 32 9)) te pe server_config_default = (Ok srv', pe) \<and>
     iroh_node_id rev srv' = iroh_node_id rev srv \<and> iroh_node_id rev srv \<noteq> None"
proof
  fix te
  have t: "trim ''aa'' = ''aa''" by code_simp
  have on: "\<not> sc_disable_udp server_config_default" "\<not> sc_disable_iroh server_config_default"
    by (simp_all add: server_config_default_def)
  then obtain srv pe where first: "bind_server (demo_bind (replicate 32 1)) te demo_empty_env server_config_default = (Ok srv, pe)"
    by (simp add: bind_server_def bind_udp_def bind_iroh_def demo_bind_def demo_first_start answer_def Let_def)
  have "\<exists>srv'. bind_server (demo_bind (replicate 32 9)) te pe server_config_default = (Ok srv', pe) \<and>
    iroh_node_id rev srv' = iroh_node_id rev srv \<and>
    (iroh_node_id rev srv = None \<longleftrightarrow> sc_disable_iroh server_config_default) \<and>
    (sc_trust_manager server_config_default = None \<longrightarrow> server_trust_manager srv' = trust_new te pe None)"
    by (rule node_id_static [OF first]) (simp_all add: demo_bind_def demo_key_env_def t)
  with first on(2) show "\<exists>srv srv' pe. bind_server (demo_bind (replicate 32 1)) te demo_empty_env server_config_default = (Ok srv, pe) \<and>
     bind_server (demo_bind (replicate 32 9)) te pe server_config_default = (Ok srv', pe) \<and>
     iroh_node_id rev srv' = iroh_node_id rev srv \<and> iroh_node_id rev srv \<noteq> None" by blast
qed

end
