(* ===== verification/ClientSetup.thy ===== *)
theory ClientSetup
  imports Client
begin

text \<open>
  How a client starts: its persistent id, the server it resolves a name to, and the device it
  picks.
\<close>

section \<open>Client id\<close>

text \<open>
  A client keeps its id: when the id file could be written, every later start with the same
  configuration has the id of the first one, whatever it would have generated, and changes no
  file.
\<close>

theorem client_id_static:
  assumes "load_or_create_client_id env pe custom = (cid, pe')" and "cn_id_write env"
    and "trim (cn_new_id env) = cn_new_id env" and "cn_new_id env \<noteq> []"
  shows "load_or_create_client_id env' pe' custom = (cid, pe') \<and> cid \<noteq> []"
proof -
  let ?f = "client_id_path pe custom"
  have path: "client_id_path (pe\<lparr>pe_file := g\<rparr>) custom = ?f" for g
    by (simp add: client_id_path_def cong: option.case_cong)
  show ?thesis
  proof (cases "\<exists>s. pe_file pe ?f = Text s \<and> trim s \<noteq> []")
    case True
    then show ?thesis using assms(1) by (auto simp: load_or_create_client_id_def Let_def)
  next
    case False
    with assms(1,2) have "cid = cn_new_id env" "pe' = pe\<lparr>pe_file := (pe_file pe)(?f := Text (cn_new_id env))\<rparr>"
      by (auto simp: load_or_create_client_id_def Let_def split: disk_file.splits if_splits)
    then show ?thesis using assms(3,4) by (simp add: load_or_create_client_id_def Let_def path)
  qed
qed

definition demo_setup_env :: "string \<Rightarrow> client_env" where
  "demo_setup_env fresh = \<lparr>cn_codec = table_codec [], cn_hostname = ''laptop'', cn_kc = demo_kc,
     cn_devices = [(''/dev/input/event9'', demo_pad), (''/dev/input/event3'', demo_pad)], cn_open = (\<lambda>_. None),
     cn_stream_err = None, cn_parse_key = (\<lambda>s. if s = ''0a2c'' then Some [10, 44] else None), cn_new_id = fresh, cn_id_write = True,
     cn_target_input = bail ''eof'', cn_device_input = Ok ''2'',
     cn_history = demo_history_env,
     cn_send_err = None, cn_debug = (\<lambda>_. ''message'')\<rparr>"

definition demo_files :: process_env where
  "demo_files = \<lparr>pe_var = Map.empty, pe_home_dir = None, pe_config_dir = Some ''/home/u/.config'',
     pe_file = (\<lambda>_. Missing)\<rparr>"

theorem client_id_static_witness:
  "fst (load_or_create_client_id (demo_setup_env ''c2'')
     (snd (load_or_create_client_id (demo_setup_env ''c1'') demo_files None)) None) = ''c1''"
proof -
  let ?pe = "snd (load_or_create_client_id (demo_setup_env ''c1'') demo_files None)"
  have l: "load_or_create_client_id (demo_setup_env ''c1'') demo_files None = (''c1'', ?pe)"
    by (simp add: load_or_create_client_id_def Let_def demo_files_def demo_setup_env_def)
  have t: "trim ''c1'' = ''c1''" by code_simp
  have "cn_id_write (demo_setup_env ''c1'')" "trim (cn_new_id (demo_setup_env ''c1'')) = cn_new_id (demo_setup_env ''c1'')"
    "cn_new_id (demo_setup_env ''c1'') \<noteq> []" by (simp_all add: demo_setup_env_def t)
  from client_id_static [OF l this] show ?thesis by simp
qed

section \<open>Servers by name\<close>

lemma with_path_servers:
  "hs_servers (history_with_path henv pe hf) = load_history henv (pe_file pe (history_path pe hf))"
  by (simp add: history_with_path_def Let_def)

text \<open>
  A server can be named after one connection: once a connection to a target was recorded
  under the server's host name, starting the client with that name, in any letter case and with
  any surrounding space, reaches the recorded target, provided the name is not itself an address
  or node id and the target still parses.
\<close>

theorem recorded_server_resolves:
  assumes "history_env_ok (cn_history env)" and "cn_history env' = cn_history env"
    and "is_ok (fst (record_connection (cn_history env) host target transport
            (history_with_path (cn_history env) pe hf)))"
    and "to_lowercase (trim name) = to_lowercase host"
    and "target_from_str (cn_parse_key env') name = Inl e"
    and "target_from_str (cn_parse_key env') target = Ok addr"
  shows "resolve_target env' (record_history env hf host target transport pe) (Some name) hf = Ok (addr, target)"
proof -
  let ?st = "history_with_path (cn_history env) pe hf"
  let ?r = "record_connection (cn_history env) host target transport ?st"
  let ?entry = "\<lparr>ks_server_hostname = host, ks_target = target, ks_transport_type = transport,
    ks_last_connected = he_now (cn_history env)\<rparr>"
  let ?l = "?entry # filter (\<lambda>s. ks_target s \<noteq> target \<and> ks_server_hostname s \<noteq> host) (hs_servers ?st)"
  let ?pe = "record_history env hf host target transport pe"
  have path: "hs_store_path (snd ?r) = history_path pe hf"
    by (simp add: record_connection_def history_with_path_def Let_def)
  have path': "history_path ?pe hf = history_path pe hf"
    by (cases hf) (simp_all add: record_history_def history_path_def Let_def)
  obtain u where "fst ?r = Inr u" using assms(3) by (cases "fst ?r") auto
  then obtain json where json: "he_to_json (cn_history env) ?l = Inr json" "hs_file (snd ?r) = Text json"
    using assms(1) by (auto simp: record_connection_def history_save_def bail_def Let_def history_env_ok_def
        split: sum.splits prod.splits if_splits)
  have "he_from_json (cn_history env) json = Some ?l"
    using assms(1) json(1) by (simp add: history_env_ok_def)
  moreover have "pe_file ?pe (history_path pe hf) = Text json"
    by (simp add: record_history_def Let_def path json(2))
  ultimately have "hs_servers (history_with_path (cn_history env') ?pe hf) = ?l"
    by (simp add: assms(2) with_path_servers path' load_history_def)
  then have "find_by_hostname (history_with_path (cn_history env') ?pe hf) name = Some ?entry"
    using assms(4) by (simp add: find_by_hostname_def)
  then show ?thesis
    using assms(5,6) by (simp add: resolve_target_def resolve_specified_def)
qed

lemma demo_trims: "trim ''DESK'' = ''DESK''" "trim ''0a2c'' = ''0a2c''" "to_lowercase ''DESK'' = to_lowercase ''Desk''"
  by code_simp+

theorem recorded_server_resolves_witness:
  "resolve_target (demo_setup_env ''x'') (record_history (demo_setup_env ''x'') None ''Desk'' ''0a2c'' ''Direct UDP'' demo_files)
     (Some ''DESK'') None = Ok (Iroh [10, 44], ''0a2c'')"
proof -
  let ?env = "demo_setup_env ''x''"
  obtain e where e: "target_from_str (cn_parse_key ?env) ''DESK'' = Inl e"
    by (simp add: target_from_str_def demo_trims no_address bail_def demo_setup_env_def)
  have t: "target_from_str (cn_parse_key ?env) ''0a2c'' = Ok (Iroh [10, 44])"
    by (simp add: target_from_str_def demo_trims no_address demo_setup_env_def)
  have n: "to_lowercase (trim ''DESK'') = to_lowercase ''Desk''" by (simp add: demo_trims)
  have r: "is_ok (fst (record_connection (cn_history ?env) ''Desk'' ''0a2c'' ''Direct UDP''
      (history_with_path (cn_history ?env) demo_files None)))"
    by (simp add: record_connection_def history_with_path_def load_history_def demo_files_def history_save_def
        demo_setup_env_def demo_history_env_def demo_known_def Let_def)
  have ok: "history_env_ok (cn_history ?env)"
    by (simp add: demo_setup_env_def demo_history_ok)
  from recorded_server_resolves [OF ok refl r n e t] show ?thesis .
qed

end
