(* ===== verification/Service.thy ===== *)
theory Service
  imports Trust
begin

text \<open>
  \<^verbatim>\<open>src/service.rs\<close>: installing and driving the systemd service. Every operation returns its
  result, the actions it performed in order, and the files after it; \<open>service_env\<close> says how each
  outside call ends.
\<close>

section \<open>Environment and actions\<close>

record service_env =
  sm_exe :: "string result"
  sm_create_dir :: "string option"
  sm_write :: "string option"
  sm_remove :: "string option"
  sm_command :: "string \<Rightarrow> string list \<Rightarrow> bool result"

datatype service_action =
    CreateDirAll string
  | WriteFile string string
  | RemoveFile string
  | RunCommand string "string list"
  | Println string

record service_manager =
  sm_is_user :: bool

definition service_is_root :: "process_env \<Rightarrow> bool" where
  "service_is_root pe \<longleftrightarrow> var_or_default pe ''USER'' = ''root'' \<or> var_set pe ''SUDO_USER'' \<or>
     var_set pe ''JOURNAL_STREAM''"

definition service_new :: "process_env \<Rightarrow> bool \<Rightarrow> service_manager" where
  "service_new pe user_mode = \<lparr>sm_is_user = (if user_mode then True else \<not> service_is_root pe)\<rparr>"

definition unit_path :: "process_env \<Rightarrow> service_manager \<Rightarrow> string result" where
  "unit_path pe m =
     (if sm_is_user m
      then (case pe_home_dir pe of
              None \<Rightarrow> bail ''Could not determine home directory''
            | Some home \<Rightarrow> Ok (path_join home ''.config/systemd/user/joycast.service''))
      else Ok ''/etc/systemd/system/joycast.service'')"

definition unlines :: "string list \<Rightarrow> string" where
  "unlines ls = concat (map (\<lambda>l. l @ newline) ls)"

definition generate_unit_content :: "service_manager \<Rightarrow> string \<Rightarrow> string" where
  "generate_unit_content m exec_str =
     (if sm_is_user m
      then unlines [''[Unit]'', ''Description=Joycast Gamepad Server Daemon'', ''After=network.target'', [],
             ''[Service]'', ''Type=simple'', ''ExecStart='' @ exec_str @ '' server'',
             ''Restart=on-failure'', ''RestartSec=5'', [],
             ''[Install]'', ''WantedBy=default.target'']
      else unlines [''[Unit]'', ''Description=Joycast Gamepad Server Daemon'', ''After=network.target'', [],
             ''[Service]'', ''Type=simple'', ''ExecStart='' @ exec_str @ '' server'',
             ''Restart=on-failure'', ''RestartSec=5'', ''User=root'', ''SupplementaryGroups=input'', [],
             ''[Install]'', ''WantedBy=multi-user.target''])"

text \<open>The parent of a path that has a directory part: what stands before its last slash.\<close>

definition path_parent :: "string \<Rightarrow> string" where
  "path_parent p = rev (tl (dropWhile (\<lambda>c. c \<noteq> CHR 0x2F) (rev p)))"

fun join_space :: "string list \<Rightarrow> string" where
  "join_space [] = []"
| "join_space [a] = a"
| "join_space (a # b # as) = a @ '' '' @ join_space (b # as)"

section \<open>Operations\<close>

definition user_flag :: "service_manager \<Rightarrow> string list" where
  "user_flag m = (if sm_is_user m then [''--user''] else [])"

definition run_systemctl ::
  "service_env \<Rightarrow> service_manager \<Rightarrow> string list \<Rightarrow> unit result \<times> service_action list" where
  "run_systemctl env m args =
     (let cmd_args = user_flag m @ args
      in (and_then (with_context (''Failed to execute '' @ squote (''systemctl '' @ join_space args))
                     (sm_command env ''systemctl'' cmd_args))
            (\<lambda>success. if \<not> success
                       then bail (''Command '' @ squote (''systemctl '' @ join_space args) @ '' failed'')
                       else Ok ()),
          [RunCommand ''systemctl'' cmd_args]))"

definition fs_step :: "string option \<Rightarrow> string \<Rightarrow> unit result" where
  "fs_step err ctx = (case err of None \<Rightarrow> Ok () | Some e \<Rightarrow> Err (Fail [ctx, e]))"

definition installed_text :: "string \<Rightarrow> string" where
  "installed_text path = ''Joycast systemd service installed successfully!'' @ newline @ ''Unit file: ''
     @ path @ newline @ newline @ ''To start the service now, run:'' @ newline @ ''  joycast service start''"

definition service_install ::
  "service_env \<Rightarrow> process_env \<Rightarrow> service_manager \<Rightarrow> unit result \<times> service_action list \<times> process_env" where
  "service_install env pe m =
     (case with_context ''Failed to determine current executable path'' (sm_exe env) of
        Inl e \<Rightarrow> (Err e, [], pe)
      | Inr exec_path \<Rightarrow>
     (case unit_path pe m of
        Inl e \<Rightarrow> (Err e, [], pe)
      | Inr path \<Rightarrow>
          let content = generate_unit_content m exec_path;
              parent = path_parent path
          in (case fs_step (sm_create_dir env) (''Failed to create directory '' @ parent) of
                Inl e \<Rightarrow> (Err e, [CreateDirAll parent], pe)
              | Inr _ \<Rightarrow>
             (case fs_step (sm_write env) (''Failed to write service file to '' @ path) of
                Inl e \<Rightarrow> (Err e, [CreateDirAll parent, WriteFile path content], pe)
              | Inr _ \<Rightarrow>
                  (Ok (), [CreateDirAll parent, WriteFile path content]
                     @ snd (run_systemctl env m [''daemon-reload''])
                     @ snd (run_systemctl env m [''enable'', ''joycast''])
                     @ [Println (installed_text path)],
                   pe\<lparr>pe_file := (pe_file pe)(path := Text content)\<rparr>)))))"

definition service_uninstall ::
  "service_env \<Rightarrow> process_env \<Rightarrow> service_manager \<Rightarrow> unit result \<times> service_action list \<times> process_env" where
  "service_uninstall env pe m =
     (case unit_path pe m of
        Inl e \<Rightarrow> (Err e, [], pe)
      | Inr path \<Rightarrow>
          let stopped = snd (run_systemctl env m [''stop'', ''joycast''])
                @ snd (run_systemctl env m [''disable'', ''joycast'']);
              rest = snd (run_systemctl env m [''daemon-reload''])
                @ [Println ''Joycast systemd service uninstalled successfully.'']
          in (if file_exists (pe_file pe path)
              then (case fs_step (sm_remove env) (''Failed to remove '' @ path) of
                      Inl e \<Rightarrow> (Err e, stopped @ [RemoveFile path], pe)
                    | Inr _ \<Rightarrow> (Ok (), stopped @ [RemoveFile path] @ rest,
                               pe\<lparr>pe_file := (pe_file pe)(path := Missing)\<rparr>))
              else (Ok (), stopped @ rest, pe)))"

text \<open>\<^verbatim>\<open>start\<close>, \<^verbatim>\<open>stop\<close> and \<^verbatim>\<open>restart\<close>: a verb for systemctl and its success text.\<close>

definition service_control ::
  "service_env \<Rightarrow> service_manager \<Rightarrow> string \<Rightarrow> string \<Rightarrow> unit result \<times> service_action list" where
  "service_control env m verb msg =
     (let (r, acts) = run_systemctl env m [verb, ''joycast'']
      in (case r of Inl e \<Rightarrow> (Err e, acts) | Inr _ \<Rightarrow> (Ok (), acts @ [Println msg])))"

definition service_start :: "service_env \<Rightarrow> service_manager \<Rightarrow> unit result \<times> service_action list" where
  "service_start env m = service_control env m ''start'' ''Joycast service started.''"

definition service_stop :: "service_env \<Rightarrow> service_manager \<Rightarrow> unit result \<times> service_action list" where
  "service_stop env m = service_control env m ''stop'' ''Joycast service stopped.''"

definition service_restart :: "service_env \<Rightarrow> service_manager \<Rightarrow> unit result \<times> service_action list" where
  "service_restart env m = service_control env m ''restart'' ''Joycast service restarted.''"

definition service_status :: "service_manager \<Rightarrow> unit result \<times> service_action list" where
  "service_status m = (Ok (), [RunCommand ''systemctl'' (user_flag m @ [''status'', ''joycast''])])"

definition service_logs :: "service_manager \<Rightarrow> unit result \<times> service_action list" where
  "service_logs m = (Ok (), [RunCommand ''journalctl'' (user_flag m @ [''-u'', ''joycast'', ''-f''])])"

section \<open>Properties\<close>

lemma fs_step_Ok [simp]: "fs_step e ctx = Inr u \<longleftrightarrow> e = None"
  by (auto simp: fs_step_def split: option.splits)

lemma unit_path_file [simp]: "unit_path (pe\<lparr>pe_file := f\<rparr>) m = unit_path pe m"
  by (simp add: unit_path_def)

text \<open>
  Installing and then uninstalling leaves the files as they were: if installation succeeded
  where no unit file stood, and the file can be removed, then uninstallation succeeds and every
  file is again as before the installation, whatever systemctl answers.
\<close>

theorem install_uninstall_restores:
  assumes "service_install env pe m = (Ok (), acts, pe')"
    and "unit_path pe m = Ok path" and "pe_file pe path = Missing" and "sm_remove env' = None"
  shows "fst (service_uninstall env' pe' m) = Ok () \<and> snd (snd (service_uninstall env' pe' m)) = pe \<and>
    (\<exists>exe. sm_exe env = Ok exe \<and> pe_file pe' path = Text (generate_unit_content m exe))"
proof -
  from assms(1,2) obtain exe where exe: "sm_exe env = Ok exe"
    and pe': "pe' = pe\<lparr>pe_file := (pe_file pe)(path := Text (generate_unit_content m exe))\<rparr>"
    by (auto simp: service_install_def Let_def split: sum.splits)
  have "(pe_file pe)(path := Missing) = pe_file pe" using assms(3) by (simp add: fun_upd_idem)
  then have "pe\<lparr>pe_file := (pe_file pe)(path := Missing)\<rparr> = pe" by simp
  with assms(2,4) exe show ?thesis
    by (auto simp: pe' service_uninstall_def Let_def file_exists_def fs_step_def)
qed

definition demo_service_env :: service_env where
  "demo_service_env = \<lparr>sm_exe = Ok ''/usr/bin/joycast'', sm_create_dir = None, sm_write = None,
     sm_remove = None, sm_command = (\<lambda>c args. Ok False)\<rparr>"

definition demo_user_env :: process_env where
  "demo_user_env = \<lparr>pe_var = Map.empty, pe_home_dir = Some ''/home/u'', pe_config_dir = Some ''/home/u/.config'',
     pe_file = (\<lambda>_. Missing)\<rparr>"

theorem install_uninstall_restores_witness:
  "fst (service_uninstall demo_service_env (snd (snd (service_install demo_service_env demo_user_env \<lparr>sm_is_user = True\<rparr>)))
     \<lparr>sm_is_user = True\<rparr>) = Ok ()"
proof -
  let ?m = "\<lparr>sm_is_user = True\<rparr>" and ?r = "service_install demo_service_env demo_user_env \<lparr>sm_is_user = True\<rparr>"
  have p: "unit_path demo_user_env ?m = Ok (path_join ''/home/u'' ''.config/systemd/user/joycast.service'')"
    by (simp add: unit_path_def demo_user_env_def)
  have i: "?r = (Ok (), fst (snd ?r), snd (snd ?r))"
    by (simp add: service_install_def p demo_service_env_def fs_step_def Let_def)
  have f: "pe_file demo_user_env path = Missing" "sm_remove demo_service_env = None" for path
    by (simp_all add: demo_user_env_def demo_service_env_def)
  from install_uninstall_restores [OF i p f] show ?thesis by simp
qed

text \<open>
  The daemon of a user service and the user's own commands use different stores: systemd sets
  JOURNAL_STREAM in the services it starts, so the daemon takes the system-wide store, while the
  same user's command line, where neither that variable nor another sign of root is set, takes
  the one in the user's configuration directory. Approvals do not reach such a daemon.
\<close>

theorem user_service_store_mismatch:
  assumes "pe_var pd ''JOURNAL_STREAM'' = Some v" and "\<not> trust_is_root_context pc"
    and "pe_file pc ''/etc/joycast/trusted_clients.json'' = Missing"
    and "pe_config_dir pc = Some cfg" and "take 5 cfg \<noteq> ''/etc/''" and "5 \<le> length cfg"
  shows "trust_store_path pd None \<noteq> trust_store_path pc None"
proof -
  have d: "trust_store_path pd None = ''/etc/joycast/trusted_clients.json''"
    using assms(1) by (simp add: trust_store_path_def trust_is_root_context_def var_set_def path_join_def)
  have "take 5 (trust_store_path pc None) = take 5 cfg"
    using assms(2-4,6) by (auto simp: trust_store_path_def file_exists_def path_join_def Let_def)
  moreover have "take 5 ''/etc/joycast/trusted_clients.json'' = ''/etc/''" by simp
  ultimately show ?thesis unfolding d using assms(5) by metis
qed

theorem user_service_store_mismatch_witness:
  "trust_store_path (demo_user_env\<lparr>pe_var := [''JOURNAL_STREAM'' \<mapsto> ''8:1'']\<rparr>) None \<noteq> trust_store_path demo_user_env None"
  by (rule user_service_store_mismatch [where cfg = "''/home/u/.config''" and v = "''8:1''"])
    (simp_all add: demo_user_env_def trust_is_root_context_def var_or_default_def var_set_def)

end
