(* ===== verification/MainCli.thy ===== *)
theory MainCli
  imports Server Client Service
begin

text \<open>
  \<^verbatim>\<open>src/main.rs\<close>: the command line. The parser of the arguments is the \<^verbatim>\<open>clap\<close> crate; its result
  is the datatype \<open>commands\<close>. A command prints lines, changes files, and finishes, or it goes on
  to run a server or a client with a configuration.
\<close>

section \<open>Commands\<close>

datatype server_subcommand = SubStart | SubPending | SubApprove string | SubApproved | SubRevoke string

datatype service_subcommand =
  SvcInstall | SvcUninstall | SvcStart | SvcStop | SvcRestart | SvcStatus | SvcCheck | SvcLogs | SvcRun

datatype commands =
    CmdServer "server_subcommand option" "socket_addr option" "string option" "string option" bool bool
  | CmdClient "string option" "string option" bool bool bool bool
  | CmdList bool bool bool
  | CmdService service_subcommand bool

datatype main_outcome = Finished "unit result" | RunServer server_config | RunClient client_config

record main_env =
  mn_trust :: trust_env
  mn_history :: history_env
  mn_service :: service_env
  mn_kc :: "key_const \<Rightarrow> u16"
  mn_devices :: device_enum

record main_world =
  mw_out :: "string list"
  mw_actions :: "service_action list"
  mw_pe :: process_env

section \<open>Listings\<close>

definition indent :: string where
  "indent = newline @ ''      ''"

fun number_from :: "(nat \<Rightarrow> 'a \<Rightarrow> string) \<Rightarrow> nat \<Rightarrow> 'a list \<Rightarrow> string list" where
  "number_from f n [] = []"
| "number_from f n (x # xs) = f n x # number_from f (Suc n) xs"

definition pending_entry :: "nat \<Rightarrow> pending_client_info \<Rightarrow> string" where
  "pending_entry n p = ''  ['' @ show_nat n @ ''] Client ID: '' @ pc_client_id p @ indent
     @ ''Hostname: '' @ pc_hostname p @ indent @ ''Device: '' @ pc_device_name p @ indent
     @ ''Transport: '' @ pc_transport p @ indent @ ''First Seen: '' @ pc_first_seen p @ newline"

definition pending_listing :: "pending_client_info list \<Rightarrow> string list" where
  "pending_listing ps =
     (''Pending Client Authorization Requests:'' @ newline) #
     (if ps = [] then [''  No pending client requests.'']
      else number_from pending_entry 1 ps
        @ [''To approve a client, run:'' @ newline @ ''  joycast server approve <CLIENT_ID>'' @ newline])"

definition approved_entry :: "nat \<Rightarrow> approved_client_info \<Rightarrow> string" where
  "approved_entry n a = ''  ['' @ show_nat n @ ''] Client ID: '' @ ac_client_id a @ indent
     @ ''Hostname: '' @ ac_hostname a @ indent @ ''Device: '' @ ac_device_name a @ indent
     @ ''Approved At: '' @ ac_approved_at a @ newline"

definition approved_listing :: "approved_client_info list \<Rightarrow> string list" where
  "approved_listing as =
     (''Authorized Trusted Clients:'' @ newline) #
     (if as = [] then [''  No trusted clients.''] else number_from approved_entry 1 as)"

definition history_entry :: "nat \<Rightarrow> known_server_info \<Rightarrow> string" where
  "history_entry n s = ''  ['' @ show_nat n @ ''] Hostname: '' @ ks_server_hostname s @ indent
     @ ''Target: '' @ ks_target s @ indent @ ''Transport: '' @ ks_transport_type s @ indent
     @ ''Last Connected: '' @ ks_last_connected s @ newline"

definition history_listing :: "known_server_info list \<Rightarrow> string list" where
  "history_listing ss =
     (''Previously Connected Servers:'' @ newline) #
     (if ss = [] then [''  No server history found.''] else number_from history_entry 1 ss)"

definition hex_digit :: "nat \<Rightarrow> char" where
  "hex_digit d = (if d < 10 then char_of (48 + d) else char_of (87 + d))"

definition hex4 :: "u16 \<Rightarrow> string" where
  "hex4 w = (let n = unat w in
     map hex_digit [n div 4096 mod 16, n div 256 mod 16, n div 16 mod 16, n mod 16])"

definition device_entry :: "nat \<Rightarrow> device_info \<Rightarrow> string" where
  "device_entry n d = ''  ['' @ show_nat n @ ''] Path: '' @ di_path d @ indent
     @ ''Name: '' @ di_name d @ indent @ ''Type: '' @ device_type_display (di_device_type d) @ indent
     @ ''Vendor: 0x'' @ hex4 (di_vendor d) @ '', Product: 0x'' @ hex4 (di_product d) @ newline"

fun join_comma :: "string list \<Rightarrow> string" where
  "join_comma [] = []"
| "join_comma [a] = a"
| "join_comma (a # b # as) = a @ '', '' @ join_comma (b # as)"

definition device_listing :: "bool \<Rightarrow> bool \<Rightarrow> bool \<Rightarrow> device_info list \<Rightarrow> string list" where
  "device_listing kb mouse all ds =
     (if all then ''All Linux Input Devices (/dev/input/event*):'' @ newline
      else ''Available Input Devices ('' @ join_comma ([''Gamepads / Joysticks'']
             @ (if kb then [''Keyboards''] else []) @ (if mouse then [''Mice''] else [])) @ ''):'' @ newline) #
     (if ds = []
      then [''  No matching input devices found. Run `joycast list --all` to view all system devices.'']
      else number_from device_entry 0 ds)"

section \<open>Dispatch\<close>

text \<open>The administrator's subcommands on an open store: result, lines and the store after it.\<close>

definition admin_command ::
  "trust_env \<Rightarrow> server_subcommand \<Rightarrow> trust_manager \<Rightarrow> unit result \<times> string list \<times> trust_manager" where
  "admin_command te sub tm =
     (case sub of
        SubPending \<Rightarrow> (let (ps, tm1) = list_pending te tm in (Ok (), pending_listing ps, tm1))
      | SubApprove cid \<Rightarrow>
          (case approve te cid tm of
             (Inl e, tm1) \<Rightarrow> (Err e, [], tm1)
           | (Inr a, tm1) \<Rightarrow> (Ok (), [''Successfully authorized client '' @ squote (ac_client_id a)
                @ '' ('' @ ac_hostname a @ '')!''], tm1))
      | SubApproved \<Rightarrow> (let (as, tm1) = list_approved te tm in (Ok (), approved_listing as, tm1))
      | SubRevoke cid \<Rightarrow>
          (case revoke te cid tm of
             (Inl e, tm1) \<Rightarrow> (Err e, [], tm1)
           | (Inr b, tm1) \<Rightarrow> (Ok (), [''Revoked trust for client matching '' @ squote cid @ ''.''], tm1))
      | SubStart \<Rightarrow> (Ok (), [], tm))"

definition start_config ::
  "socket_addr option \<Rightarrow> string option \<Rightarrow> string option \<Rightarrow> bool \<Rightarrow> bool \<Rightarrow> trust_manager \<Rightarrow> server_config" where
  "start_config bind secret_key key_file no_udp no_iroh tm =
     \<lparr>sc_bind_addr = or_else bind (parse_socket_addr ''0.0.0.0:12398''), sc_secret_key = secret_key,
      sc_key_file = key_file, sc_disable_udp = no_udp, sc_disable_iroh = no_iroh,
      sc_trust_manager = Some tm\<rparr>"

definition print_lines :: "string list \<Rightarrow> main_world \<Rightarrow> main_world" where
  "print_lines ls w = w\<lparr>mw_out := mw_out w @ ls\<rparr>"

definition main_server ::
  "main_env \<Rightarrow> server_subcommand option \<Rightarrow> socket_addr option \<Rightarrow> string option \<Rightarrow> string option \<Rightarrow> bool \<Rightarrow> bool \<Rightarrow>
   main_world \<Rightarrow> main_outcome \<times> main_world" where
  "main_server env sub bind secret_key key_file no_udp no_iroh w =
     (let tm = trust_new (mn_trust env) (mw_pe w) None
      in if sub = None \<or> sub = Some SubStart
         then (RunServer (start_config bind secret_key key_file no_udp no_iroh tm), w)
         else (let (r, ls, tm1) = admin_command (mn_trust env) (the sub) tm
               in (Finished r, print_lines ls
                    (w\<lparr>mw_pe := (mw_pe w)\<lparr>pe_file := (pe_file (mw_pe w))(tm_path tm1 := tm_file tm1)\<rparr>\<rparr>))))"

definition main_service ::
  "main_env \<Rightarrow> service_subcommand \<Rightarrow> bool \<Rightarrow> main_world \<Rightarrow> main_outcome \<times> main_world" where
  "main_service env sub user w =
     (let mgr = service_new (mw_pe w) user;
          plain = (\<lambda>(r, acts). (Finished r, w\<lparr>mw_actions := mw_actions w @ acts\<rparr>));
          filed = (\<lambda>(r, acts, pe). (Finished r, w\<lparr>mw_actions := mw_actions w @ acts, mw_pe := pe\<rparr>))
      in case sub of
           SvcInstall \<Rightarrow> filed (service_install (mn_service env) (mw_pe w) mgr)
         | SvcUninstall \<Rightarrow> filed (service_uninstall (mn_service env) (mw_pe w) mgr)
         | SvcStart \<Rightarrow> plain (service_start (mn_service env) mgr)
         | SvcStop \<Rightarrow> plain (service_stop (mn_service env) mgr)
         | SvcRestart \<Rightarrow> plain (service_restart (mn_service env) mgr)
         | SvcStatus \<Rightarrow> plain (service_status mgr)
         | SvcCheck \<Rightarrow> plain (service_status mgr)
         | SvcLogs \<Rightarrow> plain (service_logs mgr)
         | SvcRun \<Rightarrow> plain (service_logs mgr))"

definition main :: "main_env \<Rightarrow> commands \<Rightarrow> main_world \<Rightarrow> main_outcome \<times> main_world" where
  "main env cmd w =
     (case cmd of
        CmdServer sub bind secret_key key_file no_udp no_iroh \<Rightarrow>
          main_server env sub bind secret_key key_file no_udp no_iroh w
      | CmdClient target device keyboard mouse all history \<Rightarrow>
          (if history
           then (Finished (Ok ()), print_lines (history_listing (list_servers
                   (history_with_path (mn_history env) (mw_pe w) None))) w)
           else (RunClient (client_config_default\<lparr>cc_target := target, cc_device_path := device,
                   cc_keyboard := keyboard, cc_mouse := mouse, cc_all := all\<rparr>), w))
      | CmdList keyboard mouse all \<Rightarrow>
          (Finished (Ok ()), print_lines (device_listing keyboard mouse all
             (list_devices_filtered (mn_kc env) (mn_devices env) keyboard mouse all)) w)
      | CmdService sub user \<Rightarrow> main_service env sub user w)"

section \<open>Properties\<close>

text \<open>The store operation of a subcommand.\<close>

fun op_of :: "server_subcommand \<Rightarrow> trust_op option" where
  "op_of SubStart = None"
| "op_of SubPending = Some ListPending"
| "op_of (SubApprove cid) = Some (Approve cid)"
| "op_of SubApproved = Some ListApproved"
| "op_of (SubRevoke cid) = Some (Revoke cid)"

lemma admin_command_store:
  "op_of sub = Some c \<Longrightarrow> snd (snd (admin_command te sub tm)) = trust_op_step te c tm"
  by (cases sub) (auto simp: admin_command_def split: prod.splits sum.splits)

text \<open>
  The administrator's commands are the store's operations: what \<^verbatim>\<open>joycast server pending\<close>,
  \<^verbatim>\<open>approve\<close>, \<^verbatim>\<open>approved\<close> and \<^verbatim>\<open>revoke\<close> leave in the store's file is what the operation of
  that name, run by a fresh process on the shared store, leaves there; so the command line is the
  \<open>Cli\<close> step of the running server.
\<close>

theorem admin_commands_refine_store:
  assumes "op_of sub = Some c" and "ts_path sys = trust_store_path (mw_pe w) None"
    and "ts_file sys = pe_file (mw_pe w) (ts_path sys)"
    and "ts_mem sys j = load_trust (mn_trust env) (ts_file sys)"
  shows "pe_file (mw_pe (snd (main env (CmdServer (Some sub) b sk kf nu ni) w))) (ts_path sys) =
    ts_file (trust_sys_step sys (j, mn_trust env, c))"
proof -
  have fresh: "trust_new (mn_trust env) (mw_pe w) None = manager_of j sys"
    using assms(2-4) by (simp add: trust_new_def manager_of_def Let_def)
  have "sub \<noteq> SubStart" using assms(1) by auto
  then show ?thesis
    using admin_command_store [OF assms(1), of "mn_trust env" "manager_of j sys"]
    by (auto simp: main_def main_server_def fresh print_lines_def put_manager_def split: prod.splits)
qed

definition demo_main_env :: main_env where
  "demo_main_env = \<lparr>mn_trust = demo_env, mn_history = \<lparr>he_to_json = (\<lambda>_. Inl ''no''), he_from_json = (\<lambda>_. None),
     he_write = (\<lambda>f s. (True, Text s)), he_now = ''t''\<rparr>, mn_service = demo_service_env,
     mn_kc = demo_kc, mn_devices = []\<rparr>"

definition demo_root_world :: main_world where
  "demo_root_world = \<lparr>mw_out = [], mw_actions = [], mw_pe = \<lparr>pe_var = [''USER'' \<mapsto> ''root''], pe_home_dir = None,
     pe_config_dir = None, pe_file = (\<lambda>_. Text ''W'')\<rparr>\<rparr>"

theorem admin_commands_refine_store_witness:
  "pe_file (mw_pe (snd (main demo_main_env (CmdServer (Some (SubApprove ''c1'')) None None None False False)
     demo_root_world))) ''/etc/joycast/trusted_clients.json'' = Text ''G''"
proof -
  let ?sys = "\<lparr>ts_path = ''/etc/joycast/trusted_clients.json'', ts_file = Text ''W'', ts_mem = (\<lambda>_. demo_waiting)\<rparr>"
  have p: "ts_path ?sys = trust_store_path (mw_pe demo_root_world) None"
    by (simp add: demo_root_world_def trust_store_path_def file_exists_def path_join_def)
  have f: "ts_file ?sys = pe_file (mw_pe demo_root_world) (ts_path ?sys)" by (simp add: demo_root_world_def)
  have m: "ts_mem ?sys 0 = load_trust (mn_trust demo_main_env) (ts_file ?sys)"
    by (simp add: load_trust_def demo_main_env_def)
  have "mn_trust demo_main_env = demo_env" by (simp add: demo_main_env_def)
  then have "ts_file (trust_sys_step ?sys (0, mn_trust demo_main_env, Approve ''c1'')) = Text ''G''"
    by (simp add: demo_approve put_manager_def)
  with admin_commands_refine_store [OF _ p f m, of "SubApprove ''c1''" "Approve ''c1''" None None None False False]
  show ?thesis by simp
qed

lemma show_nat_step:
  "n < 10 \<Longrightarrow> show_nat n = [digit_char n]"
  "\<not> n < 10 \<Longrightarrow> show_nat n = show_nat (n div 10) @ [digit_char (n mod 10)]"
  by (subst show_nat.simps, simp)+

lemma show_default_digits:
  "digit_char 0 = CHR ''0''" "digit_char 1 = CHR ''1''" "digit_char (Suc 0) = CHR ''1''" "digit_char 2 = CHR ''2''"
  "digit_char 3 = CHR ''3''" "digit_char 8 = CHR ''8''" "digit_char 9 = CHR ''9''"
  by code_simp+

text \<open>
  Plain \<^verbatim>\<open>joycast server\<close> runs with the default configuration: no bind address on the command
  line means the one of \<^verbatim>\<open>ServerConfig::default\<close>, which is the address that the literal
  ''0.0.0.0:12398'' parses to; the store is the one the command line uses.
\<close>

theorem default_server_config:
  "main env (CmdServer None None None None False False) w =
     (RunServer (server_config_default\<lparr>sc_trust_manager := Some (trust_new (mn_trust env) (mw_pe w) None)\<rparr>), w)"
proof -
  have "show_socket_v4 (Ipv4 0 0 0 0) 12398 = ''0.0.0.0:12398''"
    by (simp add: show_socket_v4_def show_nat_step show_default_digits)
  with parse_show_socket [of "Ipv4 0 0 0 0" 12398] have "parse_socket_addr ''0.0.0.0:12398'' = Some any_addr"
    by (simp add: any_addr_def DEFAULT_PORT_def)
  then show ?thesis
    by (simp add: main_def main_server_def start_config_def server_config_default_def or_else_def Let_def)
qed

end
