(* ===== verification/Pairing.thy ===== *)
theory Pairing
  imports EndToEnd MainCli
begin

text \<open>
  How a client is let in: it knocks, the server notes it and refuses, the administrator runs
  \<^verbatim>\<open>joycast server approve\<close> in another process, and the client's next try opens a session. The client
  of \<^verbatim>\<open>client.rs\<close>, the server of \<^verbatim>\<open>server.rs\<close>, the store of \<^verbatim>\<open>trust.rs\<close> and the command line of
  \<^verbatim>\<open>main.rs\<close> meet here; they share nothing but datagrams and the store's file.
\<close>

section \<open>The first try\<close>

text \<open>A client that starts, finds its device and can send.\<close>

definition ready_client :: "codec \<Rightarrow> client_env \<Rightarrow> client_state \<Rightarrow> evdev_device \<Rightarrow> string \<Rightarrow> bool" where
  "ready_client c env st d path \<longleftrightarrow>
     cn_codec env = c \<and> cn_send_err env = None \<and> cl_phase st = WaitDevice \<and> cl_sent st = [] \<and>
     fst (try_open_initial_device env (cl_selection st)) = Some (d, path)"

definition refused :: client_phase where
  "refused = Done (Err (Fail [''Connection pending server authorization.'']))"

lemma refused_client:
  assumes "ready_client c cenv cst d path" and "codec_ok c"
    and "message_encode c (handshake_message cenv (ca_client_id args) (extract_metadata d) path) = Ok hello"
    and "message_encode c (HandshakeAck PendingApproval host txt) = Ok note"
  shows "cl_sent (udp_client_step args cst (cenv, DeviceTick)) = [hello]"
    and "cl_phase (udp_client_step args (udp_client_step args cst (cenv, DeviceTick)) (cenv, Received (Ok note))) = refused"
proof -
  obtain sel where "try_open_initial_device cenv (cl_selection cst) = (Some (d, path), sel)"
    using assms(1) by (cases "try_open_initial_device cenv (cl_selection cst)") (auto simp: ready_client_def)
  with assms(1,3) have c1: "udp_client_step args cst (cenv, DeviceTick) =
      cst\<lparr>cl_selection := sel, cl_phase := WaitAck d path, cl_sent := [hello]\<rparr>"
    by (simp add: ready_client_def udp_client_step_def udp_client_wait_def udp_client_send_def)
  then show "cl_sent (udp_client_step args cst (cenv, DeviceTick)) = [hello]" by simp
  have "message_decode (cn_codec cenv) note = Ok (HandshakeAck PendingApproval host txt)"
    using codec_okD [OF assms(2,4)] assms(1) by (simp add: ready_client_def)
  then show "cl_phase (udp_client_step args (udp_client_step args cst (cenv, DeviceTick)) (cenv, Received (Ok note))) = refused"
    unfolding c1 by (simp add: udp_client_step_def udp_client_ack_def on_ack_def finish_with_def refused_def)
qed

text \<open>What the server has noted of it.\<close>

lemma registered_pending:
  assumes "gate_env_ok J te" and "\<not> tm_admits J tm cid"
  shows "cid |\<in>| fmdom (td_pending (tm_data (register_pending te cid h n t tm)))"
    and "td_approved (tm_data (register_pending te cid h n t tm)) = td_approved (effective_data J tm)"
  using assms
  by (simp_all add: gate_env_ok_def register_pending_def register_commit_def Let_def save_frame
      reload_effective tm_admits_def)

lemma knocked_pending:
  assumes "gate_env_ok J (sn_trust env)" and "\<not> admitted J st (hp_client_id p)"
  shows "hp_client_id p |\<in>| fmdom (td_pending (ts_mem
    (foldl trust_sys_step (sv_trust st) (knock_trace st env p t)) 0))"
proof -
  let ?tm = "manager_of 0 (sv_trust st)" and ?cid = "hp_client_id p"
  obtain b tm1 where q: "is_approved (sn_trust env) ?cid ?tm = (b, tm1)"
    by (cases "is_approved (sn_trust env) ?cid ?tm")
  have "\<not> tm_admits J ?tm ?cid" using assms(2) by (simp add: admitted_def)
  with q tg.query_answer [OF assms(1), of ?cid ?tm] tg.query_admits [OF assms(1), of ?cid ?tm ?cid]
  have "\<not> b" and "\<not> tm_admits J tm1 ?cid" by simp_all
  then have "?cid |\<in>| fmdom (td_pending (tm_data (tg.knock (sn_trust env)
      (?cid, hp_client_hostname p, dm_name (hp_metadata p), t) ?tm)))"
    using registered_pending(1) [OF assms(1)] by (simp add: tg.knock_def q)
  then show ?thesis
    using manager_knock [of st env p t] by (metis manager_of_def trust_manager.select_convs(3))
qed

section \<open>The administrator\<close>

abbreviation approve_command :: "string \<Rightarrow> commands" where
  "approve_command cid \<equiv> CmdServer (Some (SubApprove cid)) None None None False False"

lemma approved_by_main:
  assumes "gate_env_ok J (mn_trust env)"
    and "parse_file J (pe_file (mw_pe w) (trust_store_path (mw_pe w) None)) = Some d"
    and "cid |\<in>| fmdom (td_pending d)"
    and "main env (approve_command cid) w = (Finished (Ok ()), w')"
  shows "\<exists>d'. parse_file J (pe_file (mw_pe w') (trust_store_path (mw_pe w) None)) = Some d' \<and>
    cid |\<in>| fmdom (td_approved d')"
proof -
  let ?te = "mn_trust env"
  let ?tm = "trust_new ?te (mw_pe w) None"
  have te: "trust_env_ok ?te" "te_from_json ?te = J" using assms(1) by (simp_all add: gate_env_ok_def)
  have path: "tm_path ?tm = trust_store_path (mw_pe w) None" by (simp add: trust_new_def Let_def)
  from assms(4) obtain a tm' where ap: "approve ?te cid ?tm = (Ok a, tm')"
    and w': "pe_file (mw_pe w') = (pe_file (mw_pe w))(tm_path tm' := tm_file tm')"
    by (auto simp: main_def main_server_def admin_command_def print_lines_def Let_def split: prod.splits sum.splits)
  have d: "tm_data (reload ?te ?tm) = d"
    using assms(2) by (simp add: reload_effective effective_data_def te(2) trust_new_def Let_def)
  from te(1) ap obtain k p where m: "match_id ?te (fmdom (td_pending (tm_data (reload ?te ?tm)))) cid = Some k"
    and d': "tm_data tm' = move_to_approved ?te k p (tm_data (reload ?te ?tm))"
    and f: "parse_file J (tm_file tm') = Some (tm_data tm')"
    by (rule approve_OkE) (simp add: te(2))
  have "k = cid" using match_id_Some(3) [OF te(1) m] assms(3) by (simp add: d)
  moreover have "tm_path tm' = tm_path ?tm" 
    using trust_op_step_path [of ?te "Approve cid" ?tm] ap by simp
  ultimately show ?thesis
    using f d' by (simp add: w' path move_to_approved_def)
qed


section \<open>The whole exchange\<close>

text \<open>
  C15. Pairing end to end over Direct UDP. A client that nobody approved sends its handshake: the
  server answers with a notice, the client stops with the message that approval is pending, and if
  the server could write its store, the file now lists the client as pending. Then the administrator
  runs the command of the notice, \<^verbatim>\<open>joycast server approve\<close> with that id, as another process, and it
  reports success. When the client is started again, from any address and with any device, and the
  device can be created, its handshake opens a session with a virtual device made from that
  controller's metadata, and the client streams.
\<close>

theorem pairing_end_to_end:
  assumes "codec_ok c" and "ready_client c cenv cst d path" and "ready_client c cenv2 cst2 d2 path2"
    and "cn_stream_err cenv2 = None" and "sn_codec senv = c" and "sn_codec senv2 = c"
    and "message_encode c (handshake_message cenv cid (extract_metadata d) path) = Ok hello"
    and "message_encode c (ack senv PendingApproval (pending_text cid)) = Ok note"
    and "message_encode c (handshake_message cenv2 cid (extract_metadata d2) path2) = Ok hello2"
    and "message_encode c (ack senv2 Approved ''Connection authorized'') = Ok reply"
    and "ca_client_id args = cid"
    and "gate_env_ok J (sn_trust senv)" and "gate_env_ok J (mn_trust menv)" and "gate_env_ok J (sn_trust senv2)"
    and "sv_udp st" and "\<not> admitted J st cid"
    and "st1 = server_step st (senv, UdpDatagram src hello)"
    and "parse_file J (ts_file (sv_trust st1)) = Some (ts_mem (sv_trust st1) 0)"
    and "pe_file (mw_pe w) (trust_store_path (mw_pe w) None) = ts_file (sv_trust st1)"
    and "main menv (approve_command cid) w = (Finished (Ok ()), w')"
    and "st2 = st1\<lparr>sv_trust := (sv_trust st1)\<lparr>ts_file := pe_file (mw_pe w') (trust_store_path (mw_pe w) None)\<rparr>\<rparr>"
    and "st3 = server_step st2 (senv2, UdpDatagram src2 hello2)"
    and "creatable (sn_uinput senv2) (extract_metadata d2)"
    and "fmlookup (sv_sessions st) (cid @ '':'' @ path2) = None"
  shows "cl_sent (udp_client_step args cst (cenv, DeviceTick)) = [hello] \<and>
    sv_sent st1 = sv_sent st @ [(note, src)] \<and> sv_sessions st1 = sv_sessions st \<and>
    cid |\<in>| fmdom (td_pending (ts_mem (sv_trust st1) 0)) \<and>
    cl_phase (udp_client_step args (udp_client_step args cst (cenv, DeviceTick)) (cenv, Received (Ok note))) = refused \<and>
    cl_sent (udp_client_step args cst2 (cenv2, DeviceTick)) = [hello2] \<and>
    sv_sent st3 = sv_sent st1 @ [(reply, src2)] \<and> bound st3 (UdpPeer src2) = Some (cid @ '':'' @ path2) \<and>
    (\<exists>s. fmlookup (sv_sessions st3) (cid @ '':'' @ path2) = Some s \<and> vo_log (se_vdev s) = [] \<and>
       uc_id (vo_config (se_vdev s)) = dv_input_id d2 \<and> uc_abs (vo_config (se_vdev s)) = extract_abs_axes d2) \<and>
    cl_phase (udp_client_step args (udp_client_step args cst2 (cenv2, DeviceTick)) (cenv2, Received (Ok reply))) =
      Streaming (reconnecting_new path2 (extract_metadata d2)) (Some d2)"
proof -
  let ?p = "\<lparr>hp_client_id = cid, hp_client_hostname = cn_hostname cenv, hp_metadata = extract_metadata d,
    hp_device_id = Some path\<rparr>"
  have hello: "message_decode (sn_codec senv) hello = Ok (Handshake ?p)"
    using codec_okD [OF assms(1,7)] assms(5) by (simp add: handshake_message_def)
  have ok: "env_ok J (senv, UdpDatagram src hello)" using assms(12) by (simp add: env_ok_def)
  have "\<not> admitted J st (hp_client_id ?p)" using assms(16) by simp
  note un = udp_unapproved_handshake [OF ok assms(15) hello this]
  have "message_encode (sn_codec senv) (HandshakeAck PendingApproval (sn_hostname senv) (pending_text cid)) = Ok note"
    using assms(5,8) by (simp add: ack_def)
  with un have st1: "sv_sent st1 = sv_sent st @ [(note, src)]" "sv_sessions st1 = sv_sessions st"
    unfolding assms(17) by (simp_all add: Let_def)
  have "sv_trust st1 = foldl trust_sys_step (sv_trust st) (knock_trace st senv ?p ''Direct UDP'')" and "sv_udp st1"
    unfolding assms(17) using assms(15,16) hello udp_handshake_pending [OF ok, of st ?p]
    by (simp_all add: udp_datagram_def udp_handshake_trust)
  with knocked_pending [OF assms(12), of st ?p] assms(16)
  have pend: "cid |\<in>| fmdom (td_pending (ts_mem (sv_trust st1) 0))" and udp: "sv_udp st1" by simp_all
  have "parse_file J (pe_file (mw_pe w) (trust_store_path (mw_pe w) None)) = Some (ts_mem (sv_trust st1) 0)"
    using assms(18,19) by simp
  from approved_by_main [OF assms(13) this pend assms(20)]
  have adm: "admitted J st2 (ca_client_id args)"
    by (auto simp: assms(11,21) admitted_def tm_admits_def effective_data_def)
  obtain sel where open2: "try_open_initial_device cenv2 (cl_selection cst2) = (Some (d2, path2), sel)"
    using assms(3) by (cases "try_open_initial_device cenv2 (cl_selection cst2)") (auto simp: ready_client_def)
  have ready2: "cn_codec cenv2 = c" "cn_send_err cenv2 = None" "cl_phase cst2 = WaitDevice" "cl_sent cst2 = []"
    using assms(3) by (simp_all add: ready_client_def)
  have hello2: "message_encode c (handshake_message cenv2 (ca_client_id args) (extract_metadata d2) path2) = Ok hello2"
    using assms(9,11) by simp
  have reply: "message_encode c (HandshakeAck Approved (sn_hostname senv2) ''Connection authorized'') = Ok reply"
    using assms(10) by (simp add: ack_def)
  have ok2: "env_ok J (senv2, UdpDatagram src2 hello2)" using assms(14) by (simp add: env_ok_def)
  have "sv_udp st2" and "fmlookup (sv_sessions st2) (ca_client_id args @ '':'' @ path2) = None"
    using udp st1(2) assms(11,24) by (simp_all add: assms(21))
  note second = udp_handshake_end_to_end [OF assms(1) ready2(1) assms(6) ready2(2) assms(4) ready2(3,4) open2
      hello2 reply ok2 this(1) adm assms(23) this(2)]
  have "message_encode c (HandshakeAck PendingApproval (sn_hostname senv) (pending_text cid)) = Ok note"
    using assms(8) by (simp add: ack_def)
  note first = refused_client [OF assms(2,1) assms(7) [folded assms(11)] this]
  show ?thesis
    using first st1 pend second by (simp add: assms(11,21,22) Let_def del: server_step.simps)
qed

section \<open>A concrete exchange\<close>

definition pair_codec :: codec where
  "pair_codec = table_codec
     [(handshake_message (demo_cenv []) ''c1'' (extract_metadata demo_pad) ''/dev/input/event3'', [1]),
      (HandshakeAck Approved ''desk'' ''Connection authorized'', [5]),
      (HandshakeAck PendingApproval ''desk'' (pending_text ''c1''), [6])]"

definition pair_cenv :: client_env where
  "pair_cenv = demo_hello_env\<lparr>cn_codec := pair_codec\<rparr>"

definition pair_senv :: server_env where
  "pair_senv = (demo_senv 7)\<lparr>sn_codec := pair_codec, sn_trust := demo_env\<lparr>te_now := ''t0''\<rparr>\<rparr>"

lemma pair_simps [simp]:
  "cn_codec pair_cenv = pair_codec" "cn_send_err pair_cenv = None" "cn_stream_err pair_cenv = None"
  "cn_hostname pair_cenv = ''laptop''" "sn_codec pair_senv = pair_codec" "sn_hostname pair_senv = ''desk''"
  "sn_uinput pair_senv = demo_uinput" "sn_trust pair_senv = demo_env\<lparr>te_now := ''t0''\<rparr>"
  by (simp_all add: pair_cenv_def pair_senv_def)

lemma pair_codec_ok: "codec_ok pair_codec"
  unfolding pair_codec_def by (rule table_codec_ok) simp

lemma pair_encode:
  "message_encode pair_codec (handshake_message pair_cenv ''c1'' (extract_metadata demo_pad) ''/dev/input/event3'') = Ok [1]"
  "message_encode pair_codec (ack pair_senv Approved ''Connection authorized'') = Ok [5]"
  "message_encode pair_codec (ack pair_senv PendingApproval (pending_text ''c1'')) = Ok [6]"
  by (simp_all add: handshake_message_def ack_def)
    (simp_all add: pair_codec_def message_encode_def table_codec_def handshake_message_def)

lemma pair_ready: "ready_client pair_codec pair_cenv demo_iroh_start demo_pad ''/dev/input/event3''"
  by (simp add: ready_client_def try_open_initial_device_def demo_iroh_start_def demo_cstate_def)
    (simp add: pair_cenv_def demo_hello_env_def demo_cenv_def)

lemma pair_gate: "gate_env_ok (te_from_json demo_env) (demo_env\<lparr>te_now := t\<rparr>)"
  using demo_env_ok by (simp add: gate_env_ok_def trust_env_ok_def)

lemma pair_register:
  assumes "tm_file tm = Text ''E''"
  shows "register_pending (demo_env\<lparr>te_now := ''t0''\<rparr>) ''c1'' ''laptop'' ''Pad'' ''Direct UDP'' tm =
    tm\<lparr>tm_file := Text ''W'', tm_data := demo_waiting\<rparr>"
proof -
  have "reload (demo_env\<lparr>te_now := ''t0''\<rparr>) tm = tm\<lparr>tm_data := trust_default\<rparr>"
    using assms by (simp add: reload_def)
  moreover have "trust_default\<lparr>td_pending := fmupd ''c1'' \<lparr>pc_client_id = ''c1'', pc_hostname = ''laptop'',
      pc_device_name = ''Pad'', pc_transport = ''Direct UDP'', pc_first_seen = ''t0''\<rparr> (td_pending trust_default)\<rparr> = demo_waiting"
    by (simp add: trust_default_def demo_waiting_def demo_pending_def)
  moreover have "td_approved trust_default = fmempty" by (simp add: trust_default_def)
  ultimately show ?thesis by (simp add: register_pending_def register_commit_def save_def Let_def)
qed

lemma pair_not_admitted: "\<not> admitted (te_from_json demo_env) (demo_server (Text ''E'')) ''c1''"
  by (simp add: admitted_def tm_admits_def effective_data_def parse_file_def trust_default_def)

lemma pair_first:
  "sv_trust (server_step (demo_server (Text ''E'')) (pair_senv, UdpDatagram demo_addr [1])) =
     demo_sys\<lparr>ts_file := Text ''W'', ts_mem := (\<lambda>_. trust_default)(0 := demo_waiting)\<rparr>"
proof -
  let ?p = "\<lparr>hp_client_id = ''c1'', hp_client_hostname = ''laptop'', hp_metadata = extract_metadata demo_pad,
    hp_device_id = Some ''/dev/input/event3''\<rparr>"
  have "message_decode pair_codec [1] = Ok (Handshake ?p)"
    using codec_okD [OF pair_codec_ok pair_encode(1)] by (simp add: handshake_message_def)
  then have "server_step (demo_server (Text ''E'')) (pair_senv, UdpDatagram demo_addr [1]) =
      udp_handshake pair_senv demo_addr ?p (demo_server (Text ''E''))"
    by (simp add: udp_datagram_def)
  moreover have "fst (is_approved (demo_env\<lparr>te_now := ''t0''\<rparr>) ''c1'' tm) = False" if "tm_file tm = Text ''E''" for tm
    using that by (simp add: is_approved_fst reload_def) (simp add: trust_default_def)
  moreover have "dm_name (extract_metadata demo_pad) = ''Pad''" by (simp add: extract_metadata_def demo_pad_def)
  ultimately show ?thesis
    by (simp add: udp_handshake_trust knock_trace_def pair_register put_manager_def is_approved_def Let_def)
qed

lemma pair_main:
  "main demo_main_env (approve_command ''c1'') demo_root_world =
     (Finished (Ok ()), snd (main demo_main_env (approve_command ''c1'') demo_root_world))"
proof -
  have "tm_file (trust_new demo_env (mw_pe demo_root_world) None) = Text ''W''"
    by (simp add: trust_new_def demo_root_world_def Let_def)
  from demo_approve [OF this] show ?thesis
    by (simp add: main_def main_server_def admin_command_def demo_main_env_def Let_def)
qed

theorem pairing_end_to_end_witness:
  "let st1 = server_step (demo_server (Text ''E'')) (pair_senv, UdpDatagram demo_addr [1]);
       w' = snd (main demo_main_env (approve_command ''c1'') demo_root_world);
       st2 = st1\<lparr>sv_trust := (sv_trust st1)\<lparr>ts_file := pe_file (mw_pe w') (trust_store_path (mw_pe demo_root_world) None)\<rparr>\<rparr>;
       st3 = server_step st2 (pair_senv, UdpDatagram demo_addr [1])
   in sv_sent st3 = [([6], demo_addr), ([5], demo_addr)] \<and>
      bound st3 (UdpPeer demo_addr) = Some ''c1:/dev/input/event3''"
proof -
  let ?J = "te_from_json demo_env" and ?st = "demo_server (Text ''E'')" and ?w = demo_root_world
  let ?st1 = "server_step ?st (pair_senv, UdpDatagram demo_addr [1])"
  have m: "gate_env_ok ?J (mn_trust demo_main_env)" by (simp add: demo_main_env_def)
  have s: "gate_env_ok ?J (sn_trust pair_senv)" using pair_gate by simp
  have f: "parse_file ?J (ts_file (sv_trust ?st1)) = Some (ts_mem (sv_trust ?st1) 0)"
    by (simp only: pair_first) (simp add: parse_file_def)
  have w: "pe_file (mw_pe ?w) (trust_store_path (mw_pe ?w) None) = ts_file (sv_trust ?st1)"
    by (simp only: pair_first) (simp add: demo_root_world_def)
  have c: "creatable (sn_uinput pair_senv) (extract_metadata demo_pad)" by (simp add: demo_creatable)
  have "ca_client_id demo_args = ''c1''" and "sv_udp ?st" by (simp_all add: demo_args_def)
  from pairing_end_to_end [OF pair_codec_ok pair_ready pair_ready _ _ _ pair_encode(1,3,1,2) this(1) s m s this(2)
      pair_not_admitted refl f w pair_main refl refl c]
  show ?thesis by (simp add: Let_def del: server_step.simps)
qed

end
