(* ===== verification/TransportShow.thy ===== *)
theory TransportShow
  imports Transport
begin

text \<open>
  \<^verbatim>\<open>Display\<close> of a target (\<^verbatim>\<open>src/transport.rs\<close>) and the way back through \<open>target_from_str\<close>. The text of
  an address is the standard library's (\<^verbatim>\<open>core::net\<close>): groups in hexadecimal, the first longest run
  of two or more zero groups written \<^verbatim>\<open>::\<close>, an IPv4-mapped address with its last part in decimal; a
  scope id is printed unless it is 0, the flow information never.
\<close>

section \<open>Printing\<close>

fun hex_digits :: "nat \<Rightarrow> nat list" where
  "hex_digits n = (if n < 16 then [n] else hex_digits (n div 16) @ [n mod 16])"

declare hex_digits.simps [simp del]

definition hex_char :: "nat \<Rightarrow> char" where
  "hex_char d = char_of (if d < 10 then 48 + d else 87 + d)"

definition show_hex :: "nat \<Rightarrow> string" where
  "show_hex n = map hex_char (hex_digits n)"

text \<open>A run of groups: each is printed after a colon, the first without.\<close>

definition colon_groups :: "u16 list \<Rightarrow> string" where
  "colon_groups gs = concat (map (\<lambda>g. CHR '':'' # show_hex (unat g)) gs)"

fun show_groups :: "u16 list \<Rightarrow> string" where
  "show_groups [] = []"
| "show_groups (g # gs) = show_hex (unat g) @ colon_groups gs"

text \<open>A span of zero groups is its start and its length: the longest so far and the one that
  ends at the last group.\<close>

fun span_step :: "(nat \<times> nat) \<times> (nat \<times> nat) \<Rightarrow> nat \<times> u16 \<Rightarrow> (nat \<times> nat) \<times> (nat \<times> nat)" where
  "span_step (longest, start, len) (i, g) =
     (if g = 0
      then let current = (if len = 0 then i else start, len + 1)
           in (if snd longest < snd current then current else longest, current)
      else (longest, 0, 0))"

definition zero_span :: "u16 list \<Rightarrow> nat \<times> nat" where
  "zero_span g = fst (foldl span_step ((0, 0), 0, 0) (enumerate 0 g))"

definition be_bytes :: "u16 \<Rightarrow> u8 \<times> u8" where
  "be_bytes x = (ucast (drop_bit 8 x), ucast x)"

definition to_ipv4_mapped :: "u16 list \<Rightarrow> ipv4_addr option" where
  "to_ipv4_mapped g =
     (if take 6 g = [0, 0, 0, 0, 0, 0xFFFF]
      then (case (be_bytes (g ! 6), be_bytes (g ! 7)) of ((a, b), (c, d)) \<Rightarrow> Some (Ipv4 a b c d))
      else None)"

definition show_ipv6 :: "u16 list \<Rightarrow> string" where
  "show_ipv6 g =
     (case to_ipv4_mapped g of
        Some a \<Rightarrow> ''::ffff:'' @ show_ipv4 a
      | None \<Rightarrow>
          (case zero_span g of (start, len) \<Rightarrow>
             if 1 < len then show_groups (take start g) @ ''::'' @ show_groups (drop (start + len) g)
             else show_groups g))"

fun show_ip :: "ip_addr \<Rightarrow> string" where
  "show_ip (IpV4 a) = show_ipv4 a"
| "show_ip (IpV6 g) = show_ipv6 g"

fun show_socket :: "socket_addr \<Rightarrow> string" where
  "show_socket (SocketV4 a port) = show_socket_v4 a port"
| "show_socket (SocketV6 g port flowinfo scope_id) =
     ''['' @ show_ipv6 g @ (if scope_id = 0 then [] else ''%'' @ show_nat (unat scope_id)) @ '']:'' @
     show_nat (unat port)"

fun target_display :: "(public_key \<Rightarrow> string) \<Rightarrow> target_address \<Rightarrow> string" where
  "target_display show_key (Ip addr) = show_socket addr"
| "target_display show_key (Iroh pk) = show_key pk"

section \<open>Hexadecimal numbers\<close>

lemma hex_digits_nonempty [simp]: "hex_digits n \<noteq> []"
  by (subst hex_digits.simps) simp

lemma hex_digits_small: "d \<in> set (hex_digits n) \<Longrightarrow> d < 16"
proof (induction n rule: hex_digits.induct)
  case (1 n)
  then show ?case by (subst (asm) (2) hex_digits.simps) (auto split: if_splits)
qed

lemma digits_value_hex_digits: "digits_value 16 (hex_digits n) = n"
proof (induction n rule: hex_digits.induct)
  case (1 n)
  then show ?case by (subst hex_digits.simps) (simp add: digits_value_def)
qed

lemma length_hex_digits: "n < 16 ^ Suc k \<Longrightarrow> length (hex_digits n) \<le> Suc k"
proof (induction k arbitrary: n)
  case 0
  then show ?case by (subst hex_digits.simps) simp
next
  case (Suc k)
  then have "n div 16 < 16 ^ Suc k" by (simp add: less_mult_imp_div_less mult.commute)
  with Suc.IH show ?case by (subst hex_digits.simps) simp
qed

lemma to_digit_hex_char: "d < 16 \<Longrightarrow> to_digit 16 (hex_char d) = Some d"
  by (auto simp: to_digit_def hex_char_def Let_def)

lemma to_digit_16_None: "to_digit 16 c = None \<Longrightarrow> to_digit 10 c = None"
  by (auto simp: to_digit_def Let_def split: if_splits)

lemma scan_digits_hex:
  "\<forall>d \<in> set ds. d < 16 \<Longrightarrow> rest = [] \<or> to_digit 16 (hd rest) = None \<Longrightarrow>
   scan_digits 16 (map hex_char ds @ rest) = (ds, rest)"
proof (induction ds)
  case Nil
  then show ?case by (cases rest) auto
qed (simp add: to_digit_hex_char)

lemma read_number_show_hex:
  assumes "rest = [] \<or> to_digit 16 (hd rest) = None"
  shows "read_number 16 (Some 4) True 65536 (show_hex (unat (g :: u16)) @ rest) = Some (unat g, rest)"
proof -
  have "unat g < 16 ^ Suc 3" using unat_u16_less [of g] by simp
  then have "length (hex_digits (unat g)) \<le> Suc 3" by (rule length_hex_digits)
  moreover have "scan_digits 16 (show_hex (unat g) @ rest) = (hex_digits (unat g), rest)"
    unfolding show_hex_def using assms by (intro scan_digits_hex) (auto dest: hex_digits_small)
  ultimately show ?thesis by (simp add: read_number_def digits_value_hex_digits)
qed

section \<open>Where a group ends\<close>

text \<open>After a printed group comes no dot and no digit; after the last one of a run comes nothing
  that begins with a single colon either.\<close>

definition group_end :: "string \<Rightarrow> bool" where
  "group_end s \<longleftrightarrow> s = [] \<or> to_digit 16 (hd s) = None \<and> hd s \<noteq> CHR ''.''"

definition run_end :: "string \<Rightarrow> bool" where
  "run_end s \<longleftrightarrow> group_end s \<and> (\<forall>s'. s = CHR '':'' # s' \<longrightarrow> s' \<noteq> [] \<and> hd s' = CHR '':'')"

lemma group_end_simps [simp]:
  "group_end []" "group_end (CHR '':'' # s)" "group_end (CHR ''%'' # s)" "group_end (CHR '']'' # s)"
  by (simp_all add: group_end_def to_digit_def)

lemma run_end_simps [simp]:
  "run_end []" "run_end (CHR '':'' # CHR '':'' # s)" "run_end (CHR ''%'' # s)" "run_end (CHR '']'' # s)"
  by (simp_all add: run_end_def)

lemma run_end_group_end: "run_end s \<Longrightarrow> group_end s"
  by (simp add: run_end_def)

lemma group_end_number: "group_end s \<Longrightarrow> s = [] \<or> to_digit 16 (hd s) = None"
  by (auto simp: group_end_def)

lemma group_end_no_digit: "group_end s \<Longrightarrow> no_digit s"
  by (auto simp: group_end_def no_digit_def to_digit_16_None)

lemma scan_digits_no_dot:
  "CHR ''.'' \<notin> set h \<Longrightarrow> group_end rest \<Longrightarrow> scan_digits 10 (h @ rest) = (ds, s) \<Longrightarrow>
   s = [] \<or> hd s \<noteq> CHR ''.''"
proof (induction h arbitrary: ds)
  case Nil
  then show ?case using scan_digits_stop [OF group_end_no_digit [OF Nil(2)]] by (auto simp: group_end_def)
next
  case (Cons c h)
  then show ?case by (auto split: option.splits prod.splits)
qed

lemma hex_char_cases: "c \<in> set (show_hex n) \<Longrightarrow> to_digit 16 c \<noteq> None"
  by (auto simp: show_hex_def to_digit_hex_char dest: hex_digits_small)

lemma hex_char_not: "to_digit 16 c \<noteq> None \<Longrightarrow>
  c \<noteq> CHR ''.'' \<and> c \<noteq> CHR '':'' \<and> c \<noteq> CHR ''['' \<and> \<not> is_ascii_space c"
  by (auto simp: to_digit_def is_ascii_space_def Let_def split: if_splits)

lemma read_ipv4_no_dot:
  assumes "CHR ''.'' \<notin> set h" and "group_end rest"
  shows "read_ipv4_addr (h @ rest) = None"
proof (cases "read_octet 0 (h @ rest)")
  case (Some r)
  then obtain n s where r: "read_octet 0 (h @ rest) = Some (n, s)" by (cases r) auto
  then obtain ds where "scan_digits 10 (h @ rest) = (ds, s)"
    by (auto simp: read_octet_def read_separator_def read_number_def split: prod.splits if_splits)
  from scan_digits_no_dot [OF assms this] have "read_octet 1 s = None"
    by (cases s) (auto simp: read_octet_def read_separator_def)
  with r show ?thesis by (simp add: read_ipv4_addr_def)
qed (simp add: read_ipv4_addr_def)

lemma read_ipv4_show_hex: "group_end rest \<Longrightarrow> read_ipv4_addr (show_hex n @ rest) = None"
  by (rule read_ipv4_no_dot) (use hex_char_cases hex_char_not in blast)

lemma read_ends: "group_end s \<Longrightarrow> read_ipv4_addr s = None" "group_end s \<Longrightarrow> read_number 16 mx zp limit s = None"
  using read_ipv4_no_dot [of "[]" s]
  by (simp_all, cases s) (auto simp: read_number_def group_end_def)

lemma read_separator_run_end:
  "run_end s \<Longrightarrow> read_separator CHR '':'' i read_ipv4_addr s = None"
  "run_end s \<Longrightarrow> read_separator CHR '':'' i (read_number 16 mx zp limit) s = None"
  by (cases s; auto simp: read_separator_def run_end_def read_ends group_end_def to_digit_def)+

section \<open>Reading groups back\<close>

lemma colon_groups_simps [simp]:
  "colon_groups [] = []" "colon_groups (g # gs) = CHR '':'' # show_hex (unat g) @ colon_groups gs"
  by (simp_all add: colon_groups_def)

lemma group_end_colon_groups: "run_end rest \<Longrightarrow> group_end (colon_groups gs @ rest)"
  by (cases gs) (simp_all add: run_end_group_end)

lemma read_groups_end: "run_end rest \<Longrightarrow> read_groups n i rest = ([], False, rest)"
  by (cases n) (simp_all add: read_separator_run_end)

lemma read_groups_more:
  "length gs \<le> n \<Longrightarrow> run_end rest \<Longrightarrow>
   read_groups n (Suc i) (colon_groups gs @ rest) = (gs, False, rest)"
proof (induction gs arbitrary: n i)
  case Nil
  then show ?case by (simp add: read_groups_end)
next
  case (Cons g gs)
  then obtain m where n: "n = Suc m" "length gs \<le> m" by (cases n) auto
  have e: "group_end (colon_groups gs @ rest)" by (rule group_end_colon_groups [OF Cons.prems(2)])
  from Cons.IH [OF n(2) Cons.prems(2)] n(2) show ?case
    by (auto simp: n(1) read_separator_def read_ipv4_show_hex [OF e]
        read_number_show_hex [OF group_end_number [OF e]])
qed

lemma read_groups_show:
  assumes "length gs \<le> n" and "run_end rest"
  shows "read_groups n 0 (show_groups gs @ rest) = (gs, False, rest)"
proof (cases gs)
  case Nil
  with assms show ?thesis by (simp add: read_groups_end)
next
  case (Cons g hs)
  with assms(1) obtain m where n: "n = Suc m" "length hs \<le> m" by (cases n) auto
  have e: "group_end (colon_groups hs @ rest)" by (rule group_end_colon_groups [OF assms(2)])
  from read_groups_more [OF n(2) assms(2)] n(2) show ?thesis
    by (auto simp: n(1) Cons read_separator_def read_ipv4_show_hex [OF e]
        read_number_show_hex [OF group_end_number [OF e]])
qed

section \<open>The run of zeros\<close>

definition zeros_at :: "u16 list \<Rightarrow> nat \<times> nat \<Rightarrow> bool" where
  "zeros_at g sl \<longleftrightarrow> fst sl + snd sl \<le> length g \<and> (\<forall>i. fst sl \<le> i \<longrightarrow> i < fst sl + snd sl \<longrightarrow> g ! i = 0)"

lemma zeros_at_append: "zeros_at g sl \<Longrightarrow> zeros_at (g @ [x]) sl"
  by (auto simp: zeros_at_def nth_append)

lemma span_fold:
  "zeros_at g (fst (foldl span_step ((0, 0), 0, 0) (enumerate 0 g))) \<and>
   (let cur = snd (foldl span_step ((0, 0), 0, 0) (enumerate 0 g))
    in zeros_at g cur \<and> (0 < snd cur \<longrightarrow> fst cur + snd cur = length g))"
proof (induction g rule: rev_induct)
  case (snoc x g)
  obtain longest start len where f: "foldl span_step ((0, 0), 0, 0) (enumerate 0 g) = (longest, start, len)"
    by (cases "foldl span_step ((0, 0), 0, 0) (enumerate 0 g)") auto
  with snoc have "zeros_at g longest" "zeros_at g (start, len)" "0 < len \<longrightarrow> start + len = length g"
    by (simp_all add: Let_def)
  then show ?case
    using zeros_at_append [of g longest x]
    by (auto simp: enumerate_append_eq f Let_def zeros_at_def nth_append less_Suc_eq)
qed (simp add: zeros_at_def Let_def)

lemma zero_span_split:
  assumes "zero_span g = (start, len)"
  shows "start + len \<le> length g" and "take start g @ replicate len 0 @ drop (start + len) g = g"
proof -
  have z: "zeros_at g (start, len)" using span_fold [of g] assms by (simp add: zero_span_def)
  then show l: "start + len \<le> length g" by (simp add: zeros_at_def)
  have "take len (drop start g) = replicate len 0"
    using z by (intro nth_equalityI) (auto simp: zeros_at_def)
  then have "replicate len 0 @ drop (start + len) g = drop start g"
    by (metis append_take_drop_id drop_drop add.commute)
  then show "take start g @ replicate len 0 @ drop (start + len) g = g" by simp
qed

section \<open>Reading addresses back\<close>

lemma u16_from_be_bytes: "be_bytes x = (a, b) \<Longrightarrow> u16_from_be a b = x"
proof -
  assume "be_bytes x = (a, b)"
  then have "unat a = unat x div 256 mod 256" and "unat b = unat x mod 256"
    by (auto simp: be_bytes_def unsigned_ucast_eq unsigned_drop_bit_eq take_bit_eq_mod drop_bit_eq_div unat_div)
  moreover have "unat x div 256 < 256"
    using unat_u16_less [of x] by (intro less_mult_imp_div_less) simp
  ultimately have "unat a * 256 + unat b = unat x" by simp
  then show ?thesis by (simp add: u16_from_be_def)
qed

lemma hex_char_f: "hex_char 15 = CHR ''f''"
  by code_simp

lemma show_hex_FFFF: "show_hex 65535 = ''ffff''"
  by (simp add: show_hex_def hex_digits.simps [of 65535] hex_digits.simps [of 4095] hex_digits.simps [of 255]
      hex_digits.simps [of 15] hex_char_f)

lemma list_of_8: "length (g :: 'a list) = 8 \<longleftrightarrow> (\<exists>a b c d e f x y. g = [a, b, c, d, e, f, x, y])"
  by (auto simp: numeral_eq_Suc length_Suc_conv)

lemma to_ipv4_mapped_Some:
  assumes "to_ipv4_mapped g = Some a" and "length g = 8"
  obtains w x y z where "a = Ipv4 w x y z" and "g = replicate 5 0 @ [0xFFFF, u16_from_be w x, u16_from_be y z]"
proof -
  obtain w x where wx: "be_bytes (g ! 6) = (w, x)" by (cases "be_bytes (g ! 6)")
  obtain y z where yz: "be_bytes (g ! 7) = (y, z)" by (cases "be_bytes (g ! 7)")
  from assms wx yz have a: "a = Ipv4 w x y z" and "take 6 g = [0, 0, 0, 0, 0, 0xFFFF]"
    by (auto simp: to_ipv4_mapped_def split: if_splits)
  moreover obtain g0 g1 g2 g3 g4 g5 g6 g7 where "g = [g0, g1, g2, g3, g4, g5, g6, g7]"
    using assms(2) by (auto simp: list_of_8)
  ultimately have "g = replicate 5 0 @ [0xFFFF, u16_from_be w x, u16_from_be y z]"
    using u16_from_be_bytes [OF wx] u16_from_be_bytes [OF yz] by (simp add: numeral_eq_Suc)
  with a show thesis by (rule that)
qed

lemma read_groups_mapped:
  assumes "group_end rest"
  shows "read_groups 7 0 (''ffff:'' @ show_ipv4 (Ipv4 w x y z) @ rest) =
    ([0xFFFF, u16_from_be w x, u16_from_be y z], True, rest)"
proof -
  let ?s = "CHR '':'' # show_ipv4 (Ipv4 w x y z) @ rest"
  have n: "(7 :: nat) = Suc 6" "(6 :: nat) = Suc 5" by simp_all
  have e: "group_end ?s" by simp
  have h: "show_hex (unat (0xFFFF :: u16)) = ''ffff''" by (simp add: show_hex_FFFF)
  have f: "''ffff:'' @ show_ipv4 (Ipv4 w x y z) @ rest = ''ffff'' @ ?s" by simp
  have num: "read_number 16 (Some 4) True 65536 (''ffff'' @ ?s) = Some (unat (0xFFFF :: u16), ?s)"
    using read_number_show_hex [OF group_end_number [OF e], of "0xFFFF"] by (simp only: h)
  have no4: "read_ipv4_addr (''ffff'' @ ?s) = None"
    using read_ipv4_show_hex [OF e, of "unat (0xFFFF :: u16)"] by (simp only: h)
  have four: "read_groups 6 (Suc 0) ?s = ([u16_from_be w x, u16_from_be y z], True, rest)"
    using read_ipv4_show [OF group_end_no_digit [OF assms], of "Ipv4 w x y z"]
    unfolding n(2) read_groups.simps(2) by (simp add: read_separator_def del: show_ipv4.simps)
  have "read_groups (Suc 6) 0 (''ffff'' @ ?s) = ([0xFFFF, u16_from_be w x, u16_from_be y z], True, rest)"
    unfolding read_groups.simps(2)
    by (simp add: read_separator_def num no4 four del: show_ipv4.simps append.simps)
  then show ?thesis unfolding f n(1) .
qed

lemma read_ipv6_show:
  assumes "length g = 8" and "run_end rest"
  shows "read_ipv6_addr (show_ipv6 g @ rest) = Some (g, rest)"
proof (cases "to_ipv4_mapped g")
  case (Some a)
  obtain w x y z where a: "a = Ipv4 w x y z" and g: "g = replicate 5 0 @ [0xFFFF, u16_from_be w x, u16_from_be y z]"
    using to_ipv4_mapped_Some [OF Some assms(1)] .
  let ?s = "''ffff:'' @ show_ipv4 a @ rest"
  have "read_groups 8 0 (CHR '':'' # CHR '':'' # ?s) = ([], False, CHR '':'' # CHR '':'' # ?s)"
    by (rule read_groups_end) simp
  moreover have "read_groups 7 0 ?s = ([0xFFFF, u16_from_be w x, u16_from_be y z], True, rest)"
    unfolding a by (rule read_groups_mapped [OF run_end_group_end [OF assms(2)]])
  ultimately show ?thesis
    unfolding read_ipv6_addr_def show_ipv6_def Some by (simp add: g)
next
  case None
  obtain start len where z: "zero_span g = (start, len)" by (cases "zero_span g")
  note split = zero_span_split [OF z]
  show ?thesis
  proof (cases "1 < len")
    case True
    let ?pre = "take start g" and ?post = "drop (start + len) g"
    have "read_groups 8 0 (show_groups ?pre @ CHR '':'' # CHR '':'' # show_groups ?post @ rest) =
        (?pre, False, CHR '':'' # CHR '':'' # show_groups ?post @ rest)"
      by (rule read_groups_show) (simp_all add: assms(1))
    moreover have "read_groups (8 - (length ?pre + 1)) 0 (show_groups ?post @ rest) = (?post, False, rest)"
      using True split(1) assms by (intro read_groups_show) auto
    moreover have "?pre @ replicate (8 - length ?pre - length ?post) 0 @ ?post = g"
      using split assms(1) by simp
    moreover have "length ?pre \<noteq> 8" using True split(1) assms(1) by simp
    ultimately show ?thesis
      unfolding read_ipv6_addr_def show_ipv6_def None z using True by simp
  next
    case False
    have "read_groups 8 0 (show_groups g @ rest) = (g, False, rest)"
      by (rule read_groups_show) (simp_all add: assms)
    with False assms(1) show ?thesis
      unfolding read_ipv6_addr_def show_ipv6_def None z by simp
  qed
qed

text \<open>The text of an IPv6 address begins with a colon or with a group.\<close>

lemma show_groups_head:
  obtains "gs = []" | n r where "show_groups gs = show_hex n @ r" and "group_end r"
proof (cases gs)
  case (Cons g hs)
  then have "show_groups gs = show_hex (unat g) @ colon_groups hs" by simp
  moreover have "group_end (colon_groups hs)" using group_end_colon_groups [of "[]" hs] by simp
  ultimately show ?thesis by (rule that(2))
qed (rule that(1))

lemma show_ipv6_head:
  assumes "length g = 8"
  obtains s where "show_ipv6 g = CHR '':'' # s" | n r where "show_ipv6 g = show_hex n @ r" and "group_end r"
proof (cases "to_ipv4_mapped g")
  case (Some a)
  then have "show_ipv6 g = CHR '':'' # '':ffff:'' @ show_ipv4 a" by (simp add: show_ipv6_def)
  then show ?thesis by (rule that(1))
next
  case None
  obtain start len where z: "zero_span g = (start, len)" by (cases "zero_span g")
  show ?thesis
  proof (cases "1 < len")
    case True
    then have g: "show_ipv6 g = show_groups (take start g) @ ''::'' @ show_groups (drop (start + len) g)"
      by (simp add: show_ipv6_def None z)
    show ?thesis
    proof (rule show_groups_head [of "take start g"])
      assume "take start g = []"
      then have "show_ipv6 g = CHR '':'' # '':'' @ show_groups (drop (start + len) g)"
        unfolding g by (simp only: show_groups.simps) simp
      then show ?thesis by (rule that(1))
    next
      fix n r
      assume r: "show_groups (take start g) = show_hex n @ r" "group_end r"
      then have "group_end (r @ ''::'' @ show_groups (drop (start + len) g))" by (cases r) (simp_all add: group_end_def to_digit_def)
      then show ?thesis using g r(1) that(2) by simp
    qed
  next
    case False
    then have g: "show_ipv6 g = show_groups g" by (simp add: show_ipv6_def None z)
    show ?thesis
      by (rule show_groups_head [of g]) (use g that(2) assms in auto)
  qed
qed

lemma show_hex_Cons: "\<exists>c cs. show_hex n = c # cs \<and> to_digit 16 c \<noteq> None"
proof -
  have "show_hex n \<noteq> []" by (simp add: show_hex_def)
  then show ?thesis using hex_char_cases [of _ n] by (cases "show_hex n") auto
qed

lemma read_ipv4_show_ipv6:
  assumes "length g = 8"
  shows "read_ipv4_addr (show_ipv6 g) = None" and "hd (show_ipv6 g) \<noteq> CHR ''[''"
proof -
  have "read_ipv4_addr (show_ipv6 g) = None \<and> hd (show_ipv6 g) \<noteq> CHR ''[''"
  proof (rule show_ipv6_head [OF assms])
    fix s
    assume "show_ipv6 g = CHR '':'' # s"
    then show ?thesis by (simp add: read_ends)
  next
    fix n r
    assume r: "show_ipv6 g = show_hex n @ r" "group_end r"
    obtain c cs where c: "show_hex n = c # cs" "to_digit 16 c \<noteq> None" using show_hex_Cons by blast
    from r(1) c(1) hex_char_not [OF c(2)] have "hd (show_ipv6 g) \<noteq> CHR ''[''" by simp
    with read_ipv4_show_hex [OF r(2)] show ?thesis by (simp add: r(1))
  qed
  then show "read_ipv4_addr (show_ipv6 g) = None" and "hd (show_ipv6 g) \<noteq> CHR ''[''" by simp_all
qed

lemma read_socket_v6_other: "hd s \<noteq> CHR ''['' \<Longrightarrow> read_socket_addr_v6 s = None"
  by (cases s) (simp_all add: read_socket_addr_v6_def)

lemma unat_u32_less: "unat (x :: u32) < 2 ^ 32"
  using unsigned_less [of x] by simp

lemma no_digit_more [simp]: "no_digit (CHR '']'' # s)" "no_digit (CHR ''%'' # s)"
  by (simp_all add: no_digit_def to_digit_def)

lemma parse_show_socket_v6:
  assumes "length g = 8"
  shows "parse_socket_addr (show_socket (SocketV6 g port flowinfo scope_id)) = Some (SocketV6 g port 0 scope_id)"
proof -
  let ?rest = "(if scope_id = 0 then [] else ''%'' @ show_nat (unat scope_id)) @ '']:'' @ show_nat (unat port)"
  have a: "read_ipv6_addr (show_ipv6 g @ ?rest) = Some (g, ?rest)"
    by (rule read_ipv6_show [OF assms]) simp
  have p: "read_port (CHR '':'' # show_nat (unat port)) = Some (unat port, [])"
    by (simp add: read_port_def read_number_show_nat [where rest = "[]", simplified])
  have s: "(case read_scope_id ?rest of None \<Rightarrow> (0, ?rest) | Some r \<Rightarrow> r) =
      (unat scope_id, '']:'' @ show_nat (unat port))"
    using unat_u32_less [of scope_id]
    by (simp add: read_scope_id_def read_number_show_nat)
  have "read_socket_addr_v6 (CHR ''['' # show_ipv6 g @ ?rest) = Some (SocketV6 g port 0 scope_id, [])"
    unfolding read_socket_addr_v6_def
    by (simp only: read_given_char.simps simp_thms if_True option.case prod.case a s Let_def) (simp add: p)
  moreover have "read_socket_addr_v4 (CHR ''['' # show_ipv6 g @ ?rest) = None"
    using read_ipv4_no_dot [of "[]" "CHR ''['' # show_ipv6 g @ ?rest"]
    by (simp add: read_socket_addr_v4_def group_end_def to_digit_def)
  ultimately show ?thesis
    by (simp add: parse_socket_addr_def parse_with_def or_else_def)
qed

lemma parse_show_ipv6:
  assumes "length g = 8"
  shows "parse_socket_addr (show_ipv6 g) = None" and "parse_ip_addr (show_ipv6 g) = Some (IpV6 g)"
  using read_ipv4_show_ipv6 [OF assms] read_ipv6_show [OF assms, of "[]"]
  by (simp_all add: parse_socket_addr_def parse_ip_addr_def parse_with_def or_else_def
      read_socket_v6_other read_socket_addr_v4_def)

section \<open>Printed targets\<close>

lemma trim_no_space: "\<forall>c \<in> set s. \<not> is_ascii_space c \<Longrightarrow> trim s = s"
  by (cases "s = []") (simp add: trim_def, simp add: trim_id)

lemma punctuation_not_space [simp]:
  "\<not> is_ascii_space CHR ''.''" "\<not> is_ascii_space CHR '':''" "\<not> is_ascii_space CHR ''%''"
  "\<not> is_ascii_space CHR ''[''" "\<not> is_ascii_space CHR '']''" "\<not> is_ascii_space CHR ''f''"
  by (simp_all add: is_ascii_space_def)

lemma show_nat_no_space: "\<forall>c \<in> set (show_nat n). \<not> is_ascii_space c"
  by (auto simp: show_nat_digits digit_not_space dest: nat_digits_small)

lemma show_groups_no_space: "\<forall>c \<in> set (show_groups gs). \<not> is_ascii_space c"
proof -
  have h: "\<forall>c \<in> set (show_hex n). \<not> is_ascii_space c" for n using hex_char_cases hex_char_not by blast
  then have "\<forall>c \<in> set (colon_groups gs). \<not> is_ascii_space c" for gs by (induction gs) auto
  with h show ?thesis by (cases gs) auto
qed

lemma show_ipv4_no_space: "\<forall>c \<in> set (show_ipv4 a). \<not> is_ascii_space c"
  using show_nat_no_space by (cases a) auto

lemma show_ipv6_no_space: "\<forall>c \<in> set (show_ipv6 g). \<not> is_ascii_space c"
  using show_groups_no_space show_ipv4_no_space
  by (auto simp: show_ipv6_def split: option.splits prod.splits)

lemma show_socket_no_space: "\<forall>c \<in> set (show_socket a). \<not> is_ascii_space c"
  using show_ipv6_no_space show_ipv4_no_space show_nat_no_space
  by (cases a) (auto simp: show_socket_v4_def)

fun groups_ok :: "target_address \<Rightarrow> bool" where
  "groups_ok (Ip (SocketV6 g port flowinfo scope_id)) \<longleftrightarrow> length g = 8"
| "groups_ok _ \<longleftrightarrow> True"

text \<open>What the text of a target keeps of it: all but the flow information.\<close>

fun printed_part :: "target_address \<Rightarrow> target_address" where
  "printed_part (Ip (SocketV6 g port flowinfo scope_id)) = Ip (SocketV6 g port 0 scope_id)"
| "printed_part t = t"

text \<open>
  C32. A printed target reads back as itself, with any white space around it: an IPv4 or IPv6 address
  with its port and its scope (also one with a run of zeros left out, or with an embedded IPv4
  address), and a node id, if its own text is made of hexadecimal digits and reads back. Only the
  flow information of an IPv6 address is lost.
\<close>

theorem target_display_roundtrip:
  assumes "groups_ok t"
    and "\<forall>pk. t = Iroh pk \<longrightarrow> parse_key (show_key pk) = Some pk \<and> (\<forall>c \<in> set (show_key pk). to_digit 16 c \<noteq> None)"
    and "\<forall>c \<in> set l. is_ascii_space c" and "\<forall>c \<in> set r. is_ascii_space c"
  shows "target_from_str parse_key (l @ target_display show_key t @ r) = Ok (printed_part t)"
proof (cases t)
  case (Ip a)
  have "parse_socket_addr (show_socket a) =
      Some (case a of SocketV4 _ _ \<Rightarrow> a | SocketV6 g p _ s \<Rightarrow> SocketV6 g p 0 s)"
    using assms(1) parse_show_socket parse_show_socket_v6 by (cases a) (auto simp: Ip simp del: show_socket.simps(2))
  then show ?thesis
    using assms(3,4) trim_no_space [OF show_socket_no_space [of a]]
    by (cases a) (simp_all add: Ip target_from_str_def trim_pad Let_def del: show_socket.simps)
next
  case (Iroh pk)
  have h: "\<forall>c \<in> set (show_key pk). to_digit 16 c \<noteq> None" using assms(2) Iroh by blast
  then have "\<forall>c \<in> set (show_key pk). \<not> is_ascii_space c" using hex_char_not by blast
  then have "trim (show_key pk) = show_key pk" by (rule trim_no_space)
  moreover have "CHR ''.'' \<notin> set (show_key pk)" and "CHR '':'' \<notin> set (show_key pk)"
    using h hex_char_not by blast+
  ultimately have s: "CHR ''.'' \<notin> set (show_key pk)" "CHR '':'' \<notin> set (show_key pk)"
    "trim (show_key pk) = show_key pk" by blast+
  with assms(2-4) show ?thesis
    by (simp add: Iroh target_from_str_def trim_pad no_address Let_def)
qed

lemma show_demo_v6: "show_socket (SocketV6 [0xFE80, 0, 0, 0, 0, 0, 0, 1] 80 7 3) = ''[fe80::1%3]:80''"
proof -
  have "hex_char 0 = CHR ''0''" "hex_char 1 = CHR ''1''" "hex_char 8 = CHR ''8''" "hex_char 14 = CHR ''e''"
    "digit_char 0 = CHR ''0''" "digit_char 3 = CHR ''3''" "digit_char 8 = CHR ''8''"
    by code_simp+
  then show ?thesis
    by (simp add: show_ipv6_def to_ipv4_mapped_def zero_span_def Let_def show_hex_def colon_groups_def hex_char_f
        hex_digits.simps [of 65152] hex_digits.simps [of 4072] hex_digits.simps [of 254]
        hex_digits.simps [of 15] hex_digits.simps [of "Suc 0"] show_nat.simps [of 80] show_nat.simps [of 8]
        show_nat.simps [of 3])
qed

theorem target_display_roundtrip_witness:
  "(\<forall>parse_key. target_from_str parse_key '' [fe80::1%3]:80'' =
      Ok (Ip (SocketV6 [0xFE80, 0, 0, 0, 0, 0, 0, 1] 80 0 3))) \<and>
   target_from_str (\<lambda>s. if s = ''0a'' then Some [10] else None) ''0a '' = Ok (Iroh [10])"
proof
  have "target_from_str parse_key ('' '' @ target_display show_key
      (Ip (SocketV6 [0xFE80, 0, 0, 0, 0, 0, 0, 1] 80 7 3)) @ []) = Ok (Ip (SocketV6 [0xFE80, 0, 0, 0, 0, 0, 0, 1] 80 0 3))"
    for show_key parse_key by (subst target_display_roundtrip) (simp_all add: is_ascii_space_def)
  then show "\<forall>parse_key. target_from_str parse_key '' [fe80::1%3]:80'' =
      Ok (Ip (SocketV6 [0xFE80, 0, 0, 0, 0, 0, 0, 1] 80 0 3))"
    by (simp only: target_display.simps show_demo_v6) simp
  have "target_from_str (\<lambda>s. if s = ''0a'' then Some [10] else None) ([] @ target_display (\<lambda>pk. ''0a'') (Iroh [10]) @ '' '') =
      Ok (printed_part (Iroh [10]))"
    by (rule target_display_roundtrip) (simp_all add: is_ascii_space_def to_digit_def)
  then show "target_from_str (\<lambda>s. if s = ''0a'' then Some [10] else None) ''0a '' = Ok (Iroh [10])" by simp
qed

text \<open>
  An address printed without a port reads back with the default port.
\<close>

lemma ip_display_default_port:
  assumes "\<forall>g. ip = IpV6 g \<longrightarrow> length g = 8"
    and "\<forall>c \<in> set l. is_ascii_space c" and "\<forall>c \<in> set r. is_ascii_space c"
  shows "target_from_str parse_key (l @ show_ip ip @ r) = Ok (Ip (socket_addr_new ip DEFAULT_PORT))"
proof (cases ip)
  case (IpV4 a)
  with assms show ?thesis
    using ipv4_target_roundtrip [of l r parse_key a] by (simp add: socket_addr_new_def DEFAULT_PORT_def)
next
  case (IpV6 g)
  with assms parse_show_ipv6 [of g] trim_no_space [OF show_ipv6_no_space [of g]] show ?thesis
    by (simp add: target_from_str_def trim_pad Let_def)
qed

end
