(* ===== verification/ClientTimers.thy ===== *)
theory ClientTimers
  imports EndToEnd
begin

text \<open>
  The clock of the client loops of \<^verbatim>\<open>src/client.rs\<close>: the reconnect and keepalive timers, the limits
  on waiting, and which branches each \<^verbatim>\<open>select!\<close> polls in which phase. With them, the keepalives
  meet the server's idle limit: over a network that delivers, a streaming client keeps its session
  for as long as it runs, however long its user leaves the controller alone.

  Times are nanoseconds, as in the server. The interval of tokio, set to skip missed ticks, is a
  parameter that gives the next deadline after a tick; the law \<open>skips\<close> is its documentation: the
  next deadline lies after now, at most one period away, and whole periods after the last one.
\<close>

section \<open>Timers\<close>

definition DEVICE_RETRY_INTERVAL :: nat where
  "DEVICE_RETRY_INTERVAL = 1 * 1000000000"

definition KEEPALIVE_INTERVAL :: nat where
  "KEEPALIVE_INTERVAL = 10 * 1000000000"

definition KEEPALIVE_TIMEOUT :: nat where
  "KEEPALIVE_TIMEOUT = 5 * 1000000000"

text \<open>The limit on waiting for the acknowledgement over UDP.\<close>

definition ack_timeout :: nat where
  "ack_timeout = 4 * 1000000000"

type_synonym next_tick = "nat \<Rightarrow> nat \<Rightarrow> nat \<Rightarrow> nat"

definition skips :: "next_tick \<Rightarrow> bool" where
  "skips nt \<longleftrightarrow> (\<forall>deadline now period. 0 < period \<longrightarrow> deadline \<le> now \<longrightarrow>
     now < nt deadline now period \<and> nt deadline now period \<le> now + period \<and>
     period dvd nt deadline now period - deadline)"

record timer =
  ti_deadline :: nat
  ti_period :: nat

definition reconnect_timer :: "nat \<Rightarrow> timer" where
  "reconnect_timer now = \<lparr>ti_deadline = now, ti_period = DEVICE_RETRY_INTERVAL\<rparr>"

definition keepalive_timer :: "nat \<Rightarrow> timer" where
  "keepalive_timer now = \<lparr>ti_deadline = now + KEEPALIVE_INTERVAL, ti_period = KEEPALIVE_INTERVAL\<rparr>"

definition tick :: "next_tick \<Rightarrow> nat \<Rightarrow> timer \<Rightarrow> timer" where
  "tick nt now t = t\<lparr>ti_deadline := nt (ti_deadline t) now (ti_period t)\<rparr>"

lemma tick_simps [simp]:
  "ti_period (tick nt now t) = ti_period t"
  "ti_deadline (tick nt now t) = nt (ti_deadline t) now (ti_period t)"
  by (simp_all add: tick_def)

section \<open>The loops on a clock\<close>

text \<open>A client with its timers and the time at which its current limited wait began.\<close>

record timed_client =
  tc_state :: client_state
  tc_retry :: timer
  tc_keepalive :: timer
  tc_since :: nat

definition timed_start :: "nat \<Rightarrow> client_state \<Rightarrow> timed_client" where
  "timed_start now st = \<lparr>tc_state = st, tc_retry = reconnect_timer now,
     tc_keepalive = keepalive_timer now, tc_since = now\<rparr>"

text \<open>The branches that the loops wait for.\<close>

fun udp_polls :: "client_phase \<Rightarrow> client_input \<Rightarrow> bool" where
  "udp_polls _ (Received _) = True"
| "udp_polls (WaitAck _ _) inp = (inp = Timeout)"
| "udp_polls WaitDevice inp = (inp = DeviceTick \<or> inp = KeepaliveTick)"
| "udp_polls (Streaming _ None) inp = (inp = DeviceTick \<or> inp = KeepaliveTick)"
| "udp_polls (Streaming _ (Some _)) (StreamEvent _) = True"
| "udp_polls (Streaming _ (Some _)) inp = (inp = KeepaliveTick)"
| "udp_polls _ _ = False"

fun iroh_polls :: "client_phase \<Rightarrow> client_input \<Rightarrow> bool" where
  "iroh_polls WaitDevice inp = (inp = DeviceTick \<or> inp = KeepaliveTick)"
| "iroh_polls WaitPong inp = (inp = FrameReady \<or> inp = Timeout)"
| "iroh_polls (WaitAck _ _) inp = (inp = FrameReady)"
| "iroh_polls (Streaming _ None) inp = (inp = DeviceTick \<or> inp = KeepaliveTick \<or> inp = FrameReady)"
| "iroh_polls (Streaming _ (Some _)) (StreamEvent _) = True"
| "iroh_polls (Streaming _ (Some _)) inp = (inp = KeepaliveTick \<or> inp = FrameReady)"
| "iroh_polls (Done _) _ = False"

text \<open>An input can be taken when its branch is polled and its time has come.\<close>

definition due :: "nat \<Rightarrow> nat \<Rightarrow> timed_client \<Rightarrow> client_input \<Rightarrow> bool" where
  "due limit now tc inp =
     (case inp of
        DeviceTick \<Rightarrow> ti_deadline (tc_retry tc) \<le> now
      | KeepaliveTick \<Rightarrow> ti_deadline (tc_keepalive tc) \<le> now
      | Timeout \<Rightarrow> tc_since tc + limit \<le> now
      | _ \<Rightarrow> True)"

text \<open>
  What taking it does to the clocks; both limited waits begin in the body of a tick's branch. An
  input whose time has not come leaves all as it is.
\<close>

definition timed_step ::
  "(client_state \<Rightarrow> client_env \<times> client_input \<Rightarrow> client_state) \<Rightarrow> (client_phase \<Rightarrow> client_input \<Rightarrow> bool) \<Rightarrow> nat \<Rightarrow>
   next_tick \<Rightarrow> nat \<Rightarrow> client_env \<times> client_input \<Rightarrow> timed_client \<Rightarrow> timed_client" where
  "timed_step step polls limit nt now e tc =
     (if polls (cl_phase (tc_state tc)) (snd e) \<and> due limit now tc (snd e)
      then \<lparr>tc_state = step (tc_state tc) e,
             tc_retry = (if snd e = DeviceTick then tick nt now (tc_retry tc) else tc_retry tc),
             tc_keepalive = (if snd e = KeepaliveTick then tick nt now (tc_keepalive tc) else tc_keepalive tc),
             tc_since = (if snd e = DeviceTick \<or> snd e = KeepaliveTick then now else tc_since tc)\<rparr>
      else tc)"

definition timed_udp :: "client_args \<Rightarrow> next_tick \<Rightarrow> nat \<Rightarrow> client_env \<times> client_input \<Rightarrow> timed_client \<Rightarrow> timed_client" where
  "timed_udp args = timed_step (udp_client_step args) udp_polls ack_timeout"

definition timed_iroh :: "client_args \<Rightarrow> next_tick \<Rightarrow> nat \<Rightarrow> client_env \<times> client_input \<Rightarrow> timed_client \<Rightarrow> timed_client" where
  "timed_iroh args = timed_step (iroh_client_step args) iroh_polls KEEPALIVE_TIMEOUT"

text \<open>The polled branches are all that the untimed loops react to.\<close>

lemma unpolled_udp: "\<not> udp_polls (cl_phase st) (snd e) \<Longrightarrow> udp_client_step args st e = st"
  by (cases "cl_phase st"; cases "snd e"; cases e)
     (auto simp: udp_client_step_def udp_client_wait_def udp_client_ack_def udp_client_stream_def
       elim: udp_polls.elims split: option.splits)

lemma unpolled_iroh: "\<not> iroh_polls (cl_phase st) (snd e) \<Longrightarrow> iroh_client_step args st e = st"
  by (cases "cl_phase st"; cases "snd e"; cases e)
     (auto simp: iroh_client_step_def iroh_client_wait_def iroh_client_pong_def iroh_client_ack_def
       iroh_client_stream_def elim: iroh_polls.elims split: option.splits)

end
