(* ===== verification/Keepalive.thy ===== *)
theory Keepalive
  imports ClientTimers
begin

text \<open>
  Client and server on one clock over a network that delivers datagrams in order and within a
  bounded time: the keepalives of a streaming client against the idle limit of the server's reaper,
  and what becomes of a client that was silent for too long.
\<close>

section \<open>The system\<close>

text \<open>A client, its datagrams in flight with the times at which they were sent, and the server.\<close>

record link =
  lk_client :: timed_client
  lk_flight :: "(nat \<times> bytes) list"
  lk_server :: server_state
  lk_now :: nat

text \<open>
  The time may become \<open>t\<close>: it does not run backwards, the client's loop takes a due keepalive
  tick at most \<open>slack\<close> late, and the network delivers within \<open>latency\<close>.
\<close>

definition on_time :: "nat \<Rightarrow> nat \<Rightarrow> nat \<Rightarrow> link \<Rightarrow> bool" where
  "on_time slack latency t L \<longleftrightarrow> lk_now L \<le> t \<and>
     t \<le> ti_deadline (tc_keepalive (lk_client L)) + slack \<and>
     list_all (\<lambda>(sent, bs). t \<le> sent + latency) (lk_flight L)"

definition newly_sent :: "timed_client \<Rightarrow> timed_client \<Rightarrow> bytes list" where
  "newly_sent tc tc' = drop (length (cl_sent (tc_state tc))) (cl_sent (tc_state tc'))"

definition client_moves ::
  "client_args \<Rightarrow> next_tick \<Rightarrow> nat \<Rightarrow> client_env \<times> client_input \<Rightarrow> link \<Rightarrow> link" where
  "client_moves args nt t e L =
     (let tc = timed_udp args nt t e (lk_client L)
      in L\<lparr>lk_client := tc, lk_flight := lk_flight L @ map (Pair t) (newly_sent (lk_client L) tc), lk_now := t\<rparr>)"

definition server_moves :: "server_env \<times> server_input \<Rightarrow> link \<Rightarrow> link" where
  "server_moves e L = L\<lparr>lk_server := server_step (lk_server L) e, lk_now := sn_now (fst e)\<rparr>"

text \<open>
  The steps: the client takes an input, the oldest datagram arrives, or the server takes any other
  input, reaper rounds and other peers included, as long as its UDP listener goes on.
\<close>

inductive link_step ::
  "client_args \<Rightarrow> next_tick \<Rightarrow> codec \<Rightarrow> (string \<Rightarrow> trust_data option) \<Rightarrow> socket_addr \<Rightarrow> nat \<Rightarrow> nat \<Rightarrow>
   link \<Rightarrow> link \<Rightarrow> bool"
  for args nt c J src slack latency where
  acts: "on_time slack latency t L \<Longrightarrow> cn_codec (fst e) = c \<Longrightarrow> udp_can_send (fst e) (snd e) \<Longrightarrow>
    link_step args nt c J src slack latency L (client_moves args nt t e L)"
| arrives: "on_time slack latency (sn_now env) L \<Longrightarrow> sn_codec env = c \<Longrightarrow> lk_flight L = (sent, bs) # rest \<Longrightarrow>
    link_step args nt c J src slack latency L
      (server_moves (env, UdpDatagram src bs) (L\<lparr>lk_flight := rest\<rparr>))"
| serves: "on_time slack latency (sn_now (fst e)) L \<Longrightarrow> env_ok J e \<Longrightarrow> (\<And>bs. snd e \<noteq> UdpDatagram src bs) \<Longrightarrow>
    sv_udp (server_step (lk_server L) e) \<Longrightarrow>
    link_step args nt c J src slack latency L (server_moves e L)"

section \<open>What a streaming client sends\<close>

definition streaming :: "client_state \<Rightarrow> bool" where
  "streaming st \<longleftrightarrow> (\<exists>rd x. cl_phase st = Streaming rd x)"

lemma reconnect_streaming:
  "streaming (reconnect_tick env rd st)" "cl_sent (reconnect_tick env rd st) = cl_sent st"
  by (auto simp: reconnect_tick_def streaming_def split: prod.split option.split)

lemma streaming_step:
  assumes "streaming st" and "udp_polls (cl_phase st) (snd e)" and "udp_can_send (fst e) (snd e)"
  shows "streaming (udp_client_step args st e)"
    and "cl_sent (udp_client_step args st e) = cl_sent st @ encoded e"
proof -
  obtain env inp where e: "e = (env, inp)" by (cases e)
  obtain rd x where ph: "cl_phase st = Streaming rd x" using assms(1) by (auto simp: streaming_def)
  have "streaming (udp_client_step args st e) \<and> cl_sent (udp_client_step args st e) = cl_sent st @ encoded e"
  proof (cases "inp = DeviceTick \<and> x = None")
    case True
    then show ?thesis
      using ph by (simp add: e udp_client_step_def udp_client_stream_def reconnect_streaming encoded_def)
  next
    case False
    show ?thesis
    proof (cases "x = None \<or> \<not> stays_open inp")
      case True
      with False assms(2,3) ph show ?thesis
        by (cases inp rule: stays_open.cases; cases x)
           (auto simp: e udp_client_step_def udp_client_stream_def udp_client_ping_def udp_client_send_def
             udp_can_send_def encoded_def streaming_def is_ok_iff)
    next
      case False
      with ph obtain d where "cl_phase st = Streaming rd (Some d)" by auto
      from udp_stream_step [OF this, of e args] False assms(3) this show ?thesis
        by (simp add: e streaming_def)
    qed
  qed
  then show "streaming (udp_client_step args st e)"
    and "cl_sent (udp_client_step args st e) = cl_sent st @ encoded e" by blast+
qed

text \<open>Only pings and events, and a ping exactly for a keepalive tick.\<close>

definition harmless :: "codec \<Rightarrow> bytes \<Rightarrow> bool" where
  "harmless c bs \<longleftrightarrow> (\<exists>m. message_decode c bs = Ok m \<and> (m = Ping \<or> (\<exists>evs. m = Events evs)))"

definition ping_times :: "codec \<Rightarrow> (nat \<times> bytes) list \<Rightarrow> nat list" where
  "ping_times c flight = map fst (filter (\<lambda>(sent, bs). message_decode c bs = Ok Ping) flight)"

lemma encoded_messages:
  assumes "codec_ok c" and "cn_codec (fst e) = c" and "udp_can_send (fst e) (snd e)"
  shows "list_all (harmless c) (encoded e)"
    and "ping_times c (map (Pair t) (encoded e)) = (if snd e = KeepaliveTick then [t] else [])"
proof -
  have "list_all (harmless c) (encoded e) \<and>
    ping_times c (map (Pair t) (encoded e)) = (if snd e = KeepaliveTick then [t] else [])"
  proof (cases "snd e" rule: forwarded.cases)
    case (1 ev)
    with assms obtain bs where bs: "message_encode c (event_message ev) = Ok bs"
      by (auto simp: udp_can_send_def is_ok_iff)
    from codec_okD [OF assms(1) this] 1 assms(2) show ?thesis
      by (simp add: encoded_def bs harmless_def ping_times_def) (simp add: event_message_def)
  next
    case 2
    with assms obtain bs where bs: "message_encode c Ping = Ok bs"
      by (auto simp: udp_can_send_def is_ok_iff)
    from codec_okD [OF assms(1) this] 2 assms(2) show ?thesis
      by (simp add: encoded_def bs harmless_def ping_times_def)
  qed (simp_all add: encoded_def ping_times_def)
  then show "list_all (harmless c) (encoded e)"
    and "ping_times c (map (Pair t) (encoded e)) = (if snd e = KeepaliveTick then [t] else [])" by blast+
qed

section \<open>The session's clock\<close>

text \<open>
  From the last activity through the pings in flight to the next deadline, no gap is longer than
  an interval plus the slack of the client's loop.
\<close>

fun spaced :: "nat \<Rightarrow> nat \<Rightarrow> nat list \<Rightarrow> nat \<Rightarrow> bool" where
  "spaced slack active [] deadline \<longleftrightarrow> deadline \<le> active + KEEPALIVE_INTERVAL"
| "spaced slack active (sent # rest) deadline \<longleftrightarrow>
     sent \<le> active + KEEPALIVE_INTERVAL + slack \<and> spaced slack sent rest deadline"

lemma spaced_mono: "spaced slack a ts d \<Longrightarrow> a \<le> a' \<Longrightarrow> spaced slack a' ts d"
  by (cases ts) auto

lemma spaced_tick:
  "spaced slack a ts d \<Longrightarrow> t \<le> d + slack \<Longrightarrow> d' \<le> t + KEEPALIVE_INTERVAL \<Longrightarrow> spaced slack a (ts @ [t]) d'"
  by (induction ts arbitrary: a) auto

lemma spaced_bound:
  assumes "spaced slack a ts d" and "t \<le> d + slack" and "\<forall>s \<in> set ts. t \<le> s + latency"
  shows "t \<le> a + KEEPALIVE_INTERVAL + slack + latency"
  using assms by (cases ts) auto

definition session_live :: "server_state \<Rightarrow> socket_addr \<Rightarrow> string \<Rightarrow> session_entry \<Rightarrow> nat \<Rightarrow> bool" where
  "session_live st src key s0 active \<longleftrightarrow> sv_udp st \<and> bound st (UdpPeer src) = Some key \<and>
     (\<exists>s. fmlookup (sv_sessions st) key = Some s \<and> same_device s0 s \<and> se_last_active s = active)"

definition link_ok :: "codec \<Rightarrow> socket_addr \<Rightarrow> string \<Rightarrow> session_entry \<Rightarrow> nat \<Rightarrow> link \<Rightarrow> bool" where
  "link_ok c src key s0 slack L \<longleftrightarrow>
     streaming (tc_state (lk_client L)) \<and> ti_period (tc_keepalive (lk_client L)) = KEEPALIVE_INTERVAL \<and>
     list_all (\<lambda>(sent, bs). sent \<le> lk_now L \<and> harmless c bs) (lk_flight L) \<and>
     (\<exists>active \<le> lk_now L. session_live (lk_server L) src key s0 active \<and>
        spaced slack active (ping_times c (lk_flight L)) (ti_deadline (tc_keepalive (lk_client L))))"

lemma ping_times_append: "ping_times c (xs @ ys) = ping_times c xs @ ping_times c ys"
  by (simp add: ping_times_def)

lemma ping_times_subset: "s \<in> set (ping_times c fl) \<Longrightarrow> list_all (\<lambda>(sent, bs). t \<le> sent + l) fl \<Longrightarrow> t \<le> s + l"
  by (auto simp: ping_times_def list_all_iff)

text \<open>A turn of the client.\<close>

lemma acts_ok:
  assumes "codec_ok c" and "skips nt" and "link_ok c src key s0 slack L" and "on_time slack latency t L"
    and "cn_codec (fst e) = c" and "udp_can_send (fst e) (snd e)"
  shows "link_ok c src key s0 slack (client_moves args nt t e L)"
proof -
  let ?tc = "lk_client L"
  have t: "lk_now L \<le> t" "t \<le> ti_deadline (tc_keepalive ?tc) + slack" using assms(4) by (simp_all add: on_time_def)
  have fl: "list_all (\<lambda>(sent, bs). sent \<le> t \<and> harmless c bs) (lk_flight L)"
    using assms(3) t(1) by (auto simp: link_ok_def list_all_iff)
  obtain active where a: "active \<le> lk_now L" "session_live (lk_server L) src key s0 active"
    "spaced slack active (ping_times c (lk_flight L)) (ti_deadline (tc_keepalive ?tc))"
    using assms(3) by (auto simp: link_ok_def)
  show ?thesis
  proof (cases "udp_polls (cl_phase (tc_state ?tc)) (snd e) \<and> due ack_timeout t ?tc (snd e)")
    case True
    have st: "streaming (tc_state ?tc)" using assms(3) by (simp add: link_ok_def)
    have step: "streaming (udp_client_step args (tc_state ?tc) e)"
      "cl_sent (udp_client_step args (tc_state ?tc) e) = cl_sent (tc_state ?tc) @ encoded e"
      using streaming_step [OF st _ assms(6)] True by blast+
    have "snd e = KeepaliveTick \<Longrightarrow>
        nt (ti_deadline (tc_keepalive ?tc)) t KEEPALIVE_INTERVAL \<le> t + KEEPALIVE_INTERVAL"
      using True assms(2) by (simp add: skips_def due_def KEEPALIVE_INTERVAL_def)
    then have "spaced slack active (ping_times c (lk_flight L @ map (Pair t) (encoded e)))
        (ti_deadline (tc_keepalive (timed_udp args nt t e ?tc)))"
      using True a(3) assms(3) spaced_tick [OF a(3) t(2)]
      by (simp add: ping_times_append encoded_messages(2) [OF assms(1,5,6)] timed_udp_def timed_step_def
          link_ok_def)
    moreover have "list_all (\<lambda>(sent, bs). sent \<le> t \<and> harmless c bs) (map (Pair t) (encoded e))"
      using encoded_messages(1) [OF assms(1,5,6)] by (simp add: list_all_iff)
    ultimately show ?thesis
      using True step a(1,2) t(1) fl assms(3)
      by (auto simp: link_ok_def client_moves_def Let_def newly_sent_def timed_udp_def timed_step_def
          intro!: exI [of _ active])
  next
    case False
    then show ?thesis
      using a t(1) fl assms(3)
      by (auto simp: link_ok_def client_moves_def Let_def newly_sent_def timed_udp_def timed_step_def
          intro!: exI [of _ active])
  qed
qed

text \<open>A datagram of the client arrives.\<close>

lemma live_arrival:
  assumes "session_live st src key s0 active" and "harmless (sn_codec env) bs" and "active \<le> sn_now env"
  shows "\<exists>a \<ge> active. a \<le> sn_now env \<and>
      session_live (server_step st (env, UdpDatagram src bs)) src key s0 a \<and>
      (message_decode (sn_codec env) bs = Ok Ping \<longrightarrow> a = sn_now env)"
  using assms
  by (auto simp: session_live_def harmless_def udp_datagram_def udp_ping_def udp_events_def session_ping_def
      session_events_def intro: same_device_trans [OF _ same_device_touch] same_device_trans [OF _ same_device_replay])

lemma arrives_ok:
  assumes "link_ok c src key s0 slack L" and "on_time slack latency (sn_now env) L" and "sn_codec env = c"
    and "lk_flight L = (sent, bs) # rest"
  shows "link_ok c src key s0 slack (server_moves (env, UdpDatagram src bs) (L\<lparr>lk_flight := rest\<rparr>))"
proof -
  let ?t = "sn_now env"
  have t: "lk_now L \<le> ?t" using assms(2) by (simp add: on_time_def)
  obtain active where a: "active \<le> lk_now L" "session_live (lk_server L) src key s0 active"
    "spaced slack active (ping_times c (lk_flight L)) (ti_deadline (tc_keepalive (lk_client L)))"
    using assms(1) by (auto simp: link_ok_def)
  have b: "sent \<le> lk_now L" "harmless c bs" using assms(1,4) by (simp_all add: link_ok_def)
  have "active \<le> ?t" using a(1) t by simp
  from live_arrival [OF a(2) _ this, of bs] b(2) assms(3) obtain a' where a': "active \<le> a'" "a' \<le> ?t"
    "session_live (server_step (lk_server L) (env, UdpDatagram src bs)) src key s0 a'"
    "message_decode c bs = Ok Ping \<longrightarrow> a' = ?t" by auto
  have "spaced slack a' (ping_times c rest) (ti_deadline (tc_keepalive (lk_client L)))"
  proof (cases "message_decode c bs = Ok Ping")
    case True
    then have "spaced slack sent (ping_times c rest) (ti_deadline (tc_keepalive (lk_client L)))"
      using a(3) by (simp add: assms(4) ping_times_def)
    then show ?thesis by (rule spaced_mono) (use True a'(4) b(1) t in simp)
  next
    case False
    then have "ping_times c (lk_flight L) = ping_times c rest" by (simp add: assms(4) ping_times_def)
    with a(3) a'(1) show ?thesis by (simp add: spaced_mono)
  qed
  then show ?thesis
    using assms(1,4) a'(2,3) t
    by (auto simp: link_ok_def server_moves_def list_all_iff intro!: exI [of _ a'])
qed

text \<open>Anything else that the server does.\<close>

lemma session_move_active:
  "session_move env m b ss ss' \<Longrightarrow> fmlookup ss key = Some s \<Longrightarrow>
   \<exists>s'. fmlookup ss' key = Some s' \<and> same_device s s' \<and> se_last_active s' \<in> {se_last_active s, sn_now env}"
proof (induction rule: session_move.induct)
  case (opened p b ss)
  then show ?case by (cases rule: open_session_cases [of ss p env]) auto
qed (auto simp: session_events_lookup session_ping_lookup)

lemma others_keep_binding:
  assumes "env_ok J (env, inp)" and "\<And>bs. inp \<noteq> UdpDatagram src bs"
  shows "bound (server_step st (env, inp)) (UdpPeer src) = bound st (UdpPeer src)"
proof (cases inp)
  case (UdpDatagram a bs)
  with assms(2) have "a \<noteq> src" by blast
  with UdpDatagram show ?thesis
    by (auto simp: udp_datagram_def udp_events_def udp_ping_def udp_handshake_parts [OF assms(1)]
        split: sum.splits message.splits option.splits)
next
  case (IrohRead i)
  then show ?thesis
    using iroh_read_frame_parts [OF assms(1), of _ st]
    by (auto simp: Let_def split: option.splits prod.splits) (metis snd_conv)
qed (auto split: option.splits)

lemma session_others:
  assumes "fmlookup (sv_sessions st) key = Some s" and "env_ok J e"
    and "se_last_active s \<le> sn_now (fst e)" and "sn_now (fst e) < se_last_active s + idle_limit"
  shows "\<exists>s'. fmlookup (sv_sessions (server_step st e)) key = Some s' \<and> same_device s s' \<and>
    se_last_active s' \<in> {se_last_active s, sn_now (fst e)}"
proof -
  obtain env inp where e: "e = (env, inp)" by (cases e)
  consider "sv_sessions (server_step st e) = sv_sessions st"
    | "sv_sessions (server_step st e) = reap (sn_now env) (sv_sessions st)"
    | who m where "session_move env m (bound st who) (sv_sessions st) (sv_sessions (server_step st e))"
    using step_sessions [OF assms(2) [unfolded e], of st] unfolding e by blast
  then show ?thesis
  proof cases
    case 1
    with assms(1) show ?thesis by simp
  next
    case 2
    with assms show ?thesis by (simp add: fmlookup_reap session_active_def e)
  next
    case 3
    from session_move_active [OF this assms(1)] show ?thesis by (simp add: e)
  qed
qed

lemma live_others:
  assumes "session_live st src key s0 active" and "env_ok J e" and "\<And>bs. snd e \<noteq> UdpDatagram src bs"
    and "sv_udp (server_step st e)" and "active \<le> sn_now (fst e)" and "sn_now (fst e) < active + idle_limit"
  shows "\<exists>a \<ge> active. a \<le> sn_now (fst e) \<and> session_live (server_step st e) src key s0 a"
proof -
  obtain env inp where e: "e = (env, inp)" by (cases e)
  obtain s where s: "fmlookup (sv_sessions st) key = Some s" "same_device s0 s" "se_last_active s = active"
    using assms(1) by (auto simp: session_live_def)
  from session_others [OF s(1) assms(2)] s(3) assms(5,6) obtain s' where
    "fmlookup (sv_sessions (server_step st e)) key = Some s'" "same_device s s'"
    "se_last_active s' \<in> {active, sn_now (fst e)}" by auto
  with s(2) assms(1,4,5) others_keep_binding [OF assms(2) [unfolded e], of src st] assms(3)
  show ?thesis by (auto simp: session_live_def e intro: same_device_trans)
qed

lemma serves_ok:
  assumes "link_ok c src key s0 slack L" and "on_time slack latency (sn_now (fst e)) L" and "env_ok J e"
    and "\<And>bs. snd e \<noteq> UdpDatagram src bs" and "sv_udp (server_step (lk_server L) e)"
    and "KEEPALIVE_INTERVAL + slack + latency < idle_limit"
  shows "link_ok c src key s0 slack (server_moves e L)"
proof -
  let ?t = "sn_now (fst e)"
  have t: "lk_now L \<le> ?t" "?t \<le> ti_deadline (tc_keepalive (lk_client L)) + slack"
    "list_all (\<lambda>(sent, bs). ?t \<le> sent + latency) (lk_flight L)"
    using assms(2) by (simp_all add: on_time_def)
  obtain active where a: "active \<le> lk_now L" "session_live (lk_server L) src key s0 active"
    "spaced slack active (ping_times c (lk_flight L)) (ti_deadline (tc_keepalive (lk_client L)))"
    using assms(1) by (auto simp: link_ok_def)
  have "?t \<le> active + KEEPALIVE_INTERVAL + slack + latency"
    using spaced_bound [OF a(3) t(2)] ping_times_subset [OF _ t(3)] by blast
  with assms(6) have "?t < active + idle_limit" by linarith
  moreover have "active \<le> ?t" using a(1) t(1) by simp
  ultimately obtain a' where a': "active \<le> a'" "a' \<le> ?t" "session_live (server_step (lk_server L) e) src key s0 a'"
    using live_others [OF a(2) assms(3-5)] by blast
  from spaced_mono [OF a(3) a'(1)] a'(2,3) assms(1) t(1) show ?thesis
    by (auto simp: link_ok_def server_moves_def list_all_iff intro!: exI [of _ a'])
qed

lemma link_run_ok:
  assumes "codec_ok c" and "skips nt" and "KEEPALIVE_INTERVAL + slack + latency < idle_limit"
    and "(link_step args nt c J src slack latency)\<^sup>*\<^sup>* L L'" and "link_ok c src key s0 slack L"
  shows "link_ok c src key s0 slack L'"
  using assms(4,5)
proof (induction rule: rtranclp_induct)
  case (step L1 L2)
  then have ok: "link_ok c src key s0 slack L1" by blast
  from step(2) show ?case
  proof (cases rule: link_step.cases)
    case (acts t e)
    with acts_ok [OF assms(1,2) ok] show ?thesis by blast
  next
    case (arrives env sent bs rest)
    with arrives_ok [OF ok] show ?thesis by blast
  next
    case (serves e)
    with serves_ok [OF ok _ _ _ _ assms(3)] show ?thesis by blast
  qed
qed

text \<open>
  C12. The keepalives outlast the reaper. When a client streams over Direct UDP to a server that has
  its address bound to a live session, on a network that delivers in order, and the ten seconds
  between keepalives, the slack of the client's loop and the latency of the network together stay
  below the idle limit, then the session stays open, with the same device, for as long as the
  client runs: whatever events the client forwards or does not forward, whether the controller is
  there or away, whatever other peers, the administrator and the reaper do in the meantime.
\<close>

theorem keepalive_keeps_session:
  assumes "codec_ok c" and "skips nt" and "KEEPALIVE_INTERVAL + slack + latency < idle_limit"
    and "streaming (tc_state (lk_client L))" and "lk_flight L = []"
    and "ti_period (tc_keepalive (lk_client L)) = KEEPALIVE_INTERVAL"
    and "sv_udp (lk_server L)" and "bound (lk_server L) (UdpPeer src) = Some key"
    and "fmlookup (sv_sessions (lk_server L)) key = Some s" and "se_last_active s \<le> lk_now L"
    and "ti_deadline (tc_keepalive (lk_client L)) \<le> se_last_active s + KEEPALIVE_INTERVAL"
    and "(link_step args nt c J src slack latency)\<^sup>*\<^sup>* L L'"
  shows "streaming (tc_state (lk_client L')) \<and> bound (lk_server L') (UdpPeer src) = Some key \<and>
    (\<exists>s'. fmlookup (sv_sessions (lk_server L')) key = Some s' \<and>
      vo_config (se_vdev s') = vo_config (se_vdev s) \<and> prefix (vo_log (se_vdev s)) (vo_log (se_vdev s')))"
proof -
  have "link_ok c src key s slack L"
    using assms(4-11) by (auto simp: link_ok_def session_live_def ping_times_def)
  from link_run_ok [OF assms(1-3,12) this] show ?thesis
    by (auto simp: link_ok_def session_live_def same_device_def)
qed

section \<open>Silence\<close>

text \<open>The interval that tokio documents.\<close>

definition skip_missed :: next_tick where
  "skip_missed deadline now period = now + period - (now - deadline) mod period"

lemma skip_missed_skips: "skips skip_missed"
  unfolding skips_def
proof (intro allI impI)
  fix deadline now period :: nat
  assume p: "0 < period" and d: "deadline \<le> now"
  let ?m = "(now - deadline) mod period"
  have m: "?m < period" "?m \<le> now - deadline" using p by simp_all
  obtain k r where k: "now = deadline + (period * k + r)" "r < period"
    using p d by (metis add_diff_inverse_nat mult_div_mod_eq not_less mod_less_divisor)
  then have "now + period - ?m - deadline = period * (k + 1)" by simp
  then show "now < skip_missed deadline now period \<and> skip_missed deadline now period \<le> now + period \<and>
      period dvd skip_missed deadline now period - deadline"
    using m by (simp add: skip_missed_def)
qed

text \<open>A streaming client never sends a handshake again.\<close>

lemma streaming_or_done:
  assumes "codec_ok c" and "list_all (\<lambda>e. cn_codec (fst e) = c) es"
    and "streaming st \<or> (\<exists>r. cl_phase st = Done r)"
  shows "(streaming (foldl (udp_client_step args) st es) \<or> (\<exists>r. cl_phase (foldl (udp_client_step args) st es) = Done r)) \<and>
    (\<exists>dgs. cl_sent (foldl (udp_client_step args) st es) = cl_sent st @ dgs \<and> list_all (harmless c) dgs)"
  using assms(2,3)
proof (induction es arbitrary: st)
  case Nil
  then show ?case by simp
next
  case (Cons e es)
  have "(streaming (udp_client_step args st e) \<or> (\<exists>r. cl_phase (udp_client_step args st e) = Done r)) \<and>
    (\<exists>dgs. cl_sent (udp_client_step args st e) = cl_sent st @ dgs \<and> list_all (harmless c) dgs)"
  proof (cases "\<exists>r. cl_phase st = Done r")
    case True
    then show ?thesis by (cases e) (auto simp: udp_client_step_def)
  next
    case False
    with Cons.prems have st: "streaming st" by simp
    show ?thesis
    proof (cases "udp_polls (cl_phase st) (snd e)")
      case False
      with unpolled_udp st show ?thesis by fastforce
    next
      case True
      show ?thesis
      proof (cases "udp_can_send (fst e) (snd e)")
        case can: True
        from streaming_step [OF st True can, of args] encoded_messages(1) [OF assms(1) _ can] Cons.prems(1)
        show ?thesis by auto
      next
        case False
        with st True show ?thesis
          by (cases e; cases "snd e" rule: forwarded.cases)
             (auto simp: streaming_def udp_client_step_def udp_client_stream_def udp_client_ping_def
               udp_client_send_def udp_can_send_def finish_with_def is_ok_def
               reconnect_streaming(1) [unfolded streaming_def] reconnect_streaming(2)
               intro: exI [of _ "[]"] split: sum.splits option.splits if_splits)
      qed
    qed
  qed
  then obtain dgs where step: "streaming (udp_client_step args st e) \<or> (\<exists>r. cl_phase (udp_client_step args st e) = Done r)"
    "cl_sent (udp_client_step args st e) = cl_sent st @ dgs" "list_all (harmless c) dgs" by blast
  from Cons.IH [OF _ step(1)] Cons.prems(1) step(2,3) show ?case by force
qed

text \<open>The datagrams of a streaming client move no session of a server that has none for it.\<close>

lemma no_session_no_input:
  assumes "list_all (harmless c) dgs" and "\<forall>n. sn_codec (envs n) = c"
    and "sv_udp st" and "bound st (UdpPeer src) = Some key" and "fmlookup (sv_sessions st) key = None"
  shows "sv_sessions (server_run st (arrivals envs src n dgs)) = sv_sessions st"
  using assms(1,3-5)
proof (induction dgs arbitrary: st n)
  case Nil
  then show ?case by (simp add: server_run_def)
next
  case (Cons bs dgs)
  let ?st = "server_step st (envs n, UdpDatagram src bs)"
  have "sv_sessions ?st = sv_sessions st \<and> sv_udp ?st \<and> bound ?st (UdpPeer src) = Some key"
    using Cons.prems assms(2)
    by (auto simp: harmless_def udp_datagram_def udp_ping_def udp_events_def session_ping_def session_events_def)
  with Cons.IH [of ?st "Suc n"] Cons.prems show ?case by (simp add: server_run_def del: server_step.simps)
qed


section \<open>Concrete runs\<close>

definition demo_link :: link where
  "demo_link = \<lparr>lk_client = (timed_start 6 demo_cstate)\<lparr>tc_keepalive := \<lparr>ti_deadline = 10000000000,
       ti_period = KEEPALIVE_INTERVAL\<rparr>\<rparr>,
     lk_flight = [], lk_server = demo_live demo_sys, lk_now = 6\<rparr>"

definition demo_link_sent :: link where
  "demo_link_sent = client_moves demo_args skip_missed 10000000005 (demo_cenv [], KeepaliveTick) demo_link"

lemma demo_link_sent_flight:
  "lk_flight demo_link_sent = [(10000000005, [3])]"
  "ti_deadline (tc_keepalive (lk_client demo_link_sent)) = 20000000000" "lk_now demo_link_sent = 10000000005"
  "lk_server demo_link_sent = demo_live demo_sys"
  by (simp_all add: demo_link_sent_def client_moves_def demo_link_def timed_udp_def timed_step_def
      timed_start_def due_def newly_sent_def demo_cstate_def udp_client_step_def udp_client_stream_def
      udp_client_ping_def udp_client_send_def skip_missed_def KEEPALIVE_INTERVAL_def Let_def)

theorem keepalive_keeps_session_witness:
  "has_session (lk_server (server_moves (demo_senv 15000000000, Reap)
     (server_moves (demo_senv 10000000009, UdpDatagram demo_addr [3]) (demo_link_sent\<lparr>lk_flight := []\<rparr>)))) ''c1:Pad''"
proof -
  let ?J = "te_from_json demo_env"
  let ?step = "link_step demo_args skip_missed demo_codec ?J demo_addr 1000000000 100000000"
  let ?L2 = "server_moves (demo_senv 10000000009, UdpDatagram demo_addr [3]) (demo_link_sent\<lparr>lk_flight := []\<rparr>)"
  let ?L3 = "server_moves (demo_senv 15000000000, Reap) ?L2"
  have "?step demo_link demo_link_sent"
    unfolding demo_link_sent_def
    by (rule link_step.acts) (simp_all add: on_time_def demo_link_def udp_can_send_def)
  moreover have "?step demo_link_sent ?L2"
    by (rule link_step.arrives) (simp_all add: on_time_def demo_link_sent_flight)
  moreover have "?step ?L2 ?L3"
    by (rule link_step.serves) (simp_all add: on_time_def demo_link_sent_flight server_moves_def demo_live_def
        udp_datagram_def udp_ping_def session_ping_def)
  ultimately have run: "?step\<^sup>*\<^sup>* demo_link ?L3" by (meson converse_rtranclp_into_rtranclp r_into_rtranclp)
  have "streaming (tc_state (lk_client ?L3)) \<and> bound (lk_server ?L3) (UdpPeer demo_addr) = Some ''c1:Pad'' \<and>
    (\<exists>s'. fmlookup (sv_sessions (lk_server ?L3)) ''c1:Pad'' = Some s' \<and>
      vo_config (se_vdev s') = vo_config (se_vdev demo_entry) \<and>
      prefix (vo_log (se_vdev demo_entry)) (vo_log (se_vdev s')))"
    by (rule keepalive_keeps_session [OF demo_codec_ok skip_missed_skips _ _ _ _ _ _ _ _ _ run])
      (simp_all add: demo_link_def demo_live_def demo_entry_def timed_start_def streaming_def demo_cstate_def
        KEEPALIVE_INTERVAL_def idle_limit_def)
  then show ?thesis by (auto simp: has_session_def)
qed


end
