(* ===== verification/IrohKeepalive.thy ===== *)
theory IrohKeepalive
  imports Keepalive IrohEndToEnd
begin

text \<open>
  The keepalives of \<open>Keepalive\<close> over an Iroh connection: the client's frames travel on a reliable
  stream, and the task of the server that serves the connection reads one when all its bytes are
  there. The reaper, other peers and the administrator act in between.
\<close>

section \<open>The system\<close>

text \<open>A client, its unread frames with the times at which they were written, and the server.\<close>

record stream_link =
  sl_client :: timed_client
  sl_flight :: "(nat \<times> bytes) list"
  sl_server :: server_state
  sl_now :: nat

definition in_time :: "nat \<Rightarrow> nat \<Rightarrow> nat \<Rightarrow> stream_link \<Rightarrow> bool" where
  "in_time slack latency t L \<longleftrightarrow> sl_now L \<le> t \<and>
     t \<le> ti_deadline (tc_keepalive (sl_client L)) + slack \<and>
     list_all (\<lambda>(written, bs). t \<le> written + latency) (sl_flight L)"

text \<open>A step of the client writes at most one frame.\<close>

definition newly_written :: "timed_client \<Rightarrow> timed_client \<Rightarrow> bytes list" where
  "newly_written tc tc' =
     (let bs = drop (length (bw_out (cl_writer (tc_state tc)))) (bw_out (cl_writer (tc_state tc')))
      in if bs = [] then [] else [bs])"

definition client_writes ::
  "client_args \<Rightarrow> next_tick \<Rightarrow> nat \<Rightarrow> client_env \<times> client_input \<Rightarrow> stream_link \<Rightarrow> stream_link" where
  "client_writes args nt t e L =
     (let tc = timed_iroh args nt t e (sl_client L)
      in L\<lparr>sl_client := tc, sl_flight := sl_flight L @ map (Pair t) (newly_written (sl_client L) tc), sl_now := t\<rparr>)"

text \<open>The bytes of a frame reach connection \<open>i\<close>, whose task then reads it.\<close>

definition bytes_arrive :: "nat \<Rightarrow> bytes \<Rightarrow> server_state \<Rightarrow> server_state" where
  "bytes_arrive i bs st = st\<lparr>sv_conns := (sv_conns st)(i := map_option (\<lambda>conn. conn\<lparr>ic_recv := ic_recv conn @ bs\<rparr>)
     (sv_conns st i))\<rparr>"

definition server_acts :: "server_env \<times> server_input \<Rightarrow> server_state \<Rightarrow> stream_link \<Rightarrow> stream_link" where
  "server_acts e st L = L\<lparr>sl_server := server_step st e, sl_now := sn_now (fst e)\<rparr>"

definition stays_up :: "client_state \<Rightarrow> bool" where
  "stays_up st \<longleftrightarrow> (\<forall>r. cl_phase st \<noteq> Done r)"

definition write_fails :: "nat \<Rightarrow> server_state \<Rightarrow> bool" where
  "write_fails i st \<longleftrightarrow> (\<exists>conn e. sv_conns st i = Some conn \<and> ic_phase conn = Closed (Err e))"

text \<open>
  The steps: the client takes an input and goes on (its writes succeed and the server has not closed
  the stream) and what it forwards fits a frame; the server reads the oldest frame, and its
  answer, if there is one, can be written; or the server takes any other input.
\<close>

inductive stream_step ::
  "client_args \<Rightarrow> next_tick \<Rightarrow> codec \<Rightarrow> (string \<Rightarrow> trust_data option) \<Rightarrow> nat \<Rightarrow> nat \<Rightarrow> nat \<Rightarrow>
   stream_link \<Rightarrow> stream_link \<Rightarrow> bool"
  for args nt c J i slack latency where
  acts: "in_time slack latency t L \<Longrightarrow> cn_codec (fst e) = c \<Longrightarrow> list_all (sendable c) (forwarded (snd e)) \<Longrightarrow>
    stays_up (tc_state (timed_iroh args nt t e (sl_client L))) \<Longrightarrow>
    stream_step args nt c J i slack latency L (client_writes args nt t e L)"
| reads: "in_time slack latency (sn_now env) L \<Longrightarrow> sn_codec env = c \<Longrightarrow> sl_flight L = (written, bs) # rest \<Longrightarrow>
    \<not> write_fails i (server_step (bytes_arrive i bs (sl_server L)) (env, IrohRead i)) \<Longrightarrow>
    stream_step args nt c J i slack latency L
      (server_acts (env, IrohRead i) (bytes_arrive i bs (sl_server L)) (L\<lparr>sl_flight := rest\<rparr>))"
| serves: "in_time slack latency (sn_now (fst e)) L \<Longrightarrow> env_ok J e \<Longrightarrow> snd e \<noteq> IrohRead i \<Longrightarrow>
    stream_step args nt c J i slack latency L (server_acts e (sl_server L) L)"

section \<open>What a streaming client writes\<close>

lemma iroh_send_up:
  assumes "stays_up (iroh_client_send env m st)"
  shows "cl_phase (iroh_client_send env m st) = cl_phase st"
    and "bw_out (cl_writer (iroh_client_send env m st)) = bw_out (cl_writer st) @ frame_bytes (cn_codec env) m"
  using iroh_client_send_cases [of env m st] assms by (auto simp: stays_up_def)

lemma iroh_streaming_step:
  assumes "streaming st" and "iroh_polls (cl_phase st) (snd e)" and "stays_up (iroh_client_step args st e)"
  shows "streaming (iroh_client_step args st e)"
    and "bw_out (cl_writer (iroh_client_step args st e)) =
      bw_out (cl_writer st) @ concat (map (frame_bytes (cn_codec (fst e))) (forwarded (snd e)))"
proof -
  obtain env inp where e: "e = (env, inp)" by (cases e)
  obtain rd x where ph: "cl_phase st = Streaming rd x" using assms(1) by (auto simp: streaming_def)
  have reconnect: "cl_writer (reconnect_tick env rd st) = cl_writer st"
    by (auto simp: reconnect_tick_def split: prod.split option.split)
  have "streaming (iroh_client_step args st e) \<and> bw_out (cl_writer (iroh_client_step args st e)) =
      bw_out (cl_writer st) @ concat (map (frame_bytes (cn_codec (fst e))) (forwarded (snd e)))"
    using assms(2,3) ph
    by (cases inp rule: forwarded.cases; cases x)
      (auto simp: e iroh_client_step_def iroh_client_stream_def streaming_def reconnect
        reconnect_streaming [unfolded streaming_def] iroh_send_up stays_up_def finish_with_def
        dest: iroh_send_up(1) [unfolded stays_up_def] split: sum.splits prod.splits)
  then show "streaming (iroh_client_step args st e)"
    and "bw_out (cl_writer (iroh_client_step args st e)) =
      bw_out (cl_writer st) @ concat (map (frame_bytes (cn_codec (fst e))) (forwarded (snd e)))" by blast+
qed

definition harmless_frame :: "codec \<Rightarrow> bytes \<Rightarrow> bool" where
  "harmless_frame c bs \<longleftrightarrow> (\<exists>m. read_frame c bs = Ok (m, []) \<and> (m = Ping \<or> (\<exists>evs. m = Events evs)))"

definition ping_frames :: "codec \<Rightarrow> (nat \<times> bytes) list \<Rightarrow> nat list" where
  "ping_frames c flight = map fst (filter (\<lambda>(written, bs). read_frame c bs = Ok (Ping, [])) flight)"

lemma ping_frames_append: "ping_frames c (xs @ ys) = ping_frames c xs @ ping_frames c ys"
  by (simp add: ping_frames_def)

lemma ping_frames_subset:
  "s \<in> set (ping_frames c fl) \<Longrightarrow> list_all (\<lambda>(written, bs). t \<le> written + l) fl \<Longrightarrow> t \<le> s + l"
  by (auto simp: ping_frames_def list_all_iff)

text \<open>One frame for what is forwarded, and it is a ping exactly for a keepalive tick.\<close>

lemma written_frames:
  assumes "bw_out (cl_writer (tc_state tc')) = bw_out (cl_writer (tc_state tc)) @ concat (map (frame_bytes c) (forwarded inp))"
    and "list_all (sendable c) (forwarded inp)"
  shows "list_all (harmless_frame c) (newly_written tc tc')"
    and "ping_frames c (map (Pair t) (newly_written tc tc')) = (if inp = KeepaliveTick then [t] else [])"
proof -
  have one: "newly_written tc tc' = (if forwarded inp = [] then [] else [frame_bytes c (hd (forwarded inp))])"
    using assms by (cases inp rule: forwarded.cases) (auto simp: newly_written_def Let_def sendable_def frame_bytes_def be32_def)
  have read: "read_frame c (frame_bytes c m) = Ok (m, [])" if "sendable c m" for m
    using fr.get_put [OF that, of "[]"] by simp
  have "list_all (harmless_frame c) (newly_written tc tc') \<and>
    ping_frames c (map (Pair t) (newly_written tc tc')) = (if inp = KeepaliveTick then [t] else [])"
    using assms(2) unfolding one
    by (cases inp rule: forwarded.cases) (auto simp: read harmless_frame_def ping_frames_def event_message_def)
  then show "list_all (harmless_frame c) (newly_written tc tc')"
    and "ping_frames c (map (Pair t) (newly_written tc tc')) = (if inp = KeepaliveTick then [t] else [])" by blast+
qed

section \<open>The connection and its session\<close>

definition stream_live :: "server_state \<Rightarrow> nat \<Rightarrow> string \<Rightarrow> session_entry \<Rightarrow> nat \<Rightarrow> bool" where
  "stream_live st i key s0 active \<longleftrightarrow>
     (\<exists>conn. sv_conns st i = Some conn \<and> ic_phase conn = Established key \<and> ic_recv conn = []) \<and>
     (\<exists>s. fmlookup (sv_sessions st) key = Some s \<and> same_device s0 s \<and> se_last_active s = active)"

lemma live_read:
  assumes "stream_live st i key s0 active" and "harmless_frame (sn_codec env) bs" and "active \<le> sn_now env"
    and "\<not> write_fails i (server_step (bytes_arrive i bs st) (env, IrohRead i))"
  shows "\<exists>a \<ge> active. a \<le> sn_now env \<and>
    stream_live (server_step (bytes_arrive i bs st) (env, IrohRead i)) i key s0 a \<and>
    (read_frame (sn_codec env) bs = Ok (Ping, []) \<longrightarrow> a = sn_now env)"
proof -
  obtain conn s where conn: "sv_conns st i = Some conn" "ic_phase conn = Established key" "ic_recv conn = []"
    and s: "fmlookup (sv_sessions st) key = Some s" "same_device s0 s" "se_last_active s = active"
    using assms(1) by (auto simp: stream_live_def)
  obtain m where m: "read_frame (sn_codec env) bs = Ok (m, [])" "m = Ping \<or> (\<exists>evs. m = Events evs)"
    using assms(2) by (auto simp: harmless_frame_def)
  let ?conn = "conn\<lparr>ic_recv := bs\<rparr>" and ?st = "bytes_arrive i bs st"
  have step: "server_step ?st (env, IrohRead i) =
      (let (conn1, st1) = iroh_established env key m (conn\<lparr>ic_recv := []\<rparr>, ?st)
       in st1\<lparr>sv_conns := (sv_conns st1)(i \<mapsto> conn1)\<rparr>)"
    using conn m(1) by (simp add: bytes_arrive_def iroh_read_def)
  have ses: "sv_sessions ?st = sv_sessions st" by (simp add: bytes_arrive_def)
  show ?thesis
  proof (cases "m = Ping")
    case True
    obtain r w where w: "write_frame (sn_codec env) Pong (ic_send conn) = (r, w)"
      by (cases "write_frame (sn_codec env) Pong (ic_send conn)")
    have "iroh_established env key m (conn\<lparr>ic_recv := []\<rparr>, ?st) =
        (iroh_write env Pong (Established key) (conn\<lparr>ic_recv := []\<rparr>),
         ?st\<lparr>sv_sessions := fmupd key (touch (sn_now env) s) (sv_sessions st)\<rparr>)"
      using s(1) by (simp add: True iroh_established_def session_ping_def ses)
    note step' = step [unfolded this prod.case Let_def]
    have "is_ok r"
      using assms(4) w unfolding step' by (cases r) (auto simp: write_fails_def iroh_write_def)
    then have "stream_live (server_step ?st (env, IrohRead i)) i key s0 (sn_now env)"
      using w s same_device_trans [OF s(2) same_device_touch] unfolding step'
      by (auto simp: stream_live_def iroh_write_def is_ok_iff touch_def)
    with assms(3) show ?thesis by blast
  next
    case False
    then obtain evs where evs: "m = Events evs" using m(2) by blast
    have "iroh_established env key m (conn\<lparr>ic_recv := []\<rparr>, ?st) =
        (conn\<lparr>ic_recv := []\<rparr>, ?st\<lparr>sv_sessions := fmupd key (replay env evs s) (sv_sessions st)\<rparr>)"
      using s(1) by (simp add: evs iroh_established_def session_events_def ses)
    note step' = step [unfolded this prod.case Let_def]
    have "same_device s0 (replay env evs s)" "se_last_active (replay env evs s) \<in> {active, sn_now env}"
      using same_device_trans [OF s(2) same_device_replay] s(3) by (auto simp: replay_def)
    moreover have "stream_live (server_step ?st (env, IrohRead i)) i key s0 (se_last_active (replay env evs s))"
      using conn(2) calculation(1) unfolding step' by (simp add: stream_live_def)
    ultimately show ?thesis using assms(3) m(1) evs by auto
  qed
qed

lemma others_keep_conn:
  assumes "env_ok J e" and "snd e \<noteq> IrohRead i" and "sv_conns st i = Some conn" and "ic_phase conn \<noteq> Accepting"
  shows "sv_conns (server_step st e) i = Some conn"
proof -
  obtain env inp where e: "e = (env, inp)" by (cases e)
  show ?thesis
  proof (cases inp)
    case (UdpDatagram a bs)
    then show ?thesis using assms(1,3)
      by (auto simp: e udp_datagram_def udp_events_def udp_ping_def udp_handshake_parts
          split: sum.splits message.splits option.splits)
  next
    case (IrohRead j)
    have "sv_conns (snd (iroh_read env (conn', st))) = sv_conns st" for conn'
      using iroh_read_frame_parts [OF assms(1) [unfolded e], of conn' st] by blast
    with IrohRead assms(2,3) show ?thesis
      by (auto simp: e Let_def split: option.splits prod.splits) (metis snd_conv)+
  qed (use assms in \<open>auto simp: e split: option.splits\<close>)
qed

lemma stream_live_others:
  assumes "stream_live st i key s0 active" and "env_ok J e" and "snd e \<noteq> IrohRead i"
    and "active \<le> sn_now (fst e)" and "sn_now (fst e) < active + idle_limit"
  shows "\<exists>a \<ge> active. a \<le> sn_now (fst e) \<and> stream_live (server_step st e) i key s0 a"
proof -
  obtain conn s where conn: "sv_conns st i = Some conn" "ic_phase conn = Established key" "ic_recv conn = []"
    and s: "fmlookup (sv_sessions st) key = Some s" "same_device s0 s" "se_last_active s = active"
    using assms(1) by (auto simp: stream_live_def)
  from session_others [OF s(1) assms(2)] s(3) assms(4,5) obtain s' where
    s': "fmlookup (sv_sessions (server_step st e)) key = Some s'" "same_device s s'"
    "se_last_active s' \<in> {active, sn_now (fst e)}" by auto
  have "sv_conns (server_step st e) i = Some conn"
    using others_keep_conn [OF assms(2,3) conn(1)] conn(2) by simp
  with conn(2,3) s' s(2) assms(4) show ?thesis
    by (auto simp: stream_live_def intro!: exI [of _ "se_last_active s'"] intro: same_device_trans)
qed

section \<open>Every step\<close>

definition stream_ok :: "codec \<Rightarrow> nat \<Rightarrow> string \<Rightarrow> session_entry \<Rightarrow> nat \<Rightarrow> stream_link \<Rightarrow> bool" where
  "stream_ok c i key s0 slack L \<longleftrightarrow>
     streaming (tc_state (sl_client L)) \<and> ti_period (tc_keepalive (sl_client L)) = KEEPALIVE_INTERVAL \<and>
     list_all (\<lambda>(written, bs). written \<le> sl_now L \<and> harmless_frame c bs) (sl_flight L) \<and>
     (\<exists>active \<le> sl_now L. stream_live (sl_server L) i key s0 active \<and>
        spaced slack active (ping_frames c (sl_flight L)) (ti_deadline (tc_keepalive (sl_client L))))"

lemma stream_okE:
  assumes "stream_ok c i key s0 slack L"
  obtains active where "active \<le> sl_now L" "stream_live (sl_server L) i key s0 active"
    "spaced slack active (ping_frames c (sl_flight L)) (ti_deadline (tc_keepalive (sl_client L)))"
  using assms by (auto simp: stream_ok_def)

lemma stream_acts_ok:
  assumes "skips nt" and "stream_ok c i key s0 slack L" and "in_time slack latency t L"
    and "cn_codec (fst e) = c" and "list_all (sendable c) (forwarded (snd e))"
    and "stays_up (tc_state (timed_iroh args nt t e (sl_client L)))"
  shows "stream_ok c i key s0 slack (client_writes args nt t e L)"
proof -
  let ?tc = "sl_client L"
  have t: "sl_now L \<le> t" "t \<le> ti_deadline (tc_keepalive ?tc) + slack" using assms(3) by (simp_all add: in_time_def)
  have fl: "list_all (\<lambda>(written, bs). written \<le> t \<and> harmless_frame c bs) (sl_flight L)"
    using assms(2) t(1) by (auto simp: stream_ok_def list_all_iff)
  obtain active where a: "active \<le> sl_now L" "stream_live (sl_server L) i key s0 active"
    "spaced slack active (ping_frames c (sl_flight L)) (ti_deadline (tc_keepalive ?tc))"
    using assms(2) by (rule stream_okE)
  show ?thesis
  proof (cases "iroh_polls (cl_phase (tc_state ?tc)) (snd e) \<and> due KEEPALIVE_TIMEOUT t ?tc (snd e)")
    case True
    let ?tc' = "timed_iroh args nt t e ?tc"
    have st': "tc_state ?tc' = iroh_client_step args (tc_state ?tc) e"
      using True by (simp add: timed_iroh_def timed_step_def)
    have "streaming (tc_state ?tc)" using assms(2) by (simp add: stream_ok_def)
    note step = iroh_streaming_step [OF this _ assms(6) [unfolded st'], folded st', unfolded assms(4)]
    have wr: "bw_out (cl_writer (tc_state ?tc')) =
        bw_out (cl_writer (tc_state ?tc)) @ concat (map (frame_bytes c) (forwarded (snd e)))"
      using step(2) True by blast
    have "snd e = KeepaliveTick \<Longrightarrow>
        nt (ti_deadline (tc_keepalive ?tc)) t KEEPALIVE_INTERVAL \<le> t + KEEPALIVE_INTERVAL"
      using True assms(1) by (simp add: skips_def due_def KEEPALIVE_INTERVAL_def)
    moreover have "ti_deadline (tc_keepalive ?tc') = (if snd e = KeepaliveTick
        then nt (ti_deadline (tc_keepalive ?tc)) t KEEPALIVE_INTERVAL else ti_deadline (tc_keepalive ?tc))"
      using True assms(2) by (simp add: stream_ok_def timed_iroh_def timed_step_def)
    ultimately have "spaced slack active (ping_frames c (sl_flight L @ map (Pair t) (newly_written ?tc ?tc')))
        (ti_deadline (tc_keepalive ?tc'))"
      using a(3) spaced_tick [OF a(3) t(2)]
      by (simp add: ping_frames_append written_frames(2) [OF wr assms(5)])
    moreover have "list_all (\<lambda>(written, bs). written \<le> t \<and> harmless_frame c bs) (map (Pair t) (newly_written ?tc ?tc'))"
      using written_frames(1) [OF wr assms(5)] by (simp add: list_all_iff)
    moreover have "ti_period (tc_keepalive ?tc') = KEEPALIVE_INTERVAL"
      using assms(2) by (simp add: stream_ok_def timed_iroh_def timed_step_def)
    moreover have "streaming (tc_state ?tc')" using step(1) True by blast
    ultimately show ?thesis
      using a(1,2) t(1) fl by (auto simp: stream_ok_def client_writes_def Let_def intro!: exI [of _ active])
  next
    case False
    then have "timed_iroh args nt t e ?tc = ?tc" unfolding timed_iroh_def timed_step_def by (simp only: if_False)
    then show ?thesis
      using a t(1) fl assms(2)
      by (auto simp: stream_ok_def client_writes_def Let_def newly_written_def intro!: exI [of _ active])
  qed
qed

lemma stream_reads_ok:
  assumes "stream_ok c i key s0 slack L" and "in_time slack latency (sn_now env) L" and "sn_codec env = c"
    and "sl_flight L = (written, bs) # rest"
    and "\<not> write_fails i (server_step (bytes_arrive i bs (sl_server L)) (env, IrohRead i))"
  shows "stream_ok c i key s0 slack
    (server_acts (env, IrohRead i) (bytes_arrive i bs (sl_server L)) (L\<lparr>sl_flight := rest\<rparr>))"
proof -
  let ?t = "sn_now env"
  have t: "sl_now L \<le> ?t" using assms(2) by (simp add: in_time_def)
  obtain active where a: "active \<le> sl_now L" "stream_live (sl_server L) i key s0 active"
    "spaced slack active (ping_frames c (sl_flight L)) (ti_deadline (tc_keepalive (sl_client L)))"
    using assms(1) by (rule stream_okE)
  have b: "written \<le> sl_now L" "harmless_frame c bs" using assms(1,4) by (simp_all add: stream_ok_def)
  have "active \<le> ?t" using a(1) t by simp
  from live_read [OF a(2) _ this assms(5)] b(2) assms(3) obtain a' where a': "active \<le> a'" "a' \<le> ?t"
    "stream_live (server_step (bytes_arrive i bs (sl_server L)) (env, IrohRead i)) i key s0 a'"
    "read_frame c bs = Ok (Ping, []) \<longrightarrow> a' = ?t" by auto
  have "spaced slack a' (ping_frames c rest) (ti_deadline (tc_keepalive (sl_client L)))"
  proof (cases "read_frame c bs = Ok (Ping, [])")
    case True
    then have "spaced slack written (ping_frames c rest) (ti_deadline (tc_keepalive (sl_client L)))"
      using a(3) by (simp add: assms(4) ping_frames_def)
    then show ?thesis by (rule spaced_mono) (use True a'(4) b(1) t in simp)
  next
    case False
    then have "ping_frames c (sl_flight L) = ping_frames c rest" by (simp add: assms(4) ping_frames_def)
    with a(3) a'(1) show ?thesis by (simp add: spaced_mono)
  qed
  then show ?thesis
    using assms(1,4) a'(2,3) t
    by (auto simp: stream_ok_def server_acts_def list_all_iff simp del: server_step.simps intro!: exI [of _ a'])
qed

lemma stream_serves_ok:
  assumes "stream_ok c i key s0 slack L" and "in_time slack latency (sn_now (fst e)) L" and "env_ok J e"
    and "snd e \<noteq> IrohRead i" and "KEEPALIVE_INTERVAL + slack + latency < idle_limit"
  shows "stream_ok c i key s0 slack (server_acts e (sl_server L) L)"
proof -
  let ?t = "sn_now (fst e)"
  have t: "sl_now L \<le> ?t" "?t \<le> ti_deadline (tc_keepalive (sl_client L)) + slack"
    "list_all (\<lambda>(written, bs). ?t \<le> written + latency) (sl_flight L)"
    using assms(2) by (simp_all add: in_time_def)
  obtain active where a: "active \<le> sl_now L" "stream_live (sl_server L) i key s0 active"
    "spaced slack active (ping_frames c (sl_flight L)) (ti_deadline (tc_keepalive (sl_client L)))"
    using assms(1) by (rule stream_okE)
  have "?t \<le> active + KEEPALIVE_INTERVAL + slack + latency"
    using spaced_bound [OF a(3) t(2)] ping_frames_subset [OF _ t(3)] by blast
  with assms(5) have "?t < active + idle_limit" by linarith
  moreover have "active \<le> ?t" using a(1) t(1) by simp
  ultimately obtain a' where a': "active \<le> a'" "a' \<le> ?t" "stream_live (server_step (sl_server L) e) i key s0 a'"
    using stream_live_others [OF a(2) assms(3,4)] by blast
  from spaced_mono [OF a(3) a'(1)] a'(2,3) assms(1) t(1) show ?thesis
    by (auto simp: stream_ok_def server_acts_def list_all_iff intro!: exI [of _ a'])
qed

lemma stream_run_ok:
  assumes "skips nt" and "KEEPALIVE_INTERVAL + slack + latency < idle_limit"
    and "(stream_step args nt c J i slack latency)\<^sup>*\<^sup>* L L'" and "stream_ok c i key s0 slack L"
  shows "stream_ok c i key s0 slack L'"
  using assms(3,4)
proof (induction rule: rtranclp_induct)
  case (step L1 L2)
  then have ok: "stream_ok c i key s0 slack L1" by blast
  from step(2) show ?case
  proof (cases rule: stream_step.cases)
    case (acts t e)
    with stream_acts_ok [OF assms(1) ok] show ?thesis by blast
  next
    case (reads env written bs rest)
    with stream_reads_ok [OF ok] show ?thesis by blast
  next
    case (serves e)
    with stream_serves_ok [OF ok _ _ _ assms(2)] show ?thesis by blast
  qed
qed

text \<open>
  C13. The keepalives outlast the reaper over Iroh, too. When a client streams over a connection that
  the server has established for a live session, and the ten seconds between keepalives, the slack
  of the client's loop and the time from writing a frame to reading it together stay below the idle
  limit, then as long as the client runs and answers can be written, the connection stays
  established and the session open, with the same device, whatever the client forwards or does not
  forward and whatever other peers, the administrator and the reaper do.
\<close>

theorem iroh_keepalive_keeps_session:
  assumes "skips nt" and "KEEPALIVE_INTERVAL + slack + latency < idle_limit"
    and "streaming (tc_state (sl_client L))" and "sl_flight L = []"
    and "ti_period (tc_keepalive (sl_client L)) = KEEPALIVE_INTERVAL"
    and "sv_conns (sl_server L) i = Some conn" and "ic_phase conn = Established key" and "ic_recv conn = []"
    and "fmlookup (sv_sessions (sl_server L)) key = Some s" and "se_last_active s \<le> sl_now L"
    and "ti_deadline (tc_keepalive (sl_client L)) \<le> se_last_active s + KEEPALIVE_INTERVAL"
    and "(stream_step args nt c J i slack latency)\<^sup>*\<^sup>* L L'"
  shows "streaming (tc_state (sl_client L')) \<and>
    (\<exists>conn'. sv_conns (sl_server L') i = Some conn' \<and> ic_phase conn' = Established key) \<and>
    (\<exists>s'. fmlookup (sv_sessions (sl_server L')) key = Some s' \<and>
      vo_config (se_vdev s') = vo_config (se_vdev s) \<and> prefix (vo_log (se_vdev s)) (vo_log (se_vdev s')))"
proof -
  have "stream_ok c i key s slack L"
    using assms(3-11) by (auto simp: stream_ok_def stream_live_def ping_frames_def)
  from stream_run_ok [OF assms(1,2,12) this] show ?thesis
    by (auto simp: stream_ok_def stream_live_def same_device_def)
qed


section \<open>A concrete run\<close>

text \<open>The client of \<open>Keepalive\<close> on a stream, and a server that has established connection 4.\<close>

definition demo_stream_link :: stream_link where
  "demo_stream_link = \<lparr>sl_client = (timed_start 6 demo_cstate)\<lparr>tc_keepalive := \<lparr>ti_deadline = 10000000000,
       ti_period = KEEPALIVE_INTERVAL\<rparr>\<rparr>,
     sl_flight = [], sl_server = (demo_live demo_sys)\<lparr>sv_conns := [4 \<mapsto> (demo_conn [])\<lparr>ic_phase := Established ''c1:Pad''\<rparr>]\<rparr>,
     sl_now = 6\<rparr>"

definition demo_written :: stream_link where
  "demo_written = client_writes demo_args skip_missed 10000000005 (demo_cenv [], KeepaliveTick) demo_stream_link"

lemma demo_ping_sendable: "sendable demo_codec Ping"
  by (rule sendableI [OF demo_codec_ok, of _ "[3]"]) (simp_all add: max_frame_def demo_codec_def
      message_encode_def table_codec_def)

lemma demo_ping_frame: "frame_bytes demo_codec Ping = [0, 0, 0, 1, 3]"
  by (simp add: frame_bytes_def demo_codec_def message_encode_def table_codec_def be32_def)

lemma demo_stream_ping: "message_encode demo_codec Ping = Ok [3]"
  by (simp add: demo_codec_def message_encode_def table_codec_def)

lemma demo_written_client:
  "timed_iroh demo_args skip_missed 10000000005 (demo_cenv [], KeepaliveTick) (sl_client demo_stream_link) =
     (sl_client demo_stream_link)\<lparr>tc_state := demo_cstate\<lparr>cl_writer :=
        \<lparr>bw_out = [0, 0, 0, 1, 3], bw_room = 995, bw_flush = True\<rparr>\<rparr>,
      tc_keepalive := \<lparr>ti_deadline = 20000000000, ti_period = KEEPALIVE_INTERVAL\<rparr>, tc_since := 10000000005\<rparr>"
  by (simp add: timed_iroh_def timed_step_def timed_start_def demo_stream_link_def due_def iroh_client_step_def
      iroh_client_stream_def iroh_client_send_def write_frame_Ok [OF demo_stream_ping] demo_ping_frame
      skip_missed_def KEEPALIVE_INTERVAL_def demo_cstate_def)

lemma demo_written_simps:
  "sl_flight demo_written = [(10000000005, [0, 0, 0, 1, 3])]" "sl_now demo_written = 10000000005"
  "ti_deadline (tc_keepalive (sl_client demo_written)) = 20000000000"
  "sl_server demo_written = sl_server demo_stream_link"
  unfolding demo_written_def client_writes_def Let_def demo_written_client
  by (simp_all add: newly_written_def demo_stream_link_def timed_start_def demo_cstate_def)

definition demo_answered :: stream_link where
  "demo_answered = server_acts (demo_senv 10000000009, IrohRead 4)
     (bytes_arrive 4 [0, 0, 0, 1, 3] (sl_server demo_stream_link)) (demo_written\<lparr>sl_flight := []\<rparr>)"

lemma demo_answered_conn:
  "sv_conns (sl_server demo_answered) 4 = Some \<lparr>ic_phase = Established ''c1:Pad'', ic_recv = [],
     ic_send = \<lparr>bw_out = [0, 0, 0, 1, 4], bw_room = 995, bw_flush = True\<rparr>, ic_finished = False\<rparr>"
proof -
  have r: "read_frame demo_codec [0, 0, 0, 1, 3] = Ok (Ping, [])"
    using fr.get_put [OF demo_ping_sendable, of "[]"] by (simp add: demo_ping_frame)
  have f: "frame_bytes demo_codec Pong = [0, 0, 0, 1, 4]" by (simp add: frame_bytes_def be32_def)
  have "write_frame demo_codec Pong \<lparr>bw_out = [], bw_room = 1000, bw_flush = True\<rparr> =
      (Ok (), \<lparr>bw_out = [0, 0, 0, 1, 4], bw_room = 995, bw_flush = True\<rparr>)"
    by (subst write_frame_Ok [OF demo_encode(1)]) (simp_all add: f)
  then show ?thesis
    by (simp add: demo_answered_def server_acts_def bytes_arrive_def demo_stream_link_def demo_conn_def demo_live_def
        iroh_read_def r iroh_established_def session_ping_def iroh_write_def)
qed

theorem iroh_keepalive_keeps_session_witness:
  "has_session (sl_server (server_acts (demo_senv 15000000000, Reap) (sl_server demo_answered) demo_answered)) ''c1:Pad''"
proof -
  let ?J = "te_from_json demo_env"
  let ?step = "stream_step demo_args skip_missed demo_codec ?J 4 1000000000 100000000"
  let ?L3 = "server_acts (demo_senv 15000000000, Reap) (sl_server demo_answered) demo_answered"
  have "?step demo_stream_link demo_written"
    unfolding demo_written_def
  proof (rule stream_step.acts)
    show "in_time 1000000000 100000000 10000000005 demo_stream_link"
      by (simp add: in_time_def demo_stream_link_def)
    show "stays_up (tc_state (timed_iroh demo_args skip_missed 10000000005 (demo_cenv [], KeepaliveTick) (sl_client demo_stream_link)))"
      unfolding demo_written_client by (simp add: stays_up_def demo_cstate_def)
  qed (simp_all add: demo_ping_sendable)
  moreover have "?step demo_written demo_answered"
    using demo_answered_conn unfolding demo_answered_def demo_written_simps(4) [symmetric]
    by (intro stream_step.reads) (auto simp: in_time_def demo_written_simps write_fails_def server_acts_def
        simp del: server_step.simps)
  moreover have "?step demo_answered ?L3"
    by (rule stream_step.serves) (simp_all add: in_time_def demo_answered_def server_acts_def demo_written_simps)
  ultimately have run: "?step\<^sup>*\<^sup>* demo_stream_link ?L3" by (meson converse_rtranclp_into_rtranclp r_into_rtranclp)
  have "streaming (tc_state (sl_client ?L3)) \<and>
    (\<exists>conn'. sv_conns (sl_server ?L3) 4 = Some conn' \<and> ic_phase conn' = Established ''c1:Pad'') \<and>
    (\<exists>s'. fmlookup (sv_sessions (sl_server ?L3)) ''c1:Pad'' = Some s' \<and>
      vo_config (se_vdev s') = vo_config (se_vdev demo_entry) \<and>
      prefix (vo_log (se_vdev demo_entry)) (vo_log (se_vdev s')))"
    by (rule iroh_keepalive_keeps_session [OF skip_missed_skips _ _ _ _ _ _ _ _ _ _ run])
      (simp_all add: demo_stream_link_def demo_conn_def demo_live_def demo_entry_def timed_start_def streaming_def demo_cstate_def
        KEEPALIVE_INTERVAL_def idle_limit_def)+
  then show ?thesis by (auto simp: has_session_def)
qed

end
