(* ===== verification/Relay.thy ===== *)
theory Relay
  imports ServerIroh
begin

text \<open>
  What the server is for, without its transports, clocks, files and locks: a relay. It knows which
  clients may open a device, which devices exist with what they have received, and to which device
  each peer is connected. A small step relation says how these may change; every step of the
  running server is a step of the relay, and what holds of the relay's runs holds of the server's.
\<close>

section \<open>The relay\<close>

record relay =
  rl_may :: "string \<Rightarrow> bool"
  rl_device :: "string \<Rightarrow> (uinput_config \<times> input_event list list) option"
  rl_peer :: "peer \<Rightarrow> string option"

datatype relay_act = Rest | Administer | Expire | Arrive peer message

text \<open>Peers may always be disconnected; only a handshake connects one.\<close>

definition loses :: "(peer \<Rightarrow> string option) \<Rightarrow> (peer \<Rightarrow> string option) \<Rightarrow> bool" where
  "loses b b' \<longleftrightarrow> (\<forall>who. b' who = b who \<or> b' who = None)"

definition connects :: "peer \<Rightarrow> string \<Rightarrow> (peer \<Rightarrow> string option) \<Rightarrow> (peer \<Rightarrow> string option) \<Rightarrow> bool" where
  "connects who key b b' \<longleftrightarrow> loses (b(who := b' who)) b' \<and> b' who \<in> {None, b who, Some key}"

lemma connectsI:
  assumes "\<And>w. b' w = None \<or> b' w = b w \<or> (w = who \<and> b' w = Some key)"
  shows "connects who key b b'"
  unfolding connects_def loses_def
proof (intro conjI allI)
  show "b' w = (b(who := b' who)) w \<or> b' w = None" for w using assms [of w] by auto
  show "b' who \<in> {None, b who, Some key}" using assms [of who] by auto
qed

inductive relay_step :: "relay \<Rightarrow> relay_act \<Rightarrow> relay \<Rightarrow> bool" where
  rest: "loses (rl_peer r) b \<Longrightarrow> relay_step r Rest (r\<lparr>rl_peer := b\<rparr>)"
| administer: "relay_step r Administer (r\<lparr>rl_may := may\<rparr>)"
| expire: "relay_step r Expire (r\<lparr>rl_device := rl_device r |` keys\<rparr>)"
| ignore: "loses (rl_peer r) b \<Longrightarrow> relay_step r (Arrive who m) (r\<lparr>rl_peer := b\<rparr>)"
| admit: "rl_may r (hp_client_id p) \<Longrightarrow> connects who (session_key p) (rl_peer r) b \<Longrightarrow>
    relay_step r (Arrive who (Handshake p)) (r\<lparr>rl_peer := b\<rparr>)"
| create: "rl_may r (hp_client_id p) \<Longrightarrow> connects who (session_key p) (rl_peer r) b \<Longrightarrow>
    rl_device r (session_key p) = None \<Longrightarrow>
    relay_step r (Arrive who (Handshake p))
      (r\<lparr>rl_peer := b, rl_device := (rl_device r)(session_key p \<mapsto> (config_of (hp_metadata p) name, []))\<rparr>)"
| feed: "rl_peer r who = Some key \<Longrightarrow> rl_device r key = Some (config, log) \<Longrightarrow> loses (rl_peer r) b \<Longrightarrow>
    relay_step r (Arrive who (Events evs))
      (r\<lparr>rl_peer := b, rl_device := (rl_device r)(key \<mapsto> (config, log @ [map to_input_event evs]))\<rparr>)"

inductive_cases relay_stepE: "relay_step r a r'"

section \<open>The server as a relay\<close>

definition abs_relay :: "(string \<Rightarrow> trust_data option) \<Rightarrow> server_state \<Rightarrow> relay" where
  "abs_relay J st =
     \<lparr>rl_may = admitted J st,
      rl_device = (\<lambda>key. map_option (\<lambda>s. (vo_config (se_vdev s), vo_log (se_vdev s)))
        (fmlookup (sv_sessions st) key)),
      rl_peer = bound st\<rparr>"

fun act_of :: "server_state \<Rightarrow> server_env \<times> server_input \<Rightarrow> relay_act" where
  "act_of st (env, Cli j c) = Administer"
| "act_of st (env, Reap) = Expire"
| "act_of st (env, inp) =
     (case delivered st env inp of None \<Rightarrow> Rest | Some (who, m) \<Rightarrow> Arrive who m)"

text \<open>Only the administrator changes who may open a device.\<close>

lemma step_admitted:
  assumes "env_ok J (env, inp)" and "\<And>j c. inp \<noteq> Cli j c"
  shows "admitted J (server_step st (env, inp)) = admitted J st"
proof
  fix k
  have "trust_trace st (env, inp) = [] \<or> (\<exists>p t. trust_trace st (env, inp) = knock_trace st env p t)"
    using assms(2) by (cases inp) (auto simp: trust_trace_def split: option.splits message.splits prod.splits)
  then show "admitted J (server_step st (env, inp)) k = admitted J st k"
    using knock_trace_admits [of J env st] assms(1)
    by (auto simp: admitted_def step_trust env_ok_def simp del: server_step.simps)
qed

lemma step_loses:
  assumes "env_ok J (env, inp)"
    and "\<And>who p. delivered st env inp = Some (who, Handshake p) \<Longrightarrow> \<not> admitted J st (hp_client_id p)"
  shows "loses (bound st) (bound (server_step st (env, inp)))"
  unfolding loses_def
proof
  fix who
  show "bound (server_step st (env, inp)) who = bound st who \<or> bound (server_step st (env, inp)) who = None"
  proof (cases "bound (server_step st (env, inp)) who")
    case (Some key)
    then have "is_bound (server_step st (env, inp)) (who, key)" by (simp add: is_bound_def)
    from step_binds [OF assms(1) this] assms(2) Some show ?thesis by (auto simp: is_bound_def binds_def)
  qed simp
qed

lemma step_connects:
  assumes "env_ok J (env, inp)" and "delivered st env inp = Some (who, Handshake p)"
  shows "connects who (session_key p) (bound st) (bound (server_step st (env, inp)))"
proof -
  let ?b = "bound (server_step st (env, inp))"
  have "?b w = None \<or> ?b w = bound st w \<or> (w = who \<and> ?b w = Some (session_key p))" for w
  proof (cases "?b w")
    case (Some key)
    then have "is_bound (server_step st (env, inp)) (w, key)" by (simp add: is_bound_def)
    from step_binds [OF assms(1) this] assms(2) Some show ?thesis by (auto simp: is_bound_def binds_def)
  qed simp
  then show ?thesis by (rule connectsI)
qed

text \<open>The devices of the relay after a step of the server.\<close>

lemma abs_relay_simps [simp]:
  "rl_may (abs_relay J st) = admitted J st" "rl_peer (abs_relay J st) = bound st"
  "rl_device (abs_relay J st) key =
     map_option (\<lambda>s. (vo_config (se_vdev s), vo_log (se_vdev s))) (fmlookup (sv_sessions st) key)"
  by (simp_all add: abs_relay_def)

lemma relay_eqI:
  "rl_may r = rl_may r' \<Longrightarrow> rl_device r = rl_device r' \<Longrightarrow> rl_peer r = rl_peer r' \<Longrightarrow> (r :: relay) = r'"
  by simp

lemma devices_opened:
  assumes "sv_sessions st' = snd (open_session env p (sv_sessions st))"
  shows "rl_device (abs_relay J st') = rl_device (abs_relay J st) \<or>
    rl_device (abs_relay J st) (session_key p) = None \<and>
    (\<exists>name. rl_device (abs_relay J st') =
       (rl_device (abs_relay J st))(session_key p \<mapsto> (config_of (hp_metadata p) name, [])))"
proof (cases rule: open_session_cases [of "sv_sessions st" p env])
  case (created vo)
  then show ?thesis using assms by (auto simp: abs_relay_def new_with_name_Ok fun_eq_iff)
qed (use assms in \<open>auto simp: abs_relay_def fun_eq_iff\<close>)

lemma devices_fed:
  assumes "session_events env key evs (sv_sessions st) = Some (sv_sessions st')"
  shows "rl_device (abs_relay J st') = rl_device (abs_relay J st) \<or>
    (\<exists>config log. rl_device (abs_relay J st) key = Some (config, log) \<and>
       rl_device (abs_relay J st') =
         (rl_device (abs_relay J st))(key \<mapsto> (config, log @ [map to_input_event evs])))"
proof -
  obtain s where s: "fmlookup (sv_sessions st) key = Some s"
    using assms by (auto simp: session_events_def split: option.splits)
  have l: "fmlookup (sv_sessions st') k = (if k = key then Some (replay env evs s) else fmlookup (sv_sessions st) k)" for k
    using session_events_lookup [OF assms] s by simp
  show ?thesis
  proof (cases "evs = [] \<or> ui_emit (sn_uinput env) \<noteq> None")
    case True
    then have "rl_device (abs_relay J st') = rl_device (abs_relay J st)"
      using s by (auto simp: fun_eq_iff l emit_cases)
    then show ?thesis by blast
  next
    case False
    then have "rl_device (abs_relay J st') = (rl_device (abs_relay J st))
        (key \<mapsto> (vo_config (se_vdev s), vo_log (se_vdev s) @ [map to_input_event evs]))"
      by (auto simp: fun_eq_iff l emit_cases)
    with s show ?thesis by auto
  qed
qed

lemma devices_pinged:
  "session_ping env key (sv_sessions st) = Some (sv_sessions st') \<Longrightarrow>
   rl_device (abs_relay J st') = rl_device (abs_relay J st)"
  by (auto simp: fun_eq_iff session_ping_lookup option.map_comp o_def split: if_splits)

lemma bound_cong:
  assumes "sv_clients st' = sv_clients st" and "sv_conns st' = sv_conns st"
  shows "bound st' = bound st"
proof
  show "bound st' who = bound st who" for who using assms by (cases who) simp_all
qed

lemma devices_reaped:
  assumes "sv_sessions st' = reap now (sv_sessions st)"
  shows "\<exists>keys. rl_device (abs_relay J st') = rl_device (abs_relay J st) |` keys"
  by (rule exI [of _ "{key. fmlookup (sv_sessions st') key \<noteq> None}"])
    (auto simp: assms restrict_map_def fun_eq_iff fmlookup_reap split: option.splits)

text \<open>A message arrives, or something happens that carries none.\<close>

lemma arrival_refines:
  assumes "env_ok J (env, inp)" and "\<And>j c. inp \<noteq> Cli j c" and "inp \<noteq> Reap"
  shows "relay_step (abs_relay J st)
    (case delivered st env inp of None \<Rightarrow> Rest | Some (who, m) \<Rightarrow> Arrive who m)
    (abs_relay J (server_step st (env, inp)))"
proof -
  let ?st = "server_step st (env, inp)" and ?r = "abs_relay J st"
  have may: "admitted J ?st = admitted J st" by (intro step_admitted assms)
  have same: "abs_relay J ?st = ?r\<lparr>rl_peer := bound ?st\<rparr>" if "rl_device (abs_relay J ?st) = rl_device ?r"
    using that may by (intro relay_eqI) simp_all
  have same': "abs_relay J ?st = ?r\<lparr>rl_peer := bound ?st, rl_device := d\<rparr>" if "rl_device (abs_relay J ?st) = d" for d
    using that may by (intro relay_eqI) simp_all
  have quiet: ?thesis if "sv_sessions ?st = sv_sessions st"
  proof -
    from that have eq: "abs_relay J ?st = ?r\<lparr>rl_peer := bound ?st\<rparr>"
      by (intro same) (simp add: fun_eq_iff del: server_step.simps)
    show ?thesis
    proof (cases "\<exists>who p. delivered st env inp = Some (who, Handshake p) \<and> admitted J st (hp_client_id p)")
      case True
      then obtain who p where p: "delivered st env inp = Some (who, Handshake p)" "admitted J st (hp_client_id p)"
        by blast
      with admit [of ?r p who "bound ?st"] step_connects [OF assms(1) p(1)] show ?thesis
        unfolding eq by (simp del: server_step.simps)
    next
      case False
      then have "loses (rl_peer ?r) (bound ?st)" using step_loses [OF assms(1)] by (metis abs_relay_simps(2))
      from rest [OF this] ignore [OF this] show ?thesis
        unfolding eq by (simp split: option.split del: server_step.simps)
    qed
  qed
  consider "sv_sessions ?st = sv_sessions st"
    | (moved) who m where "delivered st env inp = Some (who, m)"
      "session_move env m (bound st who) (sv_sessions st) (sv_sessions ?st)"
      "\<forall>p. m = Handshake p \<longrightarrow> admitted J st (hp_client_id p)"
    using step_sessions [OF assms(1), of st] assms(3) by blast
  then show ?thesis
  proof cases
    case 1
    then show ?thesis by (rule quiet)
  next
    case (moved who m)
    from moved(2) show ?thesis
    proof (cases rule: session_move.cases)
      case idle
      then show ?thesis by (rule quiet)
    next
      case (opened p)
      have con: "connects who (session_key p) (rl_peer ?r) (bound ?st)" "rl_may ?r (hp_client_id p)"
        using step_connects [OF assms(1), of st who p] moved(1,3) opened(1) by simp_all
      from devices_opened [OF opened(2), of J] show ?thesis
      proof
        assume "rl_device (abs_relay J ?st) = rl_device ?r"
        with admit [OF con(2,1)] same moved(1) opened(1) show ?thesis by (simp del: server_step.simps)
      next
        assume "rl_device ?r (session_key p) = None \<and> (\<exists>name. rl_device (abs_relay J ?st) =
          (rl_device ?r)(session_key p \<mapsto> (config_of (hp_metadata p) name, [])))"
        with create [OF con(2,1)] same' moved(1) opened(1) show ?thesis by (auto simp del: server_step.simps)
      qed
    next
      case (events key evs)
      have l: "loses (rl_peer ?r) (bound ?st)" 
        unfolding abs_relay_simps by (rule step_loses [OF assms(1)]) (use moved(1) events(1) in simp)
      from devices_fed [OF events(3), of J] show ?thesis
      proof
        assume "rl_device (abs_relay J ?st) = rl_device ?r"
        with ignore [OF l] same moved(1) show ?thesis by (simp del: server_step.simps)
      next
        assume "\<exists>config log. rl_device ?r key = Some (config, log) \<and> rl_device (abs_relay J ?st) =
          (rl_device ?r)(key \<mapsto> (config, log @ [map to_input_event evs]))"
        with feed [OF _ _ l, of who key] same' moved(1) events(1,2) show ?thesis by (auto simp del: server_step.simps)
      qed
    next
      case (ping key)
      have "loses (rl_peer ?r) (bound ?st)" 
        unfolding abs_relay_simps by (rule step_loses [OF assms(1)]) (use moved(1) ping(1) in simp)
      with ignore [OF this] same devices_pinged [OF ping(3)] moved(1) show ?thesis by (simp del: server_step.simps)
    qed
  qed
qed

lemma relay_step_of:
  assumes "env_ok J e"
  shows "relay_step (abs_relay J st) (act_of st e) (abs_relay J (server_step st e))"
proof -
  obtain env inp where e: "e = (env, inp)" by (cases e)
  let ?st = "server_step st (env, inp)" and ?r = "abs_relay J st"
  have ok: "env_ok J (env, inp)" using assms by (simp add: e)
  consider (cli) j c where "inp = Cli j c" | (reap) "inp = Reap" | (other) "\<And>j c. inp \<noteq> Cli j c" "inp \<noteq> Reap"
    by blast
  then show ?thesis
  proof cases
    case cli
    then have "sv_sessions ?st = sv_sessions st" and "bound ?st = bound st"
      by (simp, intro bound_cong) simp_all
    then have eq: "abs_relay J ?st = ?r\<lparr>rl_may := admitted J ?st\<rparr>"
      by (intro relay_eqI) (simp_all add: fun_eq_iff del: server_step.simps)
    show ?thesis unfolding e eq by (simp only: cli act_of.simps administer)
  next
    case reap
    then have "sv_sessions ?st = reap (sn_now env) (sv_sessions st)" by simp
    then obtain keys where "rl_device (abs_relay J ?st) = rl_device ?r |` keys" using devices_reaped by blast
    moreover have "bound ?st = bound st" using reap by (intro bound_cong) simp_all
    moreover have "admitted J ?st = admitted J st" by (rule step_admitted [OF ok]) (use reap in simp)
    ultimately have eq: "abs_relay J ?st = ?r\<lparr>rl_device := rl_device ?r |` keys\<rparr>"
      by (intro relay_eqI) (simp_all del: server_step.simps)
    show ?thesis unfolding e eq by (simp only: reap act_of.simps expire)
  next
    case other
    then have "act_of st (env, inp) = (case delivered st env inp of None \<Rightarrow> Rest | Some (who, m) \<Rightarrow> Arrive who m)"
      by (cases inp) auto
    with arrival_refines [OF ok other] show ?thesis unfolding e by (simp del: server_step.simps)
  qed
qed

text \<open>A run of the server is a run of the relay.\<close>

inductive relay_run :: "relay \<Rightarrow> relay_act list \<Rightarrow> relay \<Rightarrow> bool" where
  relay_Nil: "relay_run r [] r"
| relay_Cons: "relay_step r a r' \<Longrightarrow> relay_run r' as r'' \<Longrightarrow> relay_run r (a # as) r''"

fun acts_of :: "server_state \<Rightarrow> (server_env \<times> server_input) list \<Rightarrow> relay_act list" where
  "acts_of st [] = []"
| "acts_of st (e # es) = act_of st e # acts_of (server_step st e) es"

lemma server_is_relay:
  assumes "\<forall>e \<in> set es. env_ok J e"
  shows "relay_run (abs_relay J st) (acts_of st es) (abs_relay J (server_run st es))"
  using assms unfolding server_run_def
proof (induction es arbitrary: st)
  case (Cons e es)
  then have "env_ok J e" by simp
  from relay_Cons [OF relay_step_of [OF this]] Cons show ?case by (simp del: server_step.simps act_of.simps)
qed (simp add: relay_Nil)

text \<open>
  C9. The server is a relay. Every run of the server, step by step, whichever transport, task or command
  line operation a step belongs to, is a run of the relay: only the administrator changes who may open
  a device; only the reaper removes devices; a device is created only for the handshake of a peer
  whose client may open it, from the metadata in that handshake; a device receives only the events
  of a peer connected to it; and a peer is connected only by its own handshake, if its client may
  open devices, and only to that handshake's session.
\<close>

theorem server_refines_relay:
  assumes "\<forall>e \<in> set es. env_ok J e"
  shows "relay_run (abs_relay J st) (acts_of st es) (abs_relay J (server_run st es))"
  by (rule server_is_relay [OF assms])

section \<open>Order\<close>

text \<open>The batches that arrive, in their order.\<close>

fun batches :: "relay_act list \<Rightarrow> input_event list list" where
  "batches [] = []"
| "batches (Arrive who (Events evs) # as) = map to_input_event evs # batches as"
| "batches (_ # as) = batches as"

text \<open>
  In the relay a device's log grows by a subsequence of the batches that arrive: nothing is made
  up, repeated or reordered; a device that was removed and made anew starts over.
\<close>

lemma relay_step_log:
  assumes "relay_step r a r'" and "rl_device r' key = Some (config, log)"
  shows "log = [] \<or> (\<exists>log0 xs. rl_device r key = Some (config, log0) \<and> log = log0 @ xs \<and> subseq xs (batches [a]))"
  using assms
proof (cases rule: relay_step.cases)
  case (feed who key' config' log' b evs)
  then show ?thesis
  proof (cases "key' = key")
    case True
    with feed assms(2) show ?thesis by auto
  qed (use feed assms(2) in simp)
qed (use assms(2) in \<open>auto simp: restrict_map_def split: if_splits\<close>)

lemma batches_Cons: "batches (a # as) = batches [a] @ batches as"
  by (cases "a # as" rule: batches.cases) auto

lemma relay_run_log:
  assumes "relay_run r as r'" and "rl_device r' key = Some (config, log)"
  shows "subseq log (batches as) \<or>
    (\<exists>log0 xs. rl_device r key = Some (config, log0) \<and> log = log0 @ xs \<and> subseq xs (batches as))"
  using assms
proof (induction arbitrary: rule: relay_run.induct)
  case (relay_Nil r)
  then show ?case by auto
next
  case (relay_Cons r a r1 as r2)
  from relay_Cons.IH [OF relay_Cons.prems] show ?case
  proof
    assume "subseq log (batches as)"
    then show ?thesis by (subst batches_Cons) (simp add: list_emb_append2)
  next
    assume "\<exists>log0 xs. rl_device r1 key = Some (config, log0) \<and> log = log0 @ xs \<and> subseq xs (batches as)"
    then obtain log0 xs where l: "rl_device r1 key = Some (config, log0)" "log = log0 @ xs" "subseq xs (batches as)"
      by blast
    from relay_step_log [OF relay_Cons.hyps(1) l(1)] show ?thesis
    proof
      assume "log0 = []"
      with l(2,3) show ?thesis by (subst batches_Cons) (simp add: list_emb_append2)
    next
      assume "\<exists>log1 ys. rl_device r key = Some (config, log1) \<and> log0 = log1 @ ys \<and> subseq ys (batches [a])"
      then obtain log1 ys where m: "rl_device r key = Some (config, log1)" "log0 = log1 @ ys"
        "subseq ys (batches [a])" by blast
      have "subseq (ys @ xs) (batches (a # as))"
        by (subst batches_Cons) (rule list_emb_append_mono [OF m(3) l(3)])
      with m(1,2) l(2) show ?thesis by auto
    qed
  qed
qed

text \<open>
  C10. Nothing is made up, repeated or reordered: after any run, what a session's device has received
  since the run began is a subsequence of the event batches that arrived at the server, in their
  order of arrival over both transports; a device that was created during the run received nothing
  else, and one that existed before has its old log in front.
\<close>

theorem device_log_in_order:
  assumes "\<forall>e \<in> set es. env_ok J e" and "fmlookup (sv_sessions (server_run st es)) key = Some s'"
  shows "subseq (vo_log (se_vdev s')) (batches (acts_of st es)) \<or>
    (\<exists>s xs. fmlookup (sv_sessions st) key = Some s \<and> vo_log (se_vdev s') = vo_log (se_vdev s) @ xs \<and>
       subseq xs (batches (acts_of st es)))"
proof -
  have "rl_device (abs_relay J (server_run st es)) key = Some (vo_config (se_vdev s'), vo_log (se_vdev s'))"
    using assms(2) by simp
  from relay_run_log [OF server_is_relay [OF assms(1)] this] show ?thesis by fastforce
qed

theorem server_refines_relay_witness:
  "relay_run (abs_relay (te_from_json demo_env) (demo_live demo_sys))
     [Arrive (UdpPeer demo_addr) (Events [demo_ev]), Administer, Expire]
     (abs_relay (te_from_json demo_env) (server_run (demo_live demo_sys)
        [(demo_senv 7, UdpDatagram demo_addr [2]), (demo_senv 8, Cli 0 (Revoke ''c1'')), (demo_senv 9, Reap)]))"
proof -
  let ?es = "[(demo_senv 7, UdpDatagram demo_addr [2]), (demo_senv 8, Cli 0 (Revoke ''c1'')), (demo_senv 9, Reap)]"
  have "\<forall>e \<in> set ?es. env_ok (te_from_json demo_env) e" by simp
  moreover have "acts_of (demo_live demo_sys) ?es = [Arrive (UdpPeer demo_addr) (Events [demo_ev]), Administer, Expire]"
    by (simp add: demo_live_def)
  ultimately show ?thesis using server_refines_relay [of ?es "te_from_json demo_env" "demo_live demo_sys"] by simp
qed

theorem device_log_in_order_witness:
  "subseq [map to_input_event [demo_ev]] (batches (acts_of (demo_live demo_sys) [(demo_senv 7, UdpDatagram demo_addr [2])]))"
proof -
  let ?es = "[(demo_senv 7, UdpDatagram demo_addr [2])]"
  have ok: "\<forall>e \<in> set ?es. env_ok (te_from_json demo_env) e" by simp
  have "fmlookup (sv_sessions (server_run (demo_live demo_sys) ?es)) ''c1:Pad'' = Some (replay (demo_senv 7) [demo_ev] demo_entry)"
    by (simp add: server_run_def demo_live_def udp_datagram_def udp_events_def session_events_def)
  from device_log_in_order [OF ok this] show ?thesis
    by (auto simp: demo_live_def demo_entry_def emit_cases demo_uinput_def)
qed

end
