(* ===== verification/Threads.thy ===== *)
theory Threads
  imports Prelude
begin

text \<open>
  Threads over a shared state: a component takes steps of its own on the state, a schedule
  names the thread that moves next and what it meets there (the time, an arrival). Two contracts
  with their consequences for every schedule: what a thread may rely on while the others move,
  and a bound on the steps it needs.
\<close>

definition turn :: "('e \<Rightarrow> 'th \<Rightarrow> 's \<Rightarrow> 's \<times> 'th) \<Rightarrow> 's \<times> 'th list \<Rightarrow> nat \<times> 'e \<Rightarrow> 's \<times> 'th list" where
  "turn step c ie =
     (case (c, ie) of ((s, ths), (i, e)) \<Rightarrow>
        if i < length ths then (case step e (ths ! i) s of (s', th') \<Rightarrow> (s', ths[i := th']))
        else (s, ths))"

definition interleave ::
  "('e \<Rightarrow> 'th \<Rightarrow> 's \<Rightarrow> 's \<times> 'th) \<Rightarrow> (nat \<times> 'e) list \<Rightarrow> 's \<times> 'th list \<Rightarrow> 's \<times> 'th list" where
  "interleave step sched c = foldl (turn step) c sched"

lemma interleave_simps [simp]:
  "interleave step [] c = c"
  "interleave step (ie # sched) c = interleave step sched (turn step c ie)"
  "interleave step (xs @ ys) c = interleave step ys (interleave step xs c)"
  by (simp_all add: interleave_def)

lemma turn_length: "turn step (s, ths) ie = (s', ths') \<Longrightarrow> length ths' = length ths"
  by (auto simp: turn_def split: if_splits prod.splits)

lemma interleave_length: "interleave step sched (s, ths) = (s', ths') \<Longrightarrow> length ths' = length ths"
proof (induction sched arbitrary: s ths)
  case (Cons ie sched)
  obtain s1 ths1 where t: "turn step (s, ths) ie = (s1, ths1)" by (cases "turn step (s, ths) ie")
  with Cons turn_length [OF t] show ?case by simp
qed simp

text \<open>One thread moving on its own.\<close>

fun alone :: "('e \<Rightarrow> 'th \<Rightarrow> 's \<Rightarrow> 's \<times> 'th) \<Rightarrow> 'e list \<Rightarrow> 'th \<times> 's \<Rightarrow> 'th \<times> 's" where
  "alone step [] c = c"
| "alone step (e # es) (th, s) = (case step e th s of (s', th') \<Rightarrow> alone step es (th', s'))"

lemma interleave_alone:
  "i < length ths \<Longrightarrow> alone step es (ths ! i, s) = (th', s') \<Longrightarrow>
   interleave step (map (Pair i) es) (s, ths) = (s', ths[i := th'])"
proof (induction es arbitrary: s ths)
  case (Cons e es)
  obtain s1 th1 where st: "step e (ths ! i) s = (s1, th1)" by (cases "step e (ths ! i) s")
  with Cons.IH [of "ths[i := th1]" s1] Cons.prems show ?case by (simp add: turn_def)
qed auto

section \<open>Relying on the others\<close>

text \<open>
  \<open>inv\<close> is an invariant of the shared state, \<open>loc\<close> what a thread knows of it, and \<open>rely\<close> how
  any step may change it; what a thread knows is not disturbed by such a change.
\<close>

locale shared_state =
  fixes step :: "'e \<Rightarrow> 'th \<Rightarrow> 's \<Rightarrow> 's \<times> 'th"
    and ok :: "'e \<Rightarrow> bool"
    and inv :: "'s \<Rightarrow> bool"
    and loc :: "'s \<Rightarrow> 'th \<Rightarrow> bool"
    and rely :: "'s \<Rightarrow> 's \<Rightarrow> bool"
  assumes own: "ok e \<Longrightarrow> inv s \<Longrightarrow> loc s th \<Longrightarrow> step e th s = (s', th') \<Longrightarrow>
      inv s' \<and> loc s' th' \<and> rely s s'"
    and stable: "loc s th \<Longrightarrow> rely s s' \<Longrightarrow> loc s' th"
    and rely_refl: "rely s s"
    and rely_trans: "rely s s' \<Longrightarrow> rely s' s'' \<Longrightarrow> rely s s''"
begin

definition all_ok :: "'s \<times> 'th list \<Rightarrow> bool" where
  "all_ok c \<longleftrightarrow> inv (fst c) \<and> (\<forall>th \<in> set (snd c). loc (fst c) th)"

lemma turn_ok:
  assumes "all_ok (s, ths)" and "ok (snd ie)" and "turn step (s, ths) ie = (s', ths')"
  shows "all_ok (s', ths') \<and> rely s s'"
proof (cases "fst ie < length ths")
  case True
  obtain i e where ie: "ie = (i, e)" by (cases ie)
  obtain s1 th1 where st: "step e (ths ! i) s = (s1, th1)" by (cases "step e (ths ! i) s")
  have o: "inv s1 \<and> loc s1 th1 \<and> rely s s1"
    using own [OF _ _ _ st] assms(1,2) True by (simp add: all_ok_def ie)
  then have "\<forall>th \<in> set (ths[i := th1]). loc s1 th"
    using assms(1) stable by (auto simp: all_ok_def dest!: set_update_subset_insert [THEN subsetD])
  with o True assms(3) st show ?thesis by (auto simp: turn_def all_ok_def ie)
qed (use assms rely_refl in \<open>auto simp: turn_def split: prod.splits\<close>)

theorem interleave_ok:
  "all_ok (s, ths) \<Longrightarrow> \<forall>ie \<in> set sched. ok (snd ie) \<Longrightarrow>
   interleave step sched (s, ths) = (s', ths') \<Longrightarrow> all_ok (s', ths') \<and> rely s s'"
proof (induction sched arbitrary: s ths)
  case Nil
  then show ?case by (simp add: rely_refl)
next
  case (Cons ie sched)
  obtain s1 ths1 where t: "turn step (s, ths) ie = (s1, ths1)" by (cases "turn step (s, ths) ie")
  with Cons.IH [of s1 ths1] Cons.prems turn_ok [OF Cons.prems(1) _ t] show ?case
    by (auto intro: rely_trans)
qed

end

section \<open>Bounded work\<close>

text \<open>\<open>work s th\<close> bounds the steps that a thread still needs; the others do not increase it.\<close>

definition turns_of :: "nat \<Rightarrow> (nat \<times> 'e) list \<Rightarrow> nat" where
  "turns_of i sched = length (filter (\<lambda>ie. fst ie = i) sched)"

locale wait_free = shared_state step ok inv loc rely
  for step :: "'e \<Rightarrow> 'th \<Rightarrow> 's \<Rightarrow> 's \<times> 'th" and ok inv loc rely +
  fixes work :: "'s \<Rightarrow> 'th \<Rightarrow> nat"
  assumes work_own: "ok e \<Longrightarrow> inv s \<Longrightarrow> loc s th \<Longrightarrow> step e th s = (s', th') \<Longrightarrow>
      work s' th' \<le> work s th - 1"
    and work_rely: "rely s s' \<Longrightarrow> work s' th \<le> work s th"
begin

lemma work_turn:
  assumes "all_ok (s, ths)" and "ok (snd ie)" and "i < length ths" and "turn step (s, ths) ie = (s', ths')"
  shows "work s' (ths' ! i) \<le> work s (ths ! i) - (if fst ie = i then 1 else 0)"
proof (cases "fst ie = i")
  case True
  obtain e where ie: "ie = (i, e)" using True by (cases ie) simp
  obtain s2 th2 where st: "step e (ths ! i) s = (s2, th2)" by (cases "step e (ths ! i) s")
  with assms work_own [OF _ _ _ st] show ?thesis by (auto simp: turn_def all_ok_def ie)
next
  case False
  with assms(4) have "ths' ! i = ths ! i" by (auto simp: turn_def split: if_splits prod.splits)
  with False turn_ok [OF assms(1,2,4)] work_rely show ?thesis by simp
qed

theorem work_done:
  "all_ok (s, ths) \<Longrightarrow> \<forall>ie \<in> set sched. ok (snd ie) \<Longrightarrow> i < length ths \<Longrightarrow>
   interleave step sched (s, ths) = (s', ths') \<Longrightarrow>
   work s' (ths' ! i) \<le> work s (ths ! i) - turns_of i sched"
proof (induction sched arbitrary: s ths)
  case (Cons ie sched)
  obtain s1 ths1 where t: "turn step (s, ths) ie = (s1, ths1)" by (cases "turn step (s, ths) ie")
  have "ok (snd ie)" using Cons.prems(2) by simp
  with t Cons.prems(1,3) have "work s1 (ths1 ! i) \<le> work s (ths ! i) - (if fst ie = i then 1 else 0)"
    and "all_ok (s1, ths1)" and "length ths1 = length ths"
    using work_turn [OF Cons.prems(1) _ _ t] turn_ok [OF Cons.prems(1) _ t] turn_length [OF t] by simp_all
  moreover from this have "work s' (ths' ! i) \<le> work s1 (ths1 ! i) - turns_of i sched"
    using Cons.IH [of s1 ths1] Cons.prems t by simp
  ultimately show ?case by (auto simp: turns_of_def split: if_splits)
qed (simp add: turns_of_def)

end

end
