(* ===== verification/ServerTasks.thy ===== *)
theory ServerTasks
  imports Threads ServerIroh
begin

text \<open>
  The running server of \<^verbatim>\<open>src/server.rs\<close> at the grain of its tasks. \<^const>\<open>server_step\<close> handles a
  message in one step; the tasks that \<^verbatim>\<open>run\<close> spawns (the UDP listener, the accept loop, one task
  per Iroh connection, the reaper) interleave at their \<^verbatim>\<open>await\<close>s and between their accesses to
  the two shared objects, the authorization store and the sessions behind their mutex. Here a
  task is a program counter, and one step of it is one access to the store, one turn at the
  sessions, or one message received or sent.

  The blocks of both handshake handlers that hold the sessions' guard run on to the end of their
  scope, which includes the \<^verbatim>\<open>await\<close> that sends the acknowledgement; the counters \<open>UdpAnswering\<close>
  and \<open>IrohAnswering\<close> are inside. A message in flight may be kept from making progress by its
  peer or by the socket (\<open>Stalled\<close>). A write that happens outside the guard concerns only the
  task's own connection and is one step with what precedes it.
\<close>

section \<open>Tasks\<close>

datatype wakeup =
    Go
  | Stalled
  | Datagram socket_addr bytes
  | Incoming nat bool bool
  | EndpointClosed
  | BiOpened "(byte_writer \<times> bytes) result"
  | Frame
  | Timer
  | Command nat trust_op

datatype task =
    UdpIdle
  | UdpAsking socket_addr handshake_payload
  | UdpEnrolling socket_addr handshake_payload
  | UdpEntering socket_addr handshake_payload
  | UdpAnswering socket_addr message
  | UdpFeeding string "event_wire list"
  | UdpTouching socket_addr string
  | UdpSending socket_addr message
  | UdpDead
  | Accepter
  | IrohIdle nat
  | IrohAsking nat handshake_payload
  | IrohEnrolling nat handshake_payload
  | IrohEntering nat handshake_payload
  | IrohAnswering nat handshake_payload session_outcome
  | IrohFeeding nat string "event_wire list"
  | IrohTouching nat string
  | ReaperIdle
  | ReaperEntering
  | Admin

text \<open>The shared state, with whether the sessions' mutex is taken.\<close>

type_synonym hub = "server_state \<times> bool"

definition put_conn :: "nat \<Rightarrow> iroh_conn \<Rightarrow> server_state \<Rightarrow> server_state" where
  "put_conn i conn st = st\<lparr>sv_conns := (sv_conns st)(i \<mapsto> conn)\<rparr>"

definition with_conn :: "nat \<Rightarrow> (iroh_conn \<Rightarrow> iroh_conn) \<Rightarrow> server_state \<Rightarrow> server_state" where
  "with_conn i f st = (case sv_conns st i of None \<Rightarrow> st | Some conn \<Rightarrow> put_conn i (f conn) st)"

section \<open>The UDP listener\<close>

definition udp_receive :: "server_env \<Rightarrow> socket_addr \<Rightarrow> bytes \<Rightarrow> server_state \<Rightarrow> server_state \<times> task" where
  "udp_receive env src payload st =
     (if \<not> sv_udp st then (st, UdpIdle)
      else case message_decode (sn_codec env) payload of
             Inl e \<Rightarrow> (st, UdpIdle)
           | Inr (Handshake p) \<Rightarrow> (st\<lparr>sv_clients := fmdrop src (sv_clients st)\<rparr>, UdpAsking src p)
           | Inr (Events events) \<Rightarrow>
               (st, case fmlookup (sv_clients st) src of None \<Rightarrow> UdpIdle | Some key \<Rightarrow> UdpFeeding key events)
           | Inr Ping \<Rightarrow>
               (st, case fmlookup (sv_clients st) src of None \<Rightarrow> UdpSending src Pong | Some key \<Rightarrow> UdpTouching src key)
           | Inr _ \<Rightarrow> (st, UdpIdle))"

text \<open>The block under the guard, up to the acknowledgement; a panic drops the guard.\<close>

definition udp_enter :: "server_env \<Rightarrow> socket_addr \<Rightarrow> handshake_payload \<Rightarrow> server_state \<Rightarrow> hub \<times> task" where
  "udp_enter env src p st =
     (let (r, ss) = open_session env p (sv_sessions st);
          st1 = st\<lparr>sv_sessions := ss\<rparr>
      in case r of
           CreateFailed (Panic m) \<Rightarrow> ((st1\<lparr>sv_udp := False\<rparr>, False), UdpDead)
         | CreateFailed (Fail es) \<Rightarrow>
             ((st1, True), UdpAnswering src (ack env Rejected (failed_text (Fail es))))
         | _ \<Rightarrow>
             ((st1\<lparr>sv_clients := fmupd src (session_key p) (sv_clients st1)\<rparr>, True),
              UdpAnswering src (ack env Approved ''Connection authorized'')))"

section \<open>An Iroh connection\<close>

definition iroh_receive :: "server_env \<Rightarrow> nat \<Rightarrow> server_state \<Rightarrow> server_state \<times> task" where
  "iroh_receive env i st =
     (case sv_conns st i of
        None \<Rightarrow> (st, IrohIdle i)
      | Some conn \<Rightarrow>
          (case ic_phase conn of
             Awaiting \<Rightarrow>
               (case read_frame (sn_codec env) (ic_recv conn) of
                  Inl e \<Rightarrow> (put_conn i (conn\<lparr>ic_phase := Closed (Err e)\<rparr>) st, IrohIdle i)
                | Inr (m, rest) \<Rightarrow>
                    (case m of
                       Handshake p \<Rightarrow> (put_conn i (conn\<lparr>ic_recv := rest\<rparr>) st, IrohAsking i p)
                     | Ping \<Rightarrow> (put_conn i (iroh_write env Pong Awaiting (conn\<lparr>ic_recv := rest\<rparr>)) st, IrohIdle i)
                     | other \<Rightarrow>
                         (put_conn i (conn\<lparr>ic_recv := rest, ic_phase := Closed (bail
                            (''Expected Handshake message, got: '' @ sn_debug env other))\<rparr>) st, IrohIdle i)))
           | Established key \<Rightarrow>
               (case read_frame (sn_codec env) (ic_recv conn) of
                  Inl e \<Rightarrow> (put_conn i (conn\<lparr>ic_phase := Closed (Ok ())\<rparr>) st, IrohIdle i)
                | Inr (m, rest) \<Rightarrow>
                    (put_conn i (conn\<lparr>ic_recv := rest\<rparr>) st,
                     case m of
                       Events events \<Rightarrow> IrohFeeding i key events
                     | Ping \<Rightarrow> IrohTouching i key
                     | _ \<Rightarrow> IrohIdle i))
           | _ \<Rightarrow> (st, IrohIdle i)))"

definition iroh_refuse :: "server_env \<Rightarrow> handshake_payload \<Rightarrow> iroh_conn \<Rightarrow> iroh_conn" where
  "iroh_refuse env p conn =
     (let conn1 = iroh_write env (ack env PendingApproval (pending_text (hp_client_id p)))
                    (Closed (Ok ())) conn
      in if ic_phase conn1 = Closed (Ok ()) then iroh_finish conn1 else conn1)"

definition iroh_enter :: "server_env \<Rightarrow> nat \<Rightarrow> handshake_payload \<Rightarrow> server_state \<Rightarrow> hub \<times> task" where
  "iroh_enter env i p st =
     (let (r, ss) = open_session env p (sv_sessions st);
          st1 = st\<lparr>sv_sessions := ss\<rparr>
      in case r of
           CreateFailed (Panic m) \<Rightarrow>
             ((with_conn i (\<lambda>conn. conn\<lparr>ic_phase := Closed (Err (Panic m))\<rparr>) st1, False), IrohIdle i)
         | _ \<Rightarrow> ((st1, True), IrohAnswering i p r))"

definition iroh_answer :: "server_env \<Rightarrow> handshake_payload \<Rightarrow> session_outcome \<Rightarrow> iroh_conn \<Rightarrow> iroh_conn" where
  "iroh_answer env p r conn =
     (case r of
        Reused \<Rightarrow>
          iroh_write env (ack env Approved ''Connection authorized (reused existing virtual device)'')
            (Established (session_key p)) conn
      | Created \<Rightarrow>
          iroh_write env (ack env Approved ''Connection authorized'') (Established (session_key p)) conn
      | CreateFailed e \<Rightarrow>
          iroh_finish ((iroh_write env (ack env Rejected (failed_text e)) (Closed (Ok ())) conn)
            \<lparr>ic_phase := Closed (Err e)\<rparr>))"

definition iroh_feed :: "server_env \<Rightarrow> nat \<Rightarrow> string \<Rightarrow> event_wire list \<Rightarrow> server_state \<Rightarrow> server_state" where
  "iroh_feed env i key events st =
     (case session_events env key events (sv_sessions st) of
        None \<Rightarrow> with_conn i (\<lambda>conn. conn\<lparr>ic_phase := Closed (Ok ())\<rparr>) st
      | Some ss \<Rightarrow> st\<lparr>sv_sessions := ss\<rparr>)"

definition iroh_touch :: "server_env \<Rightarrow> nat \<Rightarrow> string \<Rightarrow> server_state \<Rightarrow> server_state" where
  "iroh_touch env i key st =
     (case session_ping env key (sv_sessions st) of
        None \<Rightarrow> with_conn i (\<lambda>conn. conn\<lparr>ic_phase := Closed (Ok ())\<rparr>) st
      | Some ss \<Rightarrow> with_conn i (iroh_write env Pong (Established key)) (st\<lparr>sv_sessions := ss\<rparr>))"

section \<open>One step of a task\<close>

text \<open>\<^verbatim>\<open>active_sessions.lock().await\<close>: the task stays where it is while the mutex is taken.\<close>

definition guarded :: "task \<Rightarrow> (server_state \<Rightarrow> hub \<times> task) \<Rightarrow> hub \<Rightarrow> hub \<times> task" where
  "guarded t f h = (case h of (st, locked) \<Rightarrow> if locked then (h, t) else f st)"

fun task_step :: "server_env \<times> wakeup \<Rightarrow> task \<Rightarrow> hub \<Rightarrow> hub \<times> task" where
  "task_step (env, w) UdpIdle (st, l) =
     (case w of
        Datagram src payload \<Rightarrow> (case udp_receive env src payload st of (st', t) \<Rightarrow> ((st', l), t))
      | _ \<Rightarrow> ((st, l), UdpIdle))"
| "task_step (env, w) (UdpAsking src p) (st, l) =
     (case daemon_query env (hp_client_id p) st of
        (granted, st') \<Rightarrow> ((st', l), if granted then UdpEntering src p else UdpEnrolling src p))"
| "task_step (env, w) (UdpEnrolling src p) (st, l) =
     ((daemon_register env p ''Direct UDP'' st, l),
      UdpSending src (ack env PendingApproval (pending_text (hp_client_id p))))"
| "task_step (env, w) (UdpEntering src p) h = guarded (UdpEntering src p) (udp_enter env src p) h"
| "task_step (env, w) (UdpAnswering src m) (st, l) =
     (if w = Stalled then ((st, l), UdpAnswering src m) else ((udp_send env m src st, False), UdpIdle))"
| "task_step (env, w) (UdpFeeding key events) h =
     guarded (UdpFeeding key events)
       (\<lambda>st. ((case session_events env key events (sv_sessions st) of
                 None \<Rightarrow> st | Some ss \<Rightarrow> st\<lparr>sv_sessions := ss\<rparr>, False), UdpIdle)) h"
| "task_step (env, w) (UdpTouching src key) h =
     guarded (UdpTouching src key)
       (\<lambda>st. ((case session_ping env key (sv_sessions st) of
                 None \<Rightarrow> st | Some ss \<Rightarrow> st\<lparr>sv_sessions := ss\<rparr>, False), UdpSending src Pong)) h"
| "task_step (env, w) (UdpSending src m) (st, l) =
     (if w = Stalled then ((st, l), UdpSending src m) else ((udp_send env m src st, l), UdpIdle))"
| "task_step (env, w) UdpDead h = (h, UdpDead)"
| "task_step (env, w) Accepter (st, l) =
     ((case w of
         Incoming i a h \<Rightarrow>
           (if sv_iroh st \<and> sv_conns st i = None
            then st\<lparr>sv_conns := (sv_conns st)(i := iroh_incoming a h)\<rparr> else st)
       | EndpointClosed \<Rightarrow> st\<lparr>sv_iroh := False\<rparr>
       | _ \<Rightarrow> st, l), Accepter)"
| "task_step (env, w) (IrohIdle i) (st, l) =
     (case w of
        BiOpened r \<Rightarrow>
          ((with_conn i (\<lambda>conn. if ic_phase conn = Accepting then iroh_accept_bi r conn else conn) st, l),
           IrohIdle i)
      | Frame \<Rightarrow> (case iroh_receive env i st of (st', t) \<Rightarrow> ((st', l), t))
      | _ \<Rightarrow> ((st, l), IrohIdle i))"
| "task_step (env, w) (IrohAsking i p) (st, l) =
     (case daemon_query env (hp_client_id p) st of
        (granted, st') \<Rightarrow> ((st', l), if granted then IrohEntering i p else IrohEnrolling i p))"
| "task_step (env, w) (IrohEnrolling i p) (st, l) =
     ((with_conn i (iroh_refuse env p) (daemon_register env p ''Iroh P2P'' st), l), IrohIdle i)"
| "task_step (env, w) (IrohEntering i p) h = guarded (IrohEntering i p) (iroh_enter env i p) h"
| "task_step (env, w) (IrohAnswering i p r) (st, l) =
     (if w = Stalled then ((st, l), IrohAnswering i p r)
      else ((with_conn i (iroh_answer env p r) st, False), IrohIdle i))"
| "task_step (env, w) (IrohFeeding i key events) h =
     guarded (IrohFeeding i key events) (\<lambda>st. ((iroh_feed env i key events st, False), IrohIdle i)) h"
| "task_step (env, w) (IrohTouching i key) h =
     guarded (IrohTouching i key) (\<lambda>st. ((iroh_touch env i key st, False), IrohIdle i)) h"
| "task_step (env, w) ReaperIdle h = (h, if w = Timer then ReaperEntering else ReaperIdle)"
| "task_step (env, w) ReaperEntering h =
     guarded ReaperEntering (\<lambda>st. ((st\<lparr>sv_sessions := reap (sn_now env) (sv_sessions st)\<rparr>, False), ReaperIdle)) h"
| "task_step (env, w) Admin (st, l) =
     ((case w of
         Command j c \<Rightarrow> st\<lparr>sv_trust := trust_sys_step (sv_trust st) (Suc j, sn_trust env, c)\<rparr>
       | _ \<Rightarrow> st, l), Admin)"

abbreviation run_tasks ::
  "(nat \<times> server_env \<times> wakeup) list \<Rightarrow> hub \<times> task list \<Rightarrow> hub \<times> task list" where
  "run_tasks \<equiv> interleave task_step"

section \<open>A task on its own is the handler\<close>

text \<open>The task that serves an input and the wake-ups of a run in which nothing comes between.\<close>

fun serves :: "server_input \<Rightarrow> task \<times> wakeup list" where
  "serves (UdpDatagram src payload) = (UdpIdle, [Datagram src payload, Go, Go, Go])"
| "serves UdpRecvError = (UdpIdle, [Go])"
| "serves (IrohIncoming i a h) = (Accepter, [Incoming i a h])"
| "serves IrohEndpointClosed = (Accepter, [EndpointClosed])"
| "serves (IrohBi i r) = (IrohIdle i, [BiOpened r])"
| "serves (IrohRead i) = (IrohIdle i, [Frame, Go, Go, Go])"
| "serves Reap = (ReaperIdle, [Timer, Go])"
| "serves (Cli j c) = (Admin, [Command j c])"

definition lone :: "server_env \<Rightarrow> wakeup list \<Rightarrow> task \<Rightarrow> server_state \<Rightarrow> task \<times> hub" where
  "lone env ws t st = alone task_step (map (Pair env) ws) (t, (st, False))"

lemma lone_simps [simp]:
  "lone env [] t st = (t, (st, False))"
  "task_step (env, w) t (st, False) = ((st', False), t') \<Longrightarrow> lone env (w # ws) t st = lone env ws t' st'"
  by (simp_all add: lone_def)

lemma lone_udp_handshake:
  "\<exists>t. lone env [Go, Go, Go] (UdpAsking src p) (st\<lparr>sv_clients := fmdrop src (sv_clients st)\<rparr>) =
     (t, (udp_handshake env src p st, False)) \<and> t \<in> {UdpIdle, UdpDead}"
proof -
  let ?st = "st\<lparr>sv_clients := fmdrop src (sv_clients st)\<rparr>"
  obtain granted st1 where q: "daemon_query env (hp_client_id p) ?st = (granted, st1)"
    by (cases "daemon_query env (hp_client_id p) ?st")
  obtain r ss where o: "open_session env p (sv_sessions st1) = (r, ss)"
    by (cases "open_session env p (sv_sessions st1)")
  show ?thesis
  proof (cases granted)
    case True
    then show ?thesis
    proof (cases r)
      case (CreateFailed e)
      with True show ?thesis
        by (cases e) (auto simp: lone_def q o udp_handshake_def guarded_def udp_enter_def Let_def)
    qed (auto simp: lone_def q o udp_handshake_def guarded_def udp_enter_def Let_def)
  qed (auto simp: lone_def q udp_handshake_def)
qed

lemma lone_iroh_handshake:
  assumes "sv_conns st i = Some conn"
  shows "lone env [Go, Go, Go] (IrohAsking i p) st =
    (IrohIdle i, (let (conn1, st1) = iroh_handshake env p (conn, st) in put_conn i conn1 st1, False))"
proof -
  obtain granted st1 where q: "daemon_query env (hp_client_id p) st = (granted, st1)"
    by (cases "daemon_query env (hp_client_id p) st")
  then have c: "sv_conns st1 i = Some conn" using assms daemon_query_frame(5) [of env "hp_client_id p" st] by simp
  obtain r ss where o: "open_session env p (sv_sessions st1) = (r, ss)"
    by (cases "open_session env p (sv_sessions st1)")
  have d: "sv_conns (daemon_register env p t st1) i = Some conn" for t
    using c by (simp add: daemon_register_eq)
  show ?thesis
    by (cases granted; cases r) (auto simp: lone_def q o c d iroh_handshake_def guarded_def iroh_enter_def
        with_conn_def iroh_answer_def iroh_refuse_def Let_def split: failure.split)
qed

lemma put_conn_simps [simp]:
  "put_conn i c2 (put_conn i c1 st) = put_conn i c2 st" "sv_conns (put_conn i c st) i = Some c"
  "sv_sessions (put_conn i c st) = sv_sessions st"
  "put_conn i c (st\<lparr>sv_sessions := ss\<rparr>) = (put_conn i c st)\<lparr>sv_sessions := ss\<rparr>"
  by (simp_all add: put_conn_def)

lemma iroh_handshake_conns:
  "iroh_handshake env p (conn, st\<lparr>sv_conns := C\<rparr>) =
   (fst (iroh_handshake env p (conn, st)), snd (iroh_handshake env p (conn, st)) \<lparr>sv_conns := C\<rparr>)"
  by (auto simp: iroh_handshake_def daemon_query_eq daemon_register_eq Let_def
      split: prod.splits session_outcome.splits failure.splits)

lemma iroh_handshake_keeps_conns: "sv_conns (snd (iroh_handshake env p (conn, st))) = sv_conns st"
  by (auto simp: iroh_handshake_def daemon_query_eq daemon_register_eq Let_def
      split: prod.splits session_outcome.splits failure.splits)

lemma lone_udp:
  "\<exists>t. lone env [Datagram src payload, Go, Go, Go] UdpIdle st = (t, (udp_datagram env src payload st, False)) \<and>
     t \<in> {UdpIdle, UdpDead}"
proof (cases "sv_udp st")
  case up: True
  show ?thesis
  proof (cases "message_decode (sn_codec env) payload")
    case (Inr m)
    show ?thesis
    proof (cases m)
      case (Handshake p)
      have "lone env [Datagram src payload, Go, Go, Go] UdpIdle st =
          lone env [Go, Go, Go] (UdpAsking src p) (st\<lparr>sv_clients := fmdrop src (sv_clients st)\<rparr>)"
        using up Inr Handshake by (simp add: udp_receive_def)
      with lone_udp_handshake [of env src p st] show ?thesis
        using up Inr Handshake by (simp add: udp_datagram_def)
    next
      case (Events evs)
      then show ?thesis
        using up Inr by (cases "fmlookup (sv_clients st) src")
          (auto simp: lone_def udp_receive_def udp_datagram_def udp_events_def guarded_def)
    next
      case Ping
      then show ?thesis
        using up Inr by (cases "fmlookup (sv_clients st) src")
          (auto simp: lone_def udp_receive_def udp_datagram_def udp_ping_def guarded_def split: option.split)
    qed (use up Inr in \<open>auto simp: lone_def udp_receive_def udp_datagram_def\<close>)
  qed (use up in \<open>auto simp: lone_def udp_receive_def udp_datagram_def\<close>)
qed (auto simp: lone_def udp_receive_def udp_datagram_def)

lemma lone_iroh:
  "lone env [Frame, Go, Go, Go] (IrohIdle i) st = (IrohIdle i, (server_step st (env, IrohRead i), False))"
proof (cases "sv_conns st i")
  case None
  then show ?thesis by (simp add: lone_def iroh_receive_def)
next
  case (Some conn)
  show ?thesis
  proof (cases "ic_phase conn")
    case Awaiting
    show ?thesis
    proof (cases "read_frame (sn_codec env) (ic_recv conn)")
      case (Inl e)
      then show ?thesis using Some Awaiting
        by (simp add: lone_def iroh_receive_def iroh_read_def put_conn_def)
    next
      case (Inr mr)
      obtain m rest where mr: "mr = (m, rest)" by (cases mr)
      show ?thesis
      proof (cases m)
        case (Handshake p)
        have "lone env [Frame, Go, Go, Go] (IrohIdle i) st =
            lone env [Go, Go, Go] (IrohAsking i p) (put_conn i (conn\<lparr>ic_recv := rest\<rparr>) st)"
          using Some Awaiting Inr mr Handshake by (simp add: iroh_receive_def)
        with lone_iroh_handshake [of "put_conn i (conn\<lparr>ic_recv := rest\<rparr>) st" i "conn\<lparr>ic_recv := rest\<rparr>" env p]
        show ?thesis using Some Awaiting Inr mr Handshake
          by (simp add: iroh_read_def iroh_await_def put_conn_def iroh_handshake_conns
              iroh_handshake_keeps_conns case_prod_unfold Let_def)
      qed (use Some Awaiting Inr mr in \<open>simp_all add: lone_def iroh_receive_def iroh_read_def iroh_await_def put_conn_def\<close>)
    qed
  next
    case (Established key)
    then show ?thesis
      using Some
      by (auto simp: lone_def iroh_receive_def iroh_read_def iroh_established_def guarded_def iroh_feed_def
          iroh_touch_def with_conn_def put_conn_def session_events_def session_ping_def split: sum.split message.split option.split)
  qed (use Some in \<open>simp_all add: lone_def iroh_receive_def iroh_read_def fun_upd_idem\<close>)
qed

text \<open>
  C4. Each input of the server, taken by its task without another task coming between, has exactly
  the effect of the handler, which the other theorems are about, and leaves the sessions'
  mutex free: the atomic steps are the schedules without preemption.
\<close>

theorem lone_task_is_handler:
  "\<exists>t. lone env (snd (serves inp)) (fst (serves inp)) st = (t, (server_step st (env, inp), False)) \<and>
     t \<in> {fst (serves inp), UdpDead}"
proof (cases inp)
  case (UdpDatagram src payload)
  then show ?thesis using lone_udp [of env src payload st] by simp
next
  case (IrohRead i)
  then show ?thesis using lone_iroh [of env i st] by simp
next
  case (IrohBi i r)
  then show ?thesis by (auto simp: lone_def with_conn_def put_conn_def fun_upd_idem split: option.split)
qed (simp_all add: lone_def guarded_def)

section \<open>The sessions' mutex\<close>

fun inside :: "task \<Rightarrow> bool" where
  "inside (UdpAnswering src m) = True"
| "inside (IrohAnswering i p r) = True"
| "inside _ = False"

definition insiders :: "task list \<Rightarrow> nat" where
  "insiders ts = length (filter inside ts)"

text \<open>One step: who is inside, and whether the mutex is taken.\<close>

lemma udp_enter_lock: "udp_enter env src p st = ((st', l'), t') \<Longrightarrow> l' = inside t'"
  by (auto simp: udp_enter_def Let_def split: prod.splits session_outcome.splits failure.splits)

lemma iroh_enter_lock: "iroh_enter env i p st = ((st', l'), t') \<Longrightarrow> l' = inside t'"
  by (auto simp: iroh_enter_def Let_def split: prod.splits session_outcome.splits failure.splits)

lemma receive_outside:
  "udp_receive env src payload st = (st', t') \<Longrightarrow> \<not> inside t'"
  "iroh_receive env i st = (st', t') \<Longrightarrow> \<not> inside t'"
  by (auto simp: udp_receive_def iroh_receive_def split: if_splits sum.splits message.splits option.splits
      conn_phase.splits)

lemma task_step_lock:
  assumes "task_step (env, w) t (st, l) = ((st', l'), t')" and "inside t \<Longrightarrow> l"
  shows "if inside t then l' = inside t' else l' = l \<and> \<not> inside t' \<or> \<not> l \<and> l' = inside t'"
  using assms
  by (cases t) (auto simp: guarded_def dest: udp_enter_lock iroh_enter_lock receive_outside
      split: if_splits wakeup.splits prod.splits)

lemma insiders_update:
  "i < length ts \<Longrightarrow> insiders (ts[i := t]) + (if inside (ts ! i) then 1 else 0) =
     insiders ts + (if inside t then 1 else 0)"
proof (induction ts arbitrary: i)
  case (Cons x ts)
  then show ?case
  proof (cases i)
    case (Suc j)
    with Cons.IH [of j] Cons.prems show ?thesis by (auto simp: insiders_def split: if_splits)
  qed (simp add: insiders_def)
qed simp

lemma insiders_pos: "i < length ts \<Longrightarrow> inside (ts ! i) \<Longrightarrow> 0 < insiders ts"
  by (auto simp: insiders_def filter_empty_conv)

definition lock_ok :: "hub \<times> task list \<Rightarrow> bool" where
  "lock_ok c \<longleftrightarrow> insiders (snd c) = (if snd (fst c) then 1 else 0)"

lemma lock_ok_turn:
  assumes "lock_ok c"
  shows "lock_ok (turn task_step c ie)"
proof -
  obtain st l ts i env w where c: "c = ((st, l), ts)" "ie = (i, env, w)" by (cases c; cases ie) auto
  show ?thesis
  proof (cases "i < length ts")
    case True
    obtain st' l' t' where s: "task_step (env, w) (ts ! i) (st, l) = ((st', l'), t')"
      by (metis surj_pair)
    have "inside (ts ! i) \<Longrightarrow> l"
      using insiders_pos [OF True] assms by (auto simp: lock_ok_def c split: if_splits)
    from task_step_lock [OF s this] insiders_update [OF True, of t'] insiders_pos [OF True] assms
    show ?thesis by (auto simp: lock_ok_def turn_def c s True split: if_splits)
  qed (use assms in \<open>simp add: turn_def c\<close>)
qed

interpretation tasks_lock: invariant_step "turn task_step" "\<lambda>_. True" lock_ok
  by unfold_locales (rule lock_ok_turn)

lemma run_lock_ok: "lock_ok c \<Longrightarrow> lock_ok (run_tasks sched c)"
  unfolding interleave_def by (rule tasks_lock.run_inv) simp_all

text \<open>While the mutex is taken, no step changes the sessions.\<close>

lemma receive_sessions:
  "udp_receive env src payload st = (st', t') \<Longrightarrow> sv_sessions st' = sv_sessions st"
  "iroh_receive env i st = (st', t') \<Longrightarrow> sv_sessions st' = sv_sessions st"
  by (auto simp: udp_receive_def iroh_receive_def split: if_splits sum.splits message.splits option.splits
      conn_phase.splits)

lemma with_conn_frame [simp]:
  "sv_sessions (with_conn i f st) = sv_sessions st" "sv_trust (with_conn i f st) = sv_trust st"
  by (simp_all add: with_conn_def put_conn_def split: option.split)

lemma daemon_query_sessions: "daemon_query env cid st = (b, st') \<Longrightarrow> sv_sessions st' = sv_sessions st"
  by (metis daemon_query_frame(1) snd_conv)

lemma locked_step_sessions:
  "task_step (env, w) t (st, True) = ((st', l'), t') \<Longrightarrow> sv_sessions st' = sv_sessions st"
  by (cases t) (auto simp: guarded_def daemon_register_def dest: receive_sessions daemon_query_sessions
      split: if_splits wakeup.splits prod.splits)

lemma stalled_turn:
  assumes "lock_ok ((st, l), ts)" and "i < length ts" and "inside (ts ! i)"
    and "fst ie = i \<Longrightarrow> snd (snd ie) = Stalled" and "turn task_step ((st, l), ts) ie = ((st', l'), ts')"
  shows "sv_sessions st' = sv_sessions st \<and> ts' ! i = ts ! i \<and> length ts' = length ts"
proof -
  obtain j env w where ie: "ie = (j, env, w)" by (cases ie) auto
  have l: "l" using assms(1) insiders_pos [OF assms(2,3)] by (auto simp: lock_ok_def split: if_splits)
  show ?thesis
  proof (cases "j < length ts")
    case True
    obtain st1 l1 t1 where s: "task_step (env, w) (ts ! j) (st, l) = ((st1, l1), t1)"
      by (metis surj_pair)
    with assms(5) True have r: "st' = st1" "ts' = ts[j := t1]" by (simp_all add: turn_def ie)
    have "sv_sessions st1 = sv_sessions st" using locked_step_sessions s l by simp
    moreover have "t1 = ts ! j" if "j = i"
      using s assms(3,4) that by (cases "ts ! i") (auto simp: ie)
    ultimately show ?thesis using r assms(2) by (cases "j = i") auto
  qed (use assms(5) in \<open>simp add: turn_def ie\<close>)
qed

lemma stalled_run:
  "lock_ok ((st, l), ts) \<Longrightarrow> i < length ts \<Longrightarrow> inside (ts ! i) \<Longrightarrow>
   \<forall>ie \<in> set sched. fst ie = i \<longrightarrow> snd (snd ie) = Stalled \<Longrightarrow>
   run_tasks sched ((st, l), ts) = ((st', l'), ts') \<Longrightarrow>
   sv_sessions st' = sv_sessions st \<and> ts' ! i = ts ! i"
proof (induction sched arbitrary: st l ts)
  case (Cons ie sched)
  obtain st1 l1 ts1 where t: "turn task_step ((st, l), ts) ie = ((st1, l1), ts1)"
    by (metis surj_pair)
  with Cons.prems stalled_turn [OF Cons.prems(1,2,3) _ t] lock_ok_turn [OF Cons.prems(1), of ie]
    Cons.IH [of st1 l1 ts1] show ?case by simp
qed simp

definition starts_idle :: "task list \<Rightarrow> bool" where
  "starts_idle ts \<longleftrightarrow> (\<forall>t \<in> set ts. t \<in> {UdpIdle, Accepter, ReaperIdle, Admin} \<union> range IrohIdle)"

lemma starts_idle_lock: "starts_idle ts \<Longrightarrow> lock_ok ((st, False), ts)"
  by (auto simp: lock_ok_def insiders_def starts_idle_def filter_empty_conv)

text \<open>
  C5. The guard of the sessions is held while an Iroh client's acknowledgement is written, so a
  client that does not take its acknowledgement stops the service for everyone. Once a task is
  writing an acknowledgement inside, then as long as its peer lets it make no progress and whatever the
  other tasks do, the sessions stay as they are: no other client's input reaches its device, nobody
  connects, no session is reaped.
\<close>

theorem stalled_peer_freezes_sessions:
  assumes "starts_idle ts0" and "run_tasks sched0 ((st0, False), ts0) = ((st, l), ts)"
    and "i < length ts" and "ts ! i = IrohAnswering c p r"
    and "\<forall>ie \<in> set sched. fst ie = i \<longrightarrow> snd (snd ie) = Stalled"
    and "run_tasks sched ((st, l), ts) = ((st', l'), ts')"
  shows "sv_sessions st' = sv_sessions st \<and> ts' ! i = IrohAnswering c p r"
proof -
  have "lock_ok ((st, l), ts)"
    using run_lock_ok [OF starts_idle_lock [OF assms(1)], of sched0 st0] assms(2) by simp
  from stalled_run [OF this assms(3) _ assms(5,6)] assms(4) show ?thesis by simp
qed

section \<open>Coming to rest\<close>

fun resting :: "task \<Rightarrow> bool" where
  "resting UdpIdle = True"
| "resting UdpDead = True"
| "resting Accepter = True"
| "resting (IrohIdle i) = True"
| "resting ReaperIdle = True"
| "resting Admin = True"
| "resting _ = False"

fun task_work :: "task \<Rightarrow> nat" where
  "task_work (UdpAsking src p) = 3"
| "task_work (UdpEnrolling src p) = 2"
| "task_work (UdpEntering src p) = 2"
| "task_work (UdpTouching src key) = 2"
| "task_work (IrohAsking i p) = 3"
| "task_work (IrohEntering i p) = 2"
| "task_work t = (if resting t then 0 else 1)"

lemma udp_enter_work: "udp_enter env src p st = ((st', l'), t') \<Longrightarrow> task_work t' \<le> 1 \<and> l' = inside t'"
  by (auto simp: udp_enter_def Let_def split: prod.splits session_outcome.splits failure.splits)

lemma iroh_enter_work: "iroh_enter env i p st = ((st', l'), t') \<Longrightarrow> task_work t' \<le> 1 \<and> l' = inside t'"
  by (auto simp: iroh_enter_def Let_def split: prod.splits session_outcome.splits failure.splits)

lemma resting_work: "resting t \<longleftrightarrow> task_work t = 0"
  by (cases t) auto

lemma task_step_work:
  "task_step (env, Go) t (st, inside t) = ((st', l'), t') \<Longrightarrow> \<not> resting t \<Longrightarrow>
   task_work t' < task_work t \<and> l' = inside t'"
  by (cases t) (auto simp: guarded_def dest!: udp_enter_work iroh_enter_work split: prod.splits if_splits)

lemma task_comes_to_rest:
  "\<exists>n st' t'. alone task_step (replicate n (env, Go)) (t, (st, inside t)) = (t', (st', False)) \<and> resting t'"
proof (induction "task_work t" arbitrary: t st rule: less_induct)
  case less
  show ?case
  proof (cases "resting t")
    case True
    then have "\<not> inside t" by (cases t) auto
    with True show ?thesis by (intro exI [of _ 0]) auto
  next
    case False
    obtain st1 l1 t1 where s: "task_step (env, Go) t (st, inside t) = ((st1, l1), t1)" by (metis surj_pair)
    with task_step_work [OF this False] less [of t1 st1] obtain n st' t' where
      "alone task_step (replicate n (env, Go)) (t1, (st1, l1)) = (t', (st', False))" "resting t'" by auto
    with s show ?thesis by (intro exI [of _ "Suc n"]) auto
  qed
qed

lemma resting_outside: "resting t \<Longrightarrow> \<not> inside t"
  by (cases t) auto

definition restless :: "task list \<Rightarrow> nat" where
  "restless ts = length (filter (\<lambda>t. \<not> resting t) ts)"

lemma restless_update:
  "i < length ts \<Longrightarrow> \<not> resting (ts ! i) \<Longrightarrow> resting t \<Longrightarrow> restless (ts[i := t]) < restless ts"
proof (induction ts arbitrary: i)
  case (Cons x ts)
  then show ?case by (cases i) (auto simp: restless_def)
qed simp

text \<open>Whoever is inside goes first, then the others one by one.\<close>

lemma next_to_rest:
  assumes "lock_ok ((st, l), ts)" and "restless ts \<noteq> 0"
  obtains i where "i < length ts" "\<not> resting (ts ! i)" "l = inside (ts ! i)"
proof (cases l)
  case True
  then have "filter inside ts \<noteq> []" using assms(1) by (auto simp: lock_ok_def insiders_def)
  then obtain i where i: "i < length ts" "inside (ts ! i)" by (auto simp: filter_empty_conv in_set_conv_nth)
  moreover have "\<not> resting (ts ! i)" using i(2) by (cases "ts ! i") auto
  ultimately show thesis using True that by simp
next
  case False
  then have "\<not> inside t" if "t \<in> set ts" for t
    using assms(1) that by (auto simp: lock_ok_def insiders_def filter_empty_conv)
  moreover obtain t where "t \<in> set ts" "\<not> resting t"
    using assms(2) by (auto simp: restless_def filter_empty_conv)
  ultimately show thesis using False that by (metis in_set_conv_nth)
qed

lemma all_come_to_rest:
  "lock_ok ((st, l), ts) \<Longrightarrow>
   \<exists>sched st' ts'. (\<forall>ie \<in> set sched. snd ie = (env, Go)) \<and>
     run_tasks sched ((st, l), ts) = ((st', False), ts') \<and> (\<forall>t \<in> set ts'. resting t)"
proof (induction "restless ts" arbitrary: st l ts rule: less_induct)
  case less
  show ?case
  proof (cases "restless ts = 0")
    case True
    then have rest: "\<forall>t \<in> set ts. resting t" by (simp add: restless_def filter_empty_conv)
    then have "insiders ts = 0" by (simp add: insiders_def filter_empty_conv resting_outside)
    then have "\<not> l" using less.prems by (simp add: lock_ok_def split: if_splits)
    with rest show ?thesis by (intro exI [of _ "[]"]) auto
  next
    case False
    obtain i where i: "i < length ts" "\<not> resting (ts ! i)" "l = inside (ts ! i)"
      using next_to_rest [OF less.prems False] by blast
    obtain n st1 t1 where a: "alone task_step (replicate n (env, Go)) (ts ! i, (st, l)) = (t1, (st1, False))"
      and t1: "resting t1" using task_comes_to_rest [of env "ts ! i" st] i(3) by blast
    let ?s1 = "map (Pair i) (replicate n (env, Go))"
    have r1: "run_tasks ?s1 ((st, l), ts) = ((st1, False), ts[i := t1])"
      by (rule interleave_alone [OF i(1) a])
    have "lock_ok ((st1, False), ts[i := t1])" using run_lock_ok [OF less.prems, of ?s1] unfolding r1 .
    from less.hyps [OF restless_update [OF i(1,2) t1] this] obtain sched st' ts' where
      "\<forall>ie \<in> set sched. snd ie = (env, Go)"
      "run_tasks sched ((st1, False), ts[i := t1]) = ((st', False), ts')" "\<forall>t \<in> set ts'. resting t"
      by blast
    with r1 show ?thesis by (intro exI [of _ "?s1 @ sched"] exI [of _ st'] exI [of _ ts']) auto
  qed
qed

text \<open>
  C3. The tasks exclude one another from the sessions and never lock each other out for good: in every
  state that any interleaving reaches, at most one task is inside and the mutex is taken exactly
  then, and if from there on nothing new arrives and no peer stalls, the tasks can finish what they
  are at, which frees the mutex.
\<close>

theorem tasks_exclude_and_finish:
  assumes "starts_idle ts0" and "run_tasks sched0 ((st0, False), ts0) = ((st, l), ts)"
  shows "insiders ts \<le> 1 \<and> (l \<longleftrightarrow> insiders ts = 1) \<and>
    (\<exists>sched st' ts'. (\<forall>ie \<in> set sched. snd ie = (env, Go)) \<and>
       run_tasks sched ((st, l), ts) = ((st', False), ts') \<and> (\<forall>t \<in> set ts'. resting t))"
proof -
  have "lock_ok ((st, l), ts)"
    using run_lock_ok [OF starts_idle_lock [OF assms(1)], of sched0 st0] assms(2) by simp
  from all_come_to_rest [OF this] this show ?thesis by (simp add: lock_ok_def)
qed

section \<open>Authorization when tasks interleave\<close>

text \<open>The handshake a task has been cleared for, or is asking the store about.\<close>

fun cleared :: "task \<Rightarrow> handshake_payload option" where
  "cleared (UdpEntering src p) = Some p"
| "cleared (IrohEntering i p) = Some p"
| "cleared _ = None"

fun asking :: "task \<Rightarrow> handshake_payload option" where
  "asking (UdpAsking src p) = Some p"
| "asking (IrohAsking i p) = Some p"
| "asking _ = None"

type_synonym task_event = "nat \<times> server_env \<times> wakeup"

definition event_ok :: "(string \<Rightarrow> trust_data option) \<Rightarrow> task_event \<Rightarrow> bool" where
  "event_ok J ie \<longleftrightarrow> gate_env_ok J (sn_trust (fst (snd ie)))"

definition holds_key :: "hub \<times> task list \<Rightarrow> string \<Rightarrow> bool" where
  "holds_key c key \<longleftrightarrow> has_session (fst (fst c)) key \<or>
     (\<exists>t \<in> set (snd c). \<exists>p. cleared t = Some p \<and> session_key p = key)"

text \<open>The store is asked about a client that it admits at that moment.\<close>

definition asks_for :: "(string \<Rightarrow> trust_data option) \<Rightarrow> hub \<times> task list \<Rightarrow> task_event \<Rightarrow> handshake_payload \<Rightarrow> bool" where
  "asks_for J c ie p \<longleftrightarrow> fst ie < length (snd c) \<and> asking (snd c ! fst ie) = Some p \<and>
     admitted J (fst (fst c)) (hp_client_id p)"

definition hub_known :: "(string \<Rightarrow> trust_data option) \<Rightarrow> hub \<times> task list \<Rightarrow> string \<Rightarrow> bool" where
  "hub_known J c k \<longleftrightarrow> known J (fst (fst c)) k"

definition hub_wf :: "(string \<Rightarrow> trust_data option) \<Rightarrow> hub \<times> task list \<Rightarrow> bool" where
  "hub_wf J c \<longleftrightarrow> sv_trust_wf J (fst (fst c))"

text \<open>The administrator's task runs \<open>approve\<close> on the client's id or a prefix of it.\<close>

definition approves :: "hub \<times> task list \<Rightarrow> task_event \<Rightarrow> string \<Rightarrow> bool" where
  "approves c ie k \<longleftrightarrow> fst ie < length (snd c) \<and> snd c ! fst ie = Admin \<and>
     (\<exists>j t. snd (snd ie) = Command j (Approve t) \<and> starts_with k t)"

lemma udp_enter_sessions:
  assumes "udp_enter env src p st = ((st', l'), t')"
  shows "has_session st' key \<Longrightarrow> has_session st key \<or> session_key p = key" and "cleared t' = None"
    and "sv_trust st' = sv_trust st"
proof -
  have s: "sv_sessions st' = snd (open_session env p (sv_sessions st))" and "cleared t' = None"
    and "sv_trust st' = sv_trust st"
    using assms by (auto simp: udp_enter_def Let_def split: prod.splits session_outcome.splits failure.splits)
  then show "cleared t' = None" "sv_trust st' = sv_trust st" by simp_all
  from s show "has_session st' key \<Longrightarrow> has_session st key \<or> session_key p = key"
    using open_session_dom [of env p "sv_sessions st" key] by (auto simp: has_session_def)
qed

lemma iroh_enter_sessions:
  assumes "iroh_enter env i p st = ((st', l'), t')"
  shows "has_session st' key \<Longrightarrow> has_session st key \<or> session_key p = key" and "cleared t' = None"
    and "sv_trust st' = sv_trust st"
proof -
  have s: "sv_sessions st' = snd (open_session env p (sv_sessions st))" and "cleared t' = None"
    and "sv_trust st' = sv_trust st"
    using assms by (auto simp: iroh_enter_def Let_def split: prod.splits session_outcome.splits failure.splits)
  then show "cleared t' = None" "sv_trust st' = sv_trust st" by simp_all
  from s show "has_session st' key \<Longrightarrow> has_session st key \<or> session_key p = key"
    using open_session_dom [of env p "sv_sessions st" key] by (auto simp: has_session_def)
qed

lemma receive_trust:
  "udp_receive env src payload st = (st', t') \<Longrightarrow> sv_trust st' = sv_trust st \<and> cleared t' = None"
  "iroh_receive env i st = (st', t') \<Longrightarrow> sv_trust st' = sv_trust st \<and> cleared t' = None"
  by (auto simp: udp_receive_def iroh_receive_def put_conn_def split: if_splits sum.splits message.splits
      option.splits conn_phase.splits)

lemma replay_has_session:
  "session_events env key evs ss = Some ss' \<Longrightarrow> fmlookup ss' k = Some s \<Longrightarrow> \<exists>s0. fmlookup ss k = Some s0"
  "session_ping env key ss = Some ss' \<Longrightarrow> fmlookup ss' k = Some s \<Longrightarrow> \<exists>s0. fmlookup ss k = Some s0"
  by (auto simp: session_events_lookup session_ping_lookup split: if_splits)

lemma task_step_sessions:
  assumes "task_step (env, w) t (st, l) = ((st', l'), t')" and "has_session st' key"
  shows "has_session st key \<or> (\<exists>p. cleared t = Some p \<and> session_key p = key)"
  using assms
  by (cases t)
    (auto simp: guarded_def has_session_def daemon_register_def fmlookup_reap iroh_feed_def iroh_touch_def
      dest: receive_sessions daemon_query_sessions replay_has_session
        udp_enter_sessions(1) [unfolded has_session_def, simplified]
        iroh_enter_sessions(1) [unfolded has_session_def, simplified]
      split: if_splits wakeup.splits prod.splits option.splits)

lemma task_step_cleared:
  assumes "task_step (env, w) t (st, l) = ((st', l'), t')" and "cleared t' = Some p"
    and "gate_env_ok J (sn_trust env)"
  shows "cleared t = Some p \<or> asking t = Some p \<and> admitted J st (hp_client_id p)"
proof -
  have q: "fst (daemon_query env cid st) \<longleftrightarrow> admitted J st cid" for cid
    using daemon_query_admits [of J env Reap cid st] assms(3) by (simp add: env_ok_def)
  from assms(1,2) show ?thesis
    by (cases t) (auto simp: guarded_def q [symmetric] dest: receive_trust udp_enter_sessions(2) iroh_enter_sessions(2)
        split: if_splits wakeup.splits prod.splits)
qed

lemma holds_key_turn:
  assumes "event_ok J ie" and "holds_key (turn task_step c ie) key"
  shows "holds_key c key \<or> (\<exists>p. session_key p = key \<and> asks_for J c ie p)"
proof -
  obtain st l ts i env w where c: "c = ((st, l), ts)" "ie = (i, env, w)" by (cases c; cases ie) auto
  show ?thesis
  proof (cases "i < length ts")
    case True
    obtain st' l' t' where s: "task_step (env, w) (ts ! i) (st, l) = ((st', l'), t')" by (metis surj_pair)
    have g: "gate_env_ok J (sn_trust env)" using assms(1) by (simp add: event_ok_def c)
    have mem: "ts ! i \<in> set ts" using True by simp
    from assms(2) have "has_session st' key \<or> (\<exists>t \<in> set (ts[i := t']). \<exists>p. cleared t = Some p \<and> session_key p = key)"
      by (simp add: holds_key_def turn_def c True s)
    then consider "has_session st' key"
      | t p where "t \<in> set ts" "cleared t = Some p" "session_key p = key"
      | p where "cleared t' = Some p" "session_key p = key"
      by (auto dest!: set_update_subset_insert [THEN subsetD])
    then show ?thesis
    proof cases
      case 1
      from task_step_sessions [OF s this] mem show ?thesis by (auto simp: holds_key_def c)
    next
      case 2
      then show ?thesis by (auto simp: holds_key_def c)
    next
      case 3
      from task_step_cleared [OF s 3(1) g] mem 3(2) True show ?thesis
        by (auto simp: holds_key_def asks_for_def c)
    qed
  qed (use assms(2) in \<open>simp add: turn_def c\<close>)
qed

text \<open>The operations of the tasks on the store.\<close>

lemma daemon_query_trust:
  "daemon_query env cid st = (b, st') \<Longrightarrow> sv_trust st' = trust_sys_step (sv_trust st) (0, sn_trust env, Query cid)"
  by (auto simp: daemon_query_eq simp del: trust_sys_step.simps)

lemma daemon_register_trust:
  "sv_trust (daemon_register env p tr st) = trust_sys_step (sv_trust st) (0, sn_trust env,
     Register (hp_client_id p) (hp_client_hostname p) (dm_name (hp_metadata p)) tr)"
  by (simp add: daemon_register_eq del: trust_sys_step.simps)

lemma task_step_trust:
  assumes "task_step (env, w) t (st, l) = ((st', l'), t')"
  shows "sv_trust st' = sv_trust st \<or>
    (\<exists>i op. sv_trust st' = trust_sys_step (sv_trust st) (i, sn_trust env, op) \<and>
       (\<forall>tgt. op = Approve tgt \<longrightarrow> t = Admin \<and> (\<exists>j. w = Command j (Approve tgt))))"
proof (cases t)
  case (UdpAsking src p)
  then have "sv_trust st' = trust_sys_step (sv_trust st) (0, sn_trust env, Query (hp_client_id p))"
    using assms by (auto dest: daemon_query_trust simp del: trust_sys_step.simps split: prod.splits)
  then show ?thesis by blast
next
  case (IrohAsking i p)
  then have "sv_trust st' = trust_sys_step (sv_trust st) (0, sn_trust env, Query (hp_client_id p))"
    using assms by (auto dest: daemon_query_trust simp del: trust_sys_step.simps split: prod.splits)
  then show ?thesis by blast
next
  case (UdpEnrolling src p)
  then have "sv_trust st' = trust_sys_step (sv_trust st) (0, sn_trust env,
      Register (hp_client_id p) (hp_client_hostname p) (dm_name (hp_metadata p)) ''Direct UDP'')"
    using assms by (auto simp: daemon_register_trust simp del: trust_sys_step.simps)
  then show ?thesis by blast
next
  case (IrohEnrolling i p)
  then have "sv_trust st' = trust_sys_step (sv_trust st) (0, sn_trust env,
      Register (hp_client_id p) (hp_client_hostname p) (dm_name (hp_metadata p)) ''Iroh P2P'')"
    using assms by (auto simp: daemon_register_trust simp del: trust_sys_step.simps)
  then show ?thesis by blast
next
  case Admin
  show ?thesis
  proof (cases "\<exists>j c. w = Command j c")
    case True
    then obtain j c where w: "w = Command j c" by blast
    then have "sv_trust st' = trust_sys_step (sv_trust st) (Suc j, sn_trust env, c)"
      using assms Admin by (auto simp del: trust_sys_step.simps)
    with Admin w show ?thesis by blast
  qed (use assms Admin in \<open>auto split: wakeup.splits\<close>)
qed (use assms in \<open>auto simp: guarded_def iroh_feed_def iroh_touch_def dest: receive_trust udp_enter_sessions(3)
    iroh_enter_sessions(3) split: if_splits wakeup.splits prod.splits option.splits\<close>)

lemma hub_turn:
  assumes "hub_wf J c" and "event_ok J ie"
  shows "hub_wf J (turn task_step c ie)"
    and "hub_known J (turn task_step c ie) k \<Longrightarrow> hub_known J c k \<or> approves c ie k"
proof -
  obtain st l ts i env w where c: "c = ((st, l), ts)" "ie = (i, env, w)" by (cases c; cases ie) auto
  have g: "input_ok J (n, sn_trust env, op)" for n op
    using assms(2) by (simp add: event_ok_def gate_env_ok_def c)
  show "hub_wf J (turn task_step c ie)"
  proof (cases "i < length ts")
    case True
    obtain st' l' t' where s: "task_step (env, w) (ts ! i) (st, l) = ((st', l'), t')" by (metis surj_pair)
    from task_step_trust [OF s] assms(1) g trust_sys_wf_step [of J "sv_trust st"] show ?thesis
      by (fastforce simp: hub_wf_def sv_trust_wf_def turn_def c True s simp del: trust_sys_step.simps input_ok.simps)
  qed (use assms(1) in \<open>simp add: turn_def c\<close>)
  show "hub_known J (turn task_step c ie) k \<Longrightarrow> hub_known J c k \<or> approves c ie k"
  proof (cases "i < length ts")
    case True
    assume k: "hub_known J (turn task_step c ie) k"
    obtain st' l' t' where s: "task_step (env, w) (ts ! i) (st, l) = ((st', l'), t')" by (metis surj_pair)
    from k have k': "approved_somewhere J (sv_trust st') k" by (simp add: hub_known_def known_def turn_def c True s)
    from task_step_trust [OF s] show ?thesis
    proof (elim disjE exE conjE)
      fix n op
      assume t: "sv_trust st' = trust_sys_step (sv_trust st) (n, sn_trust env, op)"
        and op: "\<forall>tgt. op = Approve tgt \<longrightarrow> ts ! i = Admin \<and> (\<exists>j. w = Command j (Approve tgt))"
      from approve_cause_step [OF g [of n op], of "sv_trust st" k] k' op True show ?thesis
        by (auto simp: t hub_known_def known_def approves_def c simp del: trust_sys_step.simps)
    qed (use k' in \<open>simp add: hub_known_def known_def c\<close>)
  qed (simp add: turn_def c)
qed

interpretation task_keys: traced_step "turn task_step" "event_ok J" "hub_wf J" holds_key
  "\<lambda>c ie key. \<exists>p. session_key p = key \<and> asks_for J c ie p" for J
  by unfold_locales (use hub_turn(1) holds_key_turn in blast)+

interpretation task_known: traced_step "turn task_step" "event_ok J" "hub_wf J" "hub_known J" approves for J
  by unfold_locales (use hub_turn(2) in blast)


section \<open>A concrete server\<close>

lemma demo_read_handshake: "read_frame demo_codec [0, 0, 0, 1, 1] = Ok (Handshake demo_hs, [])"
proof -
  have "sendable demo_codec (Handshake demo_hs)"
    by (rule sendableI [OF demo_codec_ok demo_encode(3)]) (simp add: max_frame_def)
  from fr.get_put [OF this, of "[]"] show ?thesis by (simp add: frame_bytes_def be32_def)
qed

lemma demo_open: "open_session (demo_senv n) demo_hs fmempty =
    (Created, fmupd ''c1:Pad'' (demo_entry\<lparr>se_last_active := n\<rparr>) fmempty)"
  by (simp add: open_session_def hostname_count_def virtual_device_name_def demo_new demo_entry_def Let_def)

lemma demo_granted_admits:
  "ts_file (sv_trust st) = Text ''G'' \<Longrightarrow> admitted (te_from_json demo_env) st ''c1''"
  by (simp add: admitted_def tm_admits_def effective_data_def parse_file_def) (simp add: demo_granted_def)

lemma demo_query:
  "ts_file (sv_trust st) = Text ''G'' \<Longrightarrow> fst (daemon_query (demo_senv n) ''c1'' st)"
  using daemon_query_admits [OF demo_senv_ok, of n "''c1''" st] demo_granted_admits by simp

definition demo_iroh :: server_state where
  "demo_iroh = put_conn 0 (demo_conn [0, 0, 0, 1, 1]) (demo_server (Text ''G''))"

definition demo_inside :: "(nat \<times> server_env \<times> wakeup) list" where
  "demo_inside = [(0, demo_senv 5, Frame), (0, demo_senv 5, Go), (0, demo_senv 5, Go)]"

lemma demo_run_inside:
  "\<exists>st. run_tasks demo_inside ((demo_iroh, False), [IrohIdle 0, UdpIdle, ReaperIdle]) =
     ((st, True), [IrohAnswering 0 demo_hs Created, UdpIdle, ReaperIdle]) \<and>
     sv_sessions st = fmupd ''c1:Pad'' (demo_entry\<lparr>se_last_active := 5\<rparr>) fmempty"
proof -
  let ?st1 = "put_conn 0 ((demo_conn [0, 0, 0, 1, 1])\<lparr>ic_recv := []\<rparr>) demo_iroh"
  have "fst (daemon_query (demo_senv 5) ''c1'' ?st1)"
    by (rule demo_query) (simp add: demo_iroh_def put_conn_def)
  then obtain st2 where q: "daemon_query (demo_senv 5) ''c1'' ?st1 = (True, st2)"
    by (cases "daemon_query (demo_senv 5) ''c1'' ?st1") auto
  have s: "sv_sessions st2 = fmempty" using daemon_query_sessions [OF q] by (simp add: demo_iroh_def)
  have r: "iroh_receive (demo_senv 5) 0 demo_iroh = (?st1, IrohAsking 0 demo_hs)"
    by (simp add: iroh_receive_def demo_iroh_def demo_read_handshake)
  show ?thesis
    by (simp add: demo_inside_def turn_def r q guarded_def iroh_enter_def s demo_open)
qed

lemma demo_tasks_idle: "starts_idle [IrohIdle 0, UdpIdle, ReaperIdle]" "starts_idle [Admin, UdpIdle]"
  by (auto simp: starts_idle_def)

theorem stalled_peer_freezes_sessions_witness:
  "\<exists>st. run_tasks demo_inside ((demo_iroh, False), [IrohIdle 0, UdpIdle, ReaperIdle]) =
      ((st, True), [IrohAnswering 0 demo_hs Created, UdpIdle, ReaperIdle]) \<and>
    sv_sessions (fst (fst (run_tasks [(2, demo_senv (idle_limit + 10), Timer), (2, demo_senv (idle_limit + 10), Go)]
      ((st, True), [IrohAnswering 0 demo_hs Created, UdpIdle, ReaperIdle])))) =
    fmupd ''c1:Pad'' (demo_entry\<lparr>se_last_active := 5\<rparr>) fmempty"
proof -
  obtain st where run: "run_tasks demo_inside ((demo_iroh, False), [IrohIdle 0, UdpIdle, ReaperIdle]) =
      ((st, True), [IrohAnswering 0 demo_hs Created, UdpIdle, ReaperIdle])"
    and s: "sv_sessions st = fmupd ''c1:Pad'' (demo_entry\<lparr>se_last_active := 5\<rparr>) fmempty"
    using demo_run_inside by blast
  let ?sched = "[(2, demo_senv (idle_limit + 10), Timer), (2, demo_senv (idle_limit + 10), Go)]"
  obtain st' l' ts' where after: "run_tasks ?sched
      ((st, True), [IrohAnswering 0 demo_hs Created, UdpIdle, ReaperIdle]) = ((st', l'), ts')"
    by (metis surj_pair)
  have "sv_sessions st' = sv_sessions st"
    using stalled_peer_freezes_sessions [OF demo_tasks_idle(1) run _ _ _ after, of 0] by simp
  with run s after show ?thesis by auto
qed

theorem tasks_exclude_and_finish_witness:
  "\<exists>st sched st' ts'. run_tasks demo_inside ((demo_iroh, False), [IrohIdle 0, UdpIdle, ReaperIdle]) =
      ((st, True), [IrohAnswering 0 demo_hs Created, UdpIdle, ReaperIdle]) \<and>
    run_tasks sched ((st, True), [IrohAnswering 0 demo_hs Created, UdpIdle, ReaperIdle]) = ((st', False), ts') \<and>
    (\<forall>t \<in> set ts'. resting t)"
proof -
  obtain st where run: "run_tasks demo_inside ((demo_iroh, False), [IrohIdle 0, UdpIdle, ReaperIdle]) =
      ((st, True), [IrohAnswering 0 demo_hs Created, UdpIdle, ReaperIdle])"
    using demo_run_inside by blast
  from tasks_exclude_and_finish [OF demo_tasks_idle(1) run] run show ?thesis by blast
qed

definition demo_sched :: "(nat \<times> server_env \<times> wakeup) list" where
  "demo_sched = [(0, demo_senv 5, Command 0 (Approve ''c1'')), (1, demo_senv 6, Datagram demo_addr [1]),
     (1, demo_senv 6, Go), (1, demo_senv 6, Go)]"

lemma demo_run_sched:
  "\<exists>st' l' ts'. run_tasks demo_sched ((demo_server (Text ''W''), False), [Admin, UdpIdle]) = ((st', l'), ts') \<and>
     has_session st' ''c1:Pad''"
proof -
  let ?t = "trust_sys_step demo_sys (Suc 0, demo_env, Approve ''c1'')"
  let ?st1 = "(demo_server (Text ''W''))\<lparr>sv_trust := ?t\<rparr>"
  have a: "task_step (demo_senv 5, Command 0 (Approve ''c1'')) Admin (demo_server (Text ''W''), False) =
      ((?st1, False), Admin)"
    by (simp add: demo_sys_W del: trust_sys_step.simps)
  have f: "ts_file (sv_trust ?st1) = Text ''G''"
    using demo_approved_file by (simp del: trust_sys_step.simps)
  then obtain st2 where q: "daemon_query (demo_senv 6) ''c1'' ?st1 = (True, st2)"
    using demo_query [of ?st1 6] by (cases "daemon_query (demo_senv 6) ''c1'' ?st1") auto
  have s: "sv_sessions st2 = fmempty" using daemon_query_sessions [OF q] by simp
  have r: "udp_receive (demo_senv 6) demo_addr [1] ?st1 = (?st1, UdpAsking demo_addr demo_hs)"
    by (simp add: udp_receive_def del: trust_sys_step.simps)
  show ?thesis
    by (simp add: demo_sched_def turn_def a r q guarded_def udp_enter_def s demo_open has_session_def
        del: trust_sys_step.simps task_step.simps(20)) (rule exI [of _ True], rule TrueI)
qed


end
