(* ===== verification/TrustThreads.thy ===== *)
theory TrustThreads
  imports Threads TrustProps
begin

text \<open>
  The authorization store of \<^verbatim>\<open>src/trust.rs\<close> at the grain of its accesses. An operation reads the
  file, stores what it parsed into the memory of its process, and then, with the mutex of that
  memory held, looks or changes and writes. The tasks of the daemon share one memory, each run of
  the command line has its own, and all share the file; between the accesses of one operation any
  other may move. Here each access is one step (the write of the file by \<^verbatim>\<open>fs::write\<close> is one, too).
\<close>

section \<open>One operation\<close>

datatype store_answer =
    Whether bool
  | Noted
  | ApproveResult "approved_client_info result"
  | RevokeResult "bool result"
  | PendingList "pending_client_info list"
  | ApprovedList "approved_client_info list"

text \<open>The part under the mutex.\<close>

fun store_commit :: "trust_env \<Rightarrow> trust_op \<Rightarrow> trust_manager \<Rightarrow> store_answer \<times> trust_manager" where
  "store_commit env (Query cid) tm = (Whether (cid |\<in>| fmdom (td_approved (tm_data tm))), tm)"
| "store_commit env (Register cid h n t) tm = (Noted, register_commit env cid h n t tm)"
| "store_commit env (Approve t) tm = map_prod ApproveResult id (approve_commit env t tm)"
| "store_commit env (Revoke t) tm = map_prod RevokeResult id (revoke_commit env t tm)"
| "store_commit env ListPending tm =
     (PendingList (sort_key pc_first_seen (map_values (te_iter env) (td_pending (tm_data tm)))), tm)"
| "store_commit env ListApproved tm =
     (ApprovedList (sort_key ac_approved_at (map_values (te_iter env) (td_approved (tm_data tm)))), tm)"

datatype store_pc = Reading | Storing disk_file | Committing | Answered store_answer

record store_thread =
  so_proc :: nat
  so_op :: trust_op
  so_pc :: store_pc

definition store_step ::
  "trust_env \<Rightarrow> store_thread \<Rightarrow> trust_sys \<Rightarrow> trust_sys \<times> store_thread" where
  "store_step env th sys =
     (case so_pc th of
        Reading \<Rightarrow> (sys, th\<lparr>so_pc := Storing (ts_file sys)\<rparr>)
      | Storing f \<Rightarrow>
          ((case disk_data env f of
              None \<Rightarrow> sys
            | Some d \<Rightarrow> sys\<lparr>ts_mem := (ts_mem sys)(so_proc th := d)\<rparr>),
           th\<lparr>so_pc := Committing\<rparr>)
      | Committing \<Rightarrow>
          (case store_commit env (so_op th) (manager_of (so_proc th) sys) of
             (a, tm) \<Rightarrow> (put_manager (so_proc th) tm sys, th\<lparr>so_pc := Answered a\<rparr>))
      | Answered a \<Rightarrow> (sys, th))"

abbreviation run_store ::
  "(nat \<times> trust_env) list \<Rightarrow> trust_sys \<times> store_thread list \<Rightarrow> trust_sys \<times> store_thread list" where
  "run_store \<equiv> interleave store_step"

section \<open>An operation on its own\<close>

lemma manager_of_reload:
  "manager_of i (case disk_data env (ts_file sys) of None \<Rightarrow> sys | Some d \<Rightarrow> sys\<lparr>ts_mem := (ts_mem sys)(i := d)\<rparr>) =
     reload env (manager_of i sys)"
  by (simp add: manager_of_def reload_disk split: option.split)

lemma put_manager_reload:
  "put_manager i tm (case disk_data env f of None \<Rightarrow> sys | Some d \<Rightarrow> sys\<lparr>ts_mem := (ts_mem sys)(i := d)\<rparr>) =
     put_manager i tm sys"
  by (simp add: put_manager_def split: option.split)

lemma store_commit_reload: "snd (store_commit env op (reload env tm)) = trust_op_step env op tm"
  by (cases op) (simp_all add: is_approved_def register_pending_def approve_def revoke_def list_pending_def
      list_approved_def Let_def)

definition answer_of :: "trust_env \<Rightarrow> trust_op \<Rightarrow> trust_manager \<Rightarrow> store_answer" where
  "answer_of env op tm =
     (case op of
        Query cid \<Rightarrow> Whether (fst (is_approved env cid tm))
      | Register cid h n t \<Rightarrow> Noted
      | Approve t \<Rightarrow> ApproveResult (fst (approve env t tm))
      | Revoke t \<Rightarrow> RevokeResult (fst (revoke env t tm))
      | ListPending \<Rightarrow> PendingList (fst (list_pending env tm))
      | ListApproved \<Rightarrow> ApprovedList (fst (list_approved env tm)))"

lemma store_commit_answer: "fst (store_commit env op (reload env tm)) = answer_of env op tm"
  by (cases op) (simp_all add: answer_of_def is_approved_def approve_def revoke_def list_pending_def
      list_approved_def Let_def)

text \<open>
  An operation whose three accesses nothing comes between is the operation of \<open>Trust\<close>: it leaves the
  same file and memories, and gives the same answer.
\<close>

theorem lone_store_operation:
  assumes "so_pc th = Reading"
  shows "alone store_step [env, env, env] (th, sys) =
    (th\<lparr>so_pc := Answered (answer_of env (so_op th) (manager_of (so_proc th) sys))\<rparr>,
     trust_sys_step sys (so_proc th, env, so_op th))"
proof -
  obtain a tm where c: "store_commit env (so_op th) (reload env (manager_of (so_proc th) sys)) = (a, tm)"
    by (cases "store_commit env (so_op th) (reload env (manager_of (so_proc th) sys))")
  then have "tm = trust_op_step env (so_op th) (manager_of (so_proc th) sys)"
    "a = answer_of env (so_op th) (manager_of (so_proc th) sys)"
    using store_commit_reload [of env "so_op th" "manager_of (so_proc th) sys"]
      store_commit_answer [of env "so_op th" "manager_of (so_proc th) sys"] by simp_all
  moreover have "alone store_step [env, env, env] (th, sys) =
      (th\<lparr>so_pc := Answered a\<rparr>, put_manager (so_proc th) tm sys)"
  proof (cases "disk_data env (ts_file sys)")
    case None
    with c assms show ?thesis by (simp add: store_step_def reload_disk)
  next
    case (Some d)
    let ?sys = "sys\<lparr>ts_mem := (ts_mem sys)(so_proc th := d)\<rparr>"
    have "manager_of (so_proc th) ?sys = reload env (manager_of (so_proc th) sys)"
      and "put_manager (so_proc th) tm ?sys = put_manager (so_proc th) tm sys"
      using manager_of_reload [where env = env and sys = sys]
        put_manager_reload [where env = env and f = "ts_file sys" and sys = sys]
      by (simp_all add: Some)
    with c assms Some show ?thesis by (simp add: store_step_def)
  qed
  ultimately show ?thesis by simp
qed

theorem lone_store_operation_witness:
  "ts_file (snd (alone store_step [demo_env, demo_env, demo_env]
     (\<lparr>so_proc = 1, so_op = Approve ''c1'', so_pc = Reading\<rparr>, demo_sys))) = Text ''G''"
  by (subst lone_store_operation, simp, simp only: store_thread.select_convs snd_conv demo_run) simp

section \<open>Approval under any interleaving\<close>

lemma commit_data:
  assumes "trust_env_ok env" and "store_commit env op tm = (a, tm')"
  obtains "tm' = tm" | d where "data_step env op (tm_data tm) d" "tm' = snd (save env d (tm\<lparr>tm_data := d\<rparr>))"
proof -
  have "tm' = tm \<or> (\<exists>d. data_step env op (tm_data tm) d \<and> tm' = snd (save env d (tm\<lparr>tm_data := d\<rparr>)))"
  proof (cases op)
    case (Register cid h n t)
    with assms(2) have "tm' = register_commit env cid h n t tm" by simp
    then show ?thesis
      unfolding Register by (cases "cid |\<in>| fmdom (td_approved (tm_data tm))")
        (auto simp: register_commit_def Let_def intro!: exI data_step.register)
  next
    case (Approve t)
    with assms(2) have tm': "tm' = snd (approve_commit env t tm)" by (cases "approve_commit env t tm") auto
    show ?thesis
    proof (rule approve_commit_cases [OF assms(1), of tm t], goal_cases)
      case 1
      then show ?case by (simp add: tm')
    next
      case (2 k p)
      then have "data_step env op (tm_data tm) (move_to_approved env k p (tm_data tm))"
        unfolding Approve by (intro data_step.approve)
      with 2(4) show ?case by (auto simp: tm' Let_def snd_let_case_sum)
    qed
  next
    case (Revoke t)
    with assms(2) have tm': "tm' = snd (revoke_commit env t tm)" by (cases "revoke_commit env t tm") auto
    show ?thesis
    proof (cases "match_id env (fmdom (td_approved (tm_data tm))) t")
      case None
      then show ?thesis by (simp add: tm' revoke_commit_def Let_def)
    next
      case (Some k)
      have "data_step env op (tm_data tm) ((tm_data tm)\<lparr>td_approved := fmdrop k (td_approved (tm_data tm))\<rparr>)"
        unfolding Revoke using match_id_Some [OF assms(1) Some] by (intro data_step.revoke)
      then show ?thesis
        using Some by (auto simp: tm' revoke_commit_def Let_def split: prod.splits sum.splits)
    qed
  qed (use assms(2) in simp_all)
  then show thesis using that by blast
qed

abbreviation within :: "string set \<Rightarrow> trust_data \<Rightarrow> bool" where
  "within A d \<equiv> \<forall>k. k |\<in>| fmdom (td_approved d) \<longrightarrow> k \<in> A"

text \<open>Approvals stay among the clients in \<open>A\<close>, and so does what a thread has read.\<close>

definition approvals_in :: "(string \<Rightarrow> trust_data option) \<Rightarrow> string set \<Rightarrow> trust_sys \<Rightarrow> bool" where
  "approvals_in J A sys \<longleftrightarrow> (\<forall>k. approved_somewhere J sys k \<longrightarrow> k \<in> A)"

definition thread_in :: "(string \<Rightarrow> trust_data option) \<Rightarrow> string set \<Rightarrow> trust_sys \<Rightarrow> store_thread \<Rightarrow> bool" where
  "thread_in J A sys th \<longleftrightarrow>
     (\<forall>t k. so_op th = Approve t \<longrightarrow> starts_with k t \<longrightarrow> k \<in> A) \<and>
     (\<forall>f d. so_pc th = Storing f \<longrightarrow> parse_file J f = Some d \<longrightarrow> within A d) \<and>
     (\<forall>k. so_op th = Query k \<longrightarrow> so_pc th = Answered (Whether True) \<longrightarrow> k \<in> A)"

definition store_env_ok :: "(string \<Rightarrow> trust_data option) \<Rightarrow> trust_env \<Rightarrow> bool" where
  "store_env_ok J env \<longleftrightarrow> trust_env_ok env \<and> te_from_json env = J"

lemma approvals_in_iff:
  "approvals_in J A sys \<longleftrightarrow> (\<forall>i. within A (ts_mem sys i)) \<and>
     (\<forall>d. parse_file J (ts_file sys) = Some d \<longrightarrow> within A d)"
  by (auto simp: approvals_in_def approved_somewhere_def)

lemma store_step_in:
  assumes "store_env_ok J env" and "approvals_in J A sys" and "thread_in J A sys th"
    and "store_step env th sys = (sys', th')"
  shows "approvals_in J A sys' \<and> thread_in J A sys' th'"
proof (cases "so_pc th")
  case Reading
  with assms(2-4) show ?thesis by (auto simp: store_step_def thread_in_def approvals_in_iff)
next
  case (Storing f)
  have "within A d" if "disk_data env f = Some d" for d
    using assms(1,3) that by (auto simp: thread_in_def Storing store_env_ok_def)
  with Storing assms(2-4) show ?thesis
    by (auto simp: store_step_def thread_in_def approvals_in_iff split: option.splits if_splits)
next
  case Committing
  have ok: "trust_env_ok env" and J: "te_from_json env = J" using assms(1) by (simp_all add: store_env_ok_def)
  obtain a tm where c: "store_commit env (so_op th) (manager_of (so_proc th) sys) = (a, tm)"
    by (cases "store_commit env (so_op th) (manager_of (so_proc th) sys)")
  with Committing assms(4) have r: "sys' = put_manager (so_proc th) tm sys" "th' = th\<lparr>so_pc := Answered a\<rparr>"
    by (simp_all add: store_step_def)
  have "approvals_in J A sys'"
  proof (rule commit_data [OF ok c])
    assume "tm = manager_of (so_proc th) sys"
    with assms(2) r(1) show ?thesis by (simp add: put_manager_def)
  next
    fix d
    assume d: "data_step env (so_op th) (tm_data (manager_of (so_proc th) sys)) d"
      and tm: "tm = snd (save env d ((manager_of (so_proc th) sys)\<lparr>tm_data := d\<rparr>))"
    have "within A d"
    proof (intro allI impI)
      fix k
      assume "k |\<in>| fmdom (td_approved d)"
      from data_step_approved [OF d this] assms(2,3) show "k \<in> A"
        by (auto simp: approvals_in_iff thread_in_def)
    qed
    with assms(2) r(1) tm save_disk [OF ok, of d "(manager_of (so_proc th) sys)\<lparr>tm_data := d\<rparr>"]
    show ?thesis by (auto simp: approvals_in_iff put_manager_def save_frame J)
  qed
  moreover have "k \<in> A" if "so_op th = Query k" "a = Whether True" for k
    using that c assms(2) by (auto simp: approvals_in_iff)
  ultimately show ?thesis using assms(3) r(2) Committing by (auto simp: thread_in_def)
next
  case (Answered a)
  with assms(2-4) show ?thesis by (simp add: store_step_def)
qed

interpretation store: shared_state store_step "store_env_ok J" "approvals_in J A" "thread_in J A" "\<lambda>_ _. True" for J A
  by unfold_locales (use store_step_in in \<open>blast | simp add: thread_in_def\<close>)+

text \<open>
  C19. A client is approved only by an administrator, however the accesses interleave: when any
  number of operations, of the daemon's tasks and of command line runs, move in any order between
  reading the file, storing it and committing, then a client that some memory or the file has
  approved at the end was approved at the start, or one of the operations is an \<open>Approve\<close> whose
  target is its id or a prefix of it; and no query has answered yes for any other client.
\<close>

theorem interleaved_approval_only_by_approve:
  assumes "\<forall>ie \<in> set sched. store_env_ok J (snd ie)" and "\<forall>th \<in> set ths. so_pc th = Reading"
    and "run_store sched (sys, ths) = (sys', ths')"
    and "approved_somewhere J sys' k \<or>
      (\<exists>th \<in> set ths'. so_op th = Query k \<and> so_pc th = Answered (Whether True))"
  shows "approved_somewhere J sys k \<or> (\<exists>th \<in> set ths. \<exists>t. so_op th = Approve t \<and> starts_with k t)"
proof -
  let ?A = "{k. approved_somewhere J sys k \<or> (\<exists>th \<in> set ths. \<exists>t. so_op th = Approve t \<and> starts_with k t)}"
  have "store.all_ok J ?A (sys, ths)"
    using assms(2) by (auto simp: store.all_ok_def approvals_in_def thread_in_def)
  from store.interleave_ok [OF this assms(1,3)] have "store.all_ok J ?A (sys', ths')" by blast
  then have "k \<in> ?A" using assms(4) by (auto simp: store.all_ok_def approvals_in_def thread_in_def)
  then show ?thesis by simp
qed

theorem interleaved_approval_only_by_approve_witness:
  "\<exists>th \<in> set [\<lparr>so_proc = 0, so_op = Query ''c1'', so_pc = Reading\<rparr>,
             \<lparr>so_proc = 1, so_op = Approve ''c1'', so_pc = Reading\<rparr>].
     \<exists>t. so_op th = Approve t \<and> starts_with ''c1'' t"
proof -
  let ?a = "\<lparr>so_proc = 1, so_op = Approve ''c1'', so_pc = Reading\<rparr>"
  let ?ths = "[\<lparr>so_proc = 0, so_op = Query ''c1'', so_pc = Reading\<rparr>, ?a]"
  let ?J = "te_from_json demo_env" and ?es = "[demo_env, demo_env, demo_env]"
  let ?sys = "demo_sys\<lparr>ts_file := Text ''G'', ts_mem := (\<lambda>_. trust_default)(1 := demo_granted)\<rparr>"
  obtain a where "alone store_step ?es (?a, demo_sys) = (?a\<lparr>so_pc := Answered a\<rparr>, ?sys)"
    using lone_store_operation [of ?a demo_env demo_sys] by (simp only: store_thread.select_convs demo_run)
  then have "alone store_step ?es (?ths ! 1, demo_sys) = (?a\<lparr>so_pc := Answered a\<rparr>, ?sys)" by simp
  from interleave_alone [OF _ this]
  have run: "run_store (map (Pair 1) ?es) (demo_sys, ?ths) = (?sys, ?ths[1 := ?a\<lparr>so_pc := Answered a\<rparr>])" by simp
  have "approved_somewhere ?J demo_sys ''c1'' \<or>
      (\<exists>th \<in> set ?ths. \<exists>t. so_op th = Approve t \<and> starts_with ''c1'' t)"
    by (rule interleaved_approval_only_by_approve [OF _ _ run])
      (auto simp: store_env_ok_def demo_env_ok approved_somewhere_def demo_granted_def parse_file_def)
  moreover have "\<not> approved_somewhere ?J demo_sys ''c1''"
    by (simp add: approved_somewhere_def demo_waiting_def trust_default_def parse_file_def)
  ultimately show ?thesis by blast
qed

section \<open>A revocation can be undone\<close>

abbreviation registering :: "nat \<Rightarrow> string \<Rightarrow> string \<Rightarrow> string \<Rightarrow> string \<Rightarrow> store_thread" where
  "registering i cid h n tr \<equiv> \<lparr>so_proc = i, so_op = Register cid h n tr, so_pc = Reading\<rparr>"

abbreviation revoking :: "nat \<Rightarrow> string \<Rightarrow> store_thread" where
  "revoking j t \<equiv> \<lparr>so_proc = j, so_op = Revoke t, so_pc = Reading\<rparr>"

text \<open>The registration, thread 0, reads and stores; the revocation, thread 1, runs; the
  registration commits.\<close>

abbreviation race :: "trust_env \<Rightarrow> trust_env \<Rightarrow> (nat \<times> trust_env) list" where
  "race env env' \<equiv> [(0, env'), (0, env'), (1, env), (1, env), (1, env), (0, env')]"

lemma race_run:
  fixes env :: trust_env
  defines "sys2 \<equiv> \<lambda>sys i d j t. trust_sys_step (sys\<lparr>ts_mem := (ts_mem sys)(i := d)\<rparr>) (j, env, Revoke t)"
  assumes "i \<noteq> j" and "disk_data env' (ts_file sys) = Some d"
    and "fst (revoke env t (manager_of j sys)) = r"
  shows "run_store (race env env') (sys, [registering i cid h n tr, revoking j t]) =
    (put_manager i (register_commit env' cid h n tr (manager_of i (sys2 sys i d j t))) (sys2 sys i d j t),
     [(registering i cid h n tr)\<lparr>so_pc := Answered Noted\<rparr>,
      (revoking j t)\<lparr>so_pc := Answered (RevokeResult r)\<rparr>])"
proof -
  let ?r = "registering i cid h n tr" and ?v = "revoking j t"
  let ?v' = "?v\<lparr>so_pc := Answered (RevokeResult r)\<rparr>"
  let ?sys1 = "sys\<lparr>ts_mem := (ts_mem sys)(i := d)\<rparr>"
  let ?sys2 = "trust_sys_step ?sys1 (j, env, Revoke t)"
  have one: "run_store [(0, env'), (0, env')] (sys, [?r, ?v]) = (?sys1, [?r\<lparr>so_pc := Committing\<rparr>, ?v])"
    using assms(3) by (simp add: turn_def store_step_def)
  have m: "manager_of j ?sys1 = manager_of j sys" using assms(2) by (simp add: manager_of_def)
  have "alone store_step [env, env, env] (?v, ?sys1) = (?v', ?sys2)"
    using lone_store_operation [of ?v env ?sys1] assms(4) by (simp add: answer_of_def m)
  then have "alone store_step [env, env, env] ([?r\<lparr>so_pc := Committing\<rparr>, ?v] ! 1, ?sys1) = (?v', ?sys2)"
    by simp
  from interleave_alone [OF _ this]
  have two: "run_store [(1, env), (1, env), (1, env)] (?sys1, [?r\<lparr>so_pc := Committing\<rparr>, ?v]) =
      (?sys2, [?r\<lparr>so_pc := Committing\<rparr>, ?v'])"
    by simp
  have three: "run_store [(0, env')] (?sys2, [?r\<lparr>so_pc := Committing\<rparr>, ?v']) =
      (put_manager i (register_commit env' cid h n tr (manager_of i ?sys2)) ?sys2,
       [?r\<lparr>so_pc := Answered Noted\<rparr>, ?v'])"
    by (simp add: turn_def store_step_def del: trust_sys_step.simps)
  have "run_store ([(0, env'), (0, env')] @ [(1, env), (1, env), (1, env)] @ [(0, env')]) (sys, [?r, ?v]) =
      (put_manager i (register_commit env' cid h n tr (manager_of i ?sys2)) ?sys2,
       [?r\<lparr>so_pc := Answered Noted\<rparr>, ?v'])"
    unfolding interleave_simps(3) one two three ..
  then show ?thesis unfolding sys2_def by simp
qed

text \<open>
  C39. A registration can undo a revocation. A task of the daemon that registers another client has
  read and stored the file; an administrator's \<open>revoke\<close> of an approved client runs to its end and
  reports success; then the registration commits what it read before. If that write succeeds, the
  file says again that the revoked client is approved, and every process answers so.
\<close>

theorem revocation_undone_by_race:
  assumes "store_env_ok J env" and "store_env_ok J env'" and "i \<noteq> j"
    and "parse_file J (ts_file sys) = Some d" and "k |\<in>| fmdom (td_approved d)"
    and "cid |\<notin>| fmdom (td_approved d)"
    and "revoke env t (manager_of j sys) = (Ok b, tm')" and "k |\<notin>| fmdom (td_approved (tm_data tm'))"
    and "run_store (race env env') (sys, [registering i cid h n tr, revoking j t]) = (sys', ths')"
    and "parse_file J (ts_file sys') = Some (ts_mem sys' i)"
  shows "so_pc (ths' ! 1) = Answered (RevokeResult (Ok b)) \<and> fst (is_approved env k (manager_of p sys'))"
proof -
  let ?sys2 = "trust_sys_step (sys\<lparr>ts_mem := (ts_mem sys)(i := d)\<rparr>) (j, env, Revoke t)"
  have J: "te_from_json env = J" "te_from_json env' = J" using assms(1,2) by (simp_all add: store_env_ok_def)
  have "disk_data env' (ts_file sys) = Some d" and "fst (revoke env t (manager_of j sys)) = Ok b"
    using assms(4,7) by (simp_all add: J)
  from race_run [OF assms(3) this, of cid h n tr] assms(9)
  have r: "sys' = put_manager i (register_commit env' cid h n tr (manager_of i ?sys2)) ?sys2"
    and a: "so_pc (ths' ! 1) = Answered (RevokeResult (Ok b))" by auto
  have "tm_data (manager_of i ?sys2) = d" using assms(3) by (simp add: put_manager_def)
  then have "td_approved (ts_mem sys' i) = td_approved d"
    using assms(6) by (simp add: r put_manager_def register_commit_def Let_def save_frame)
  with assms(5,10) a show ?thesis by (simp add: is_approved_fst reload_Some J)
qed

definition race_data :: trust_data where
  "race_data = demo_granted\<lparr>td_pending := fmupd ''c2'' \<lparr>pc_client_id = ''c2'', pc_hostname = ''laptop'',
     pc_device_name = ''Pad'', pc_transport = ''Direct UDP'', pc_first_seen = ''t1''\<rparr> fmempty\<rparr>"

definition race_env :: trust_env where
  "race_env = table_trust_env [(trust_default, ''E''), (demo_granted, ''G''), (race_data, ''R'')] ''t1''"

lemma race_data_distinct [simp]: "race_data \<noteq> trust_default" "race_data \<noteq> demo_granted"
  by (auto simp: race_data_def demo_granted_def trust_default_def dest: arg_cong [where f = fmdom])

lemma race_env_ok: "store_env_ok (te_from_json race_env) race_env"
  unfolding store_env_ok_def race_env_def by (auto intro: table_trust_env_ok)

lemma race_env_simps [simp]:
  "te_to_json race_env trust_default = Inr ''E''" "te_to_json race_env race_data = Inr ''R''"
  "te_from_json race_env ''G'' = Some demo_granted" "te_from_json race_env ''R'' = Some race_data"
  "te_write race_env f s = (True, Text s)" "te_now race_env = ''t1''"
  by (simp_all add: race_env_def table_trust_env_def)

theorem revocation_undone_by_race_witness:
  "\<exists>sys' ths'.
     run_store (race race_env race_env) (demo_sys\<lparr>ts_file := Text ''G''\<rparr>,
       [registering 0 ''c2'' ''laptop'' ''Pad'' ''Direct UDP'', revoking 1 ''c1'']) = (sys', ths') \<and>
     so_pc (ths' ! 1) = Answered (RevokeResult (Ok True)) \<and>
     fst (is_approved race_env ''c1'' (manager_of 0 sys'))"
proof -
  let ?sys = "demo_sys\<lparr>ts_file := Text ''G''\<rparr>"
  let ?sys2 = "trust_sys_step (?sys\<lparr>ts_mem := (ts_mem ?sys)(0 := demo_granted)\<rparr>) (1, race_env, Revoke ''c1'')"
  let ?tm = "register_commit race_env ''c2'' ''laptop'' ''Pad'' ''Direct UDP'' (manager_of 0 ?sys2)"
  have g: "parse_file (te_from_json race_env) (ts_file ?sys) = Some demo_granted" by (simp add: parse_file_def)
  have "match_id race_env (fmdom (td_approved demo_granted)) ''c1'' = Some ''c1''"
    and "demo_granted\<lparr>td_approved := fmdrop ''c1'' (td_approved demo_granted)\<rparr> = trust_default"
    by (simp_all add: match_id_def demo_granted_def trust_default_def fmdrop_fmupd_same)
  then have rv: "revoke race_env ''c1'' (manager_of 1 ?sys) =
      (Ok True, (manager_of 1 ?sys)\<lparr>tm_file := Text ''E'', tm_data := trust_default\<rparr>)"
    using g by (simp add: revoke_def reload_Some revoke_commit_def save_def Let_def)
  have "tm_data (manager_of 0 ?sys2) = demo_granted" by (simp add: put_manager_def)
  moreover have "demo_granted\<lparr>td_pending := fmupd ''c2'' \<lparr>pc_client_id = ''c2'', pc_hostname = ''laptop'',
      pc_device_name = ''Pad'', pc_transport = ''Direct UDP'', pc_first_seen = ''t1''\<rparr> (td_pending demo_granted)\<rparr> = race_data"
    by (simp add: race_data_def demo_granted_def)
  moreover have "''c2'' |\<notin>| fmdom (td_approved demo_granted)" by (simp add: demo_granted_def)
  ultimately have "tm_file ?tm = Text ''R''" "tm_data ?tm = race_data"
    by (simp_all add: register_commit_def Let_def save_def del: trust_sys_step.simps)
  then have stored: "parse_file (te_from_json race_env) (ts_file (put_manager 0 ?tm ?sys2)) =
      Some (ts_mem (put_manager 0 ?tm ?sys2) 0)"
    by (simp add: put_manager_def parse_file_def del: trust_sys_step.simps)
  have run: "run_store (race race_env race_env) (?sys,
      [registering 0 ''c2'' ''laptop'' ''Pad'' ''Direct UDP'', revoking 1 ''c1'']) =
    (put_manager 0 ?tm ?sys2, [(registering 0 ''c2'' ''laptop'' ''Pad'' ''Direct UDP'')\<lparr>so_pc := Answered Noted\<rparr>,
      (revoking 1 ''c1'')\<lparr>so_pc := Answered (RevokeResult (Ok True))\<rparr>])"
    by (rule race_run) (use g rv in simp_all)
  have "''c1'' |\<in>| fmdom (td_approved demo_granted)" by (simp add: demo_granted_def)
  from revocation_undone_by_race [OF race_env_ok race_env_ok _ g this _ rv _ run stored, of 0]
  show ?thesis unfolding run by (simp add: demo_granted_def trust_default_def del: trust_sys_step.simps)
qed

end
