(* ===== verification/UdpTypes.thy ===== *)
theory UdpTypes
  imports Transport Frame
begin

unbundle bit_operations_syntax

text \<open>
  The platform-independent part of the vendored crate \<^verbatim>\<open>patches/noq-udp\<close> (\<^verbatim>\<open>src/lib.rs\<close>),
  with what its platform modules share: ECN codepoints, the metadata of a received datagram,
  an outgoing packet and its effective segment size, the throttled log of send errors, I/O
  errors with their kind, the targets of \<^verbatim>\<open>build.rs\<close>, and the fixed-width integers in the
  byte order of the machine.

  Instants and durations are nanoseconds (\<^typ>\<open>nat\<close>); the truncated subtraction of \<^typ>\<open>nat\<close>
  is \<^verbatim>\<open>Instant::saturating_duration_since\<close>. A \<^verbatim>\<open>usize\<close> is a \<^typ>\<open>nat\<close>, and every cast to a
  narrower integer is written out.
\<close>

section \<open>Errors and results\<close>

datatype err_kind = Interrupted | WouldBlock | InvalidInput | Unsupported | OtherKind

text \<open>The error numbers the crate looks at; the others are kept apart by their number.\<close>

datatype errno = EINTR | EAGAIN | EINVAL | EIO | EMSGSIZE | ENOPROTOOPT | EOPNOTSUPP | Errno i32

datatype io_error = Os errno | Custom err_kind string

text \<open>\<^verbatim>\<open>io::Error::raw_os_error\<close> and \<^verbatim>\<open>io::Error::kind\<close>.\<close>

fun raw_os_error :: "io_error \<Rightarrow> errno option" where
  "raw_os_error (Os n) = Some n"
| "raw_os_error (Custom k s) = None"

fun error_kind :: "io_error \<Rightarrow> err_kind" where
  "error_kind (Os EINTR) = Interrupted"
| "error_kind (Os EAGAIN) = WouldBlock"
| "error_kind (Os EINVAL) = InvalidInput"
| "error_kind (Os EOPNOTSUPP) = Unsupported"
| "error_kind (Os _) = OtherKind"
| "error_kind (Custom k s) = k"

text \<open>A call gives a value, returns an I/O error, or panics.\<close>

datatype io_failure = IoErr io_error | Crash string

type_synonym 'a io = "io_failure + 'a"

definition try_then :: "'e + 'a \<Rightarrow> ('a \<Rightarrow> 'e + 'b) \<Rightarrow> 'e + 'b" where
  "try_then r f = (case r of Inl e \<Rightarrow> Inl e | Inr x \<Rightarrow> f x)"

lemma try_then_simps [simp]: "try_then (Inl e) f = Inl e" "try_then (Inr x) f = f x"
  by (simp_all add: try_then_def)

lemma try_then_Inr_iff: "try_then r f = Inr y \<longleftrightarrow> (\<exists>x. r = Inr x \<and> f x = Inr y)"
  by (cases r) auto

lemma try_then_Inl_iff:
  "try_then r f = Inl e \<longleftrightarrow> r = Inl e \<or> (\<exists>x. r = Inr x \<and> f x = Inl e)"
  by (cases r) auto

section \<open>Targets\<close>

datatype target_os =
    Linux | Android | FreeBSD | OpenBSD | NetBSD | DragonFly
  | MacOS | IOS | TvOS | VisionOS | WatchOS | Solaris | Illumos | Redox | OtherUnix

text \<open>The aliases of \<^verbatim>\<open>build.rs\<close>, and the pair that several attributes name together.\<close>

definition apple :: "target_os \<Rightarrow> bool" where
  "apple t \<longleftrightarrow> t \<in> {MacOS, IOS, TvOS, VisionOS, WatchOS}"

definition bsd :: "target_os \<Rightarrow> bool" where
  "bsd t \<longleftrightarrow> t \<in> {FreeBSD, OpenBSD, NetBSD}"

definition solarish :: "target_os \<Rightarrow> bool" where
  "solarish t \<longleftrightarrow> t \<in> {Solaris, Illumos}"

definition linux_like :: "target_os \<Rightarrow> bool" where
  "linux_like t \<longleftrightarrow> t \<in> {Linux, Android}"

lemmas target_defs = apple_def bsd_def solarish_def linux_like_def

section \<open>Explicit congestion notification\<close>

datatype ecn_codepoint = Ect0 | Ect1 | Ce

text \<open>The discriminants of the enumeration (\<^verbatim>\<open>repr(u8)\<close>).\<close>

fun ecn_repr :: "ecn_codepoint \<Rightarrow> u8" where
  "ecn_repr Ect0 = 2"
| "ecn_repr Ect1 = 1"
| "ecn_repr Ce = 3"

definition ecn_from_bits :: "u8 \<Rightarrow> ecn_codepoint option" where
  "ecn_from_bits x =
     (let b = x AND 3 in
      if b = 2 then Some Ect0 else if b = 1 then Some Ect1 else if b = 3 then Some Ce else None)"

text \<open>\<^verbatim>\<open>transmit.ecn.map_or(0, |x| x as c_int)\<close>.\<close>

definition ecn_int :: "ecn_codepoint option \<Rightarrow> i32" where
  "ecn_int e = (case e of None \<Rightarrow> 0 | Some c \<Rightarrow> ucast (ecn_repr c))"

lemma ecn_from_repr [simp]: "ecn_from_bits (ecn_repr c) = Some c"
  by (cases c) (simp_all add: ecn_from_bits_def)

lemma ecn_from_zero [simp]: "ecn_from_bits 0 = None"
  by (simp add: ecn_from_bits_def)

lemma ecn_from_int [simp]: "ecn_from_bits (ucast (ecn_int e)) = e"
proof (cases e)
  case (Some c)
  then show ?thesis by (cases c) (simp_all add: ecn_int_def ecn_from_bits_def)
qed (simp add: ecn_int_def)

text \<open>Only the two low bits count: the six bits of the traffic class above them are masked out.\<close>

lemma ecn_from_bits_masked: "ecn_from_bits (x AND 3) = ecn_from_bits x"
  by (simp add: ecn_from_bits_def and.assoc)

section \<open>Datagrams\<close>

record recv_meta =
  rm_addr :: socket_addr
  rm_len :: nat
  rm_stride :: nat
  rm_ecn :: "ecn_codepoint option"
  rm_dst_ip :: "ip_addr option"
  rm_interface_index :: "u32 option"
  rm_timestamp :: "nat option"

definition recv_meta_default :: recv_meta where
  "recv_meta_default =
     \<lparr> rm_addr = SocketV6 (replicate 8 0) 0 0 0, rm_len = 0, rm_stride = 0, rm_ecn = None,
       rm_dst_ip = None, rm_interface_index = None, rm_timestamp = None \<rparr>"

record transmit =
  tx_destination :: socket_addr
  tx_ecn :: "ecn_codepoint option"
  tx_contents :: bytes
  tx_segment_size :: "nat option"
  tx_src_ip :: "ip_addr option"

definition effective_segment_size :: "transmit \<Rightarrow> nat option" where
  "effective_segment_size t =
     (case tx_segment_size t of
        None \<Rightarrow> None
      | Some n \<Rightarrow> if length (tx_contents t) \<le> n then None else Some n)"

text \<open>An IPv6 address has eight groups.\<close>

definition ip_ok :: "ip_addr \<Rightarrow> bool" where
  "ip_ok ip \<longleftrightarrow> (case ip of IpV4 a \<Rightarrow> True | IpV6 g \<Rightarrow> length g = 8)"

definition transmit_ok :: "transmit \<Rightarrow> bool" where
  "transmit_ok t \<longleftrightarrow> (case tx_src_ip t of None \<Rightarrow> True | Some ip \<Rightarrow> ip_ok ip)"

text \<open>\<^verbatim>\<open>SocketAddr::ip\<close> and \<^verbatim>\<open>Ipv6Addr::to_ipv4_mapped\<close>, with the test of the senders built on them.\<close>

fun socket_ip :: "socket_addr \<Rightarrow> ip_addr" where
  "socket_ip (SocketV4 a p) = IpV4 a"
| "socket_ip (SocketV6 g p fi si) = IpV6 g"

definition ipv4_mapped :: "u16 list \<Rightarrow> bool" where
  "ipv4_mapped g \<longleftrightarrow> take 6 g = [0, 0, 0, 0, 0, 0xFFFF]"

definition dest_is_ipv4 :: "transmit \<Rightarrow> bool" where
  "dest_is_ipv4 t \<longleftrightarrow>
     (case socket_ip (tx_destination t) of IpV4 a \<Rightarrow> True | IpV6 g \<Rightarrow> ipv4_mapped g)"

section \<open>The throttled error log\<close>

definition IO_ERROR_LOG_INTERVAL :: nat where
  "IO_ERROR_LOG_INTERVAL = 60 * 10 ^ 9"

text \<open>
  \<open>error_log\<close> is the instant kept in the mutex and the lines written so far. The log is a
  feature of the crate: without it \<^verbatim>\<open>log_sendmsg_error\<close> does nothing.
\<close>

record error_log =
  last_send_error :: nat
  error_lines :: "(nat \<times> io_error \<times> transmit) list"

definition log_sendmsg_error ::
  "bool \<Rightarrow> nat \<Rightarrow> io_error \<Rightarrow> transmit \<Rightarrow> error_log \<Rightarrow> error_log" where
  "log_sendmsg_error enabled now err t l =
     (if enabled \<and> IO_ERROR_LOG_INTERVAL < now - last_send_error l
      then l \<lparr> last_send_error := now, error_lines := error_lines l @ [(now, err, t)] \<rparr>
      else l)"

text \<open>\<^verbatim>\<open>now.checked_sub(2 * IO_ERROR_LOG_INTERVAL).unwrap_or(now)\<close>.\<close>

definition error_log_new :: "nat \<Rightarrow> error_log" where
  "error_log_new now =
     \<lparr> last_send_error =
         (if 2 * IO_ERROR_LOG_INTERVAL \<le> now then now - 2 * IO_ERROR_LOG_INTERVAL else now),
       error_lines = [] \<rparr>"

definition log_run :: "(nat \<times> io_error \<times> transmit) list \<Rightarrow> error_log \<Rightarrow> error_log" where
  "log_run es l = foldl (\<lambda>l (now, err, t). log_sendmsg_error True now err t l) l es"


lemma log_run_simps [simp]:
  "log_run [] l = l"
  "log_run ((now, err, t) # es) l = log_run es (log_sendmsg_error True now err t l)"
  by (simp_all add: log_run_def)

text \<open>
  The lines keep the distance of the interval from each other and from the instant in the
  mutex, and that instant never runs ahead of the clock.
\<close>

definition spaced :: "nat list \<Rightarrow> bool" where
  "spaced ts \<longleftrightarrow> sorted_wrt (\<lambda>a b. a + IO_ERROR_LOG_INTERVAL < b) ts"

definition error_log_inv :: "error_log \<Rightarrow> bool" where
  "error_log_inv l \<longleftrightarrow> spaced (map fst (error_lines l)) \<and>
     (\<forall>t \<in> fst ` set (error_lines l). t \<le> last_send_error l)"

lemma error_log_new_inv: "error_log_inv (error_log_new now)"
  by (simp add: error_log_inv_def error_log_new_def spaced_def)

lemma log_sendmsg_error_inv:
  "error_log_inv l \<Longrightarrow> error_log_inv (log_sendmsg_error en now err t l)"
  by (force simp: error_log_inv_def log_sendmsg_error_def spaced_def sorted_wrt_append)

interpretation error_log: invariant_step
  "\<lambda>l (now, err, t). log_sendmsg_error True now err t l" "\<lambda>_. True" error_log_inv
  by unfold_locales (auto intro: log_sendmsg_error_inv)

lemma log_run_inv: "error_log_inv l \<Longrightarrow> error_log_inv (log_run es l)"
  unfolding log_run_def by (rule error_log.run_inv) auto

text \<open>
  Send errors are logged sparsely whatever the clock readings are: after any number of
  failing sends, each two lines of the log are more than a minute apart, in order. The
  comment on the function asks for at least a minute; the comparison in the code is strict.
\<close>

theorem error_log_spaced: "spaced (map fst (error_lines (log_run es (error_log_new now))))"
  using log_run_inv [OF error_log_new_inv] by (simp add: error_log_inv_def)

text \<open>
  A socket opened when the clock had at least two minutes logs its first error at once; one
  opened earlier stays silent until a minute after its creation.
\<close>

lemma first_error_logged:
  assumes "now0 \<le> now"
  shows "error_lines (log_sendmsg_error True now err t (error_log_new now0)) =
    (if 2 * IO_ERROR_LOG_INTERVAL \<le> now0 \<or> now0 + IO_ERROR_LOG_INTERVAL < now
     then [(now, err, t)] else [])"
  using assms by (auto simp: log_sendmsg_error_def error_log_new_def IO_ERROR_LOG_INTERVAL_def)

section \<open>Integers in memory\<close>

text \<open>
  A native integer of the machine as bytes; \<open>le\<close> says that the machine is little-endian.
  \<open>ctype\<close> collects what reading and writing a C type at an address needs
  (\<^verbatim>\<open>size_of\<close>, \<^verbatim>\<open>ptr::write_unaligned\<close>, \<^verbatim>\<open>ptr::read_unaligned\<close>).
\<close>

record 'a ctype =
  c_size :: nat
  c_put :: "'a \<Rightarrow> bytes"
  c_get :: "bytes \<Rightarrow> 'a"

text \<open>The values of the type that the program uses are stored in its size and read back.\<close>

definition ctype_ok_on :: "('a \<Rightarrow> bool) \<Rightarrow> 'a ctype \<Rightarrow> bool" where
  "ctype_ok_on V c \<longleftrightarrow>
     0 < c_size c \<and> (\<forall>v. V v \<longrightarrow> length (c_put c v) = c_size c \<and> c_get c (c_put c v) = v)"

abbreviation ctype_ok :: "'a ctype \<Rightarrow> bool" where
  "ctype_ok \<equiv> ctype_ok_on (\<lambda>_. True)"

lemma ctype_okD:
  assumes "ctype_ok_on V c"
  shows "0 < c_size c" "V v \<Longrightarrow> length (c_put c v) = c_size c" "V v \<Longrightarrow> c_get c (c_put c v) = v"
  using assms by (auto simp: ctype_ok_on_def)

definition ne_order :: "bool \<Rightarrow> bytes \<Rightarrow> bytes" where
  "ne_order le bs = (if le then rev bs else bs)"

lemma ne_order_invol [simp]: "ne_order le (ne_order le bs) = bs"
  by (simp add: ne_order_def)

lemma length_ne_order [simp]: "length (ne_order le bs) = length bs"
  by (simp add: ne_order_def)

fun be16 :: "u16 \<Rightarrow> bytes" where
  "be16 w = [ucast (drop_bit 8 w), ucast w]"

fun of_be16 :: "bytes \<Rightarrow> u16" where
  "of_be16 (a # b # _) = u16_from_be a b"
| "of_be16 _ = 0"

fun of_be32_list :: "bytes \<Rightarrow> u32" where
  "of_be32_list (a # b # c # d # _) = of_be32 a b c d"
| "of_be32_list _ = 0"

lemma of_be16_be16: "u16_from_be (ucast (drop_bit 8 w)) (ucast w) = w"
proof -
  have w: "unat w < 65536" using unsigned_less [of w, where 'a = nat] by simp
  have "unat (ucast (drop_bit 8 w) :: u8) = unat w div 256"
    using w by (simp add: unsigned_ucast_eq drop_bit_eq_div take_bit_eq_mod unat_div less_mult_imp_div_less)
  moreover have "unat (ucast w :: u8) = unat w mod 256"
    by (simp add: unsigned_ucast_eq take_bit_eq_mod)
  ultimately show ?thesis
    by (simp add: u16_from_be_def)
qed

lemma of_be32_list_be32 [simp]: "of_be32_list (be32 w) = w"
  by (simp add: be32_def of_be32_be32)

definition uchar_type :: "u8 ctype" where
  "uchar_type = \<lparr> c_size = 1, c_put = \<lambda>v. [v], c_get = hd \<rparr>"

definition ushort_type :: "bool \<Rightarrow> u16 ctype" where
  "ushort_type le =
     \<lparr> c_size = 2, c_put = \<lambda>v. ne_order le (be16 v), c_get = \<lambda>bs. of_be16 (ne_order le bs) \<rparr>"

definition int_type :: "bool \<Rightarrow> u32 ctype" where
  "int_type le =
     \<lparr> c_size = 4, c_put = \<lambda>v. ne_order le (be32 v), c_get = \<lambda>bs. of_be32_list (ne_order le bs) \<rparr>"

lemma native_ctypes_ok [simp]:
  "ctype_ok uchar_type" "ctype_ok (ushort_type le)" "ctype_ok (int_type le)"
  by (auto simp: ctype_ok_on_def uchar_type_def ushort_type_def int_type_def of_be16_be16)

lemma c_size_native [simp]:
  "c_size uchar_type = 1" "c_size (ushort_type le) = 2" "c_size (int_type le) = 4"
  by (simp_all add: uchar_type_def ushort_type_def int_type_def)

lemma native_put_get [simp]:
  "length (c_put uchar_type b) = 1" "c_get uchar_type (c_put uchar_type b) = b"
  "length (c_put (ushort_type le) s) = 2" "c_get (ushort_type le) (c_put (ushort_type le) s) = s"
  "length (c_put (int_type le) i) = 4" "c_get (int_type le) (c_put (int_type le) i) = i"
  using ctype_okD(2,3) [OF native_ctypes_ok(1)] ctype_okD(2,3) [OF native_ctypes_ok(2)]
    ctype_okD(2,3) [OF native_ctypes_ok(3)] by simp_all

text \<open>
  \<^verbatim>\<open>u32::from_ne_bytes(v4.octets())\<close> and its inverse: an IPv4 address in a structure of the
  system is the word whose bytes in memory are the octets.
\<close>

fun s_addr :: "bool \<Rightarrow> ipv4_addr \<Rightarrow> u32" where
  "s_addr le (Ipv4 a b c d) = of_be32_list (ne_order le [a, b, c, d])"

definition ipv4_from_s_addr :: "bool \<Rightarrow> u32 \<Rightarrow> ipv4_addr" where
  "ipv4_from_s_addr le w =
     (case ne_order le (be32 w) of
        [a, b, c, d] \<Rightarrow> Ipv4 a b c d
      | _ \<Rightarrow> Ipv4 0 0 0 0)"

lemma ipv4_from_s_addr_inverse [simp]: "ipv4_from_s_addr le (s_addr le ip) = ip"
  by (cases ip) (simp add: ipv4_from_s_addr_def ne_order_def be32_of_be32)

text \<open>\<^verbatim>\<open>Ipv6Addr::octets\<close> and \<^verbatim>\<open>Ipv6Addr::from([u8; 16])\<close>.\<close>

definition octets6 :: "u16 list \<Rightarrow> bytes" where
  "octets6 g = concat (map be16 g)"

fun groups6 :: "bytes \<Rightarrow> u16 list" where
  "groups6 (a # b # rest) = u16_from_be a b # groups6 rest"
| "groups6 _ = []"

lemma groups6_octets6 [simp]: "groups6 (octets6 g) = g"
  by (induction g) (simp_all add: octets6_def of_be16_be16)

lemma length_octets6 [simp]: "length (octets6 g) = 2 * length g"
  by (induction g) (simp_all add: octets6_def)

end
