(* ===== verification/Cmsg.thy ===== *)
theory Cmsg
  imports UdpTypes
begin

text \<open>
  Control messages (\<^verbatim>\<open>src/cmsg/mod.rs\<close> of \<^verbatim>\<open>patches/noq-udp\<close>): the encoder that appends them
  to the control buffer of a message header, the iterator that walks them, and the typed
  read of a payload. The two traits the code is generic over, \<^verbatim>\<open>MsgHdr\<close> and \<^verbatim>\<open>CMsgHdr\<close>, are
  the fields of the record \<open>cmsg_abi\<close>; pointers into the control buffer are offsets from its
  start, a null pointer is \<^const>\<open>None\<close>.

  What the encoder and the iterator rely on is the locale \<open>cmsg_interface\<close>. On Unix the
  operations are macros of the C library and stay a parameter; on Windows they are code of
  the crate, and \<open>CmsgWindows\<close> interprets the locale on them.
\<close>

section \<open>Headers and the operations on them\<close>

record cmsghdr =
  cm_level :: i32
  cm_type :: i32
  cm_len :: nat

text \<open>The message header of a send or receive call, with the buffers it points to.\<close>

record msg_hdr =
  mh_name :: "socket_addr option"
  mh_iov :: bytes
  mh_control :: "bytes option"
  mh_controllen :: nat

record cmsg_abi =
  abi_hdr_size :: nat
  abi_put_hdr :: "cmsghdr \<Rightarrow> bytes"
  abi_get_hdr :: "bytes \<Rightarrow> cmsghdr"
  abi_data_offset :: nat
  abi_cmsg_len :: "nat \<Rightarrow> nat"
  abi_cmsg_space :: "nat \<Rightarrow> nat"
  abi_first :: "msg_hdr \<Rightarrow> nat option"
  abi_next :: "msg_hdr \<Rightarrow> nat \<Rightarrow> nat option"
  abi_set_control_len :: "msg_hdr \<Rightarrow> nat \<Rightarrow> msg_hdr"

definition control_bytes :: "msg_hdr \<Rightarrow> bytes" where
  "control_bytes h = (case mh_control h of None \<Rightarrow> [] | Some b \<Rightarrow> b)"

definition put_bytes :: "nat \<Rightarrow> bytes \<Rightarrow> bytes \<Rightarrow> bytes" where
  "put_bytes at bs buf = take at buf @ bs @ drop (at + length bs) buf"

definition cmsg_at :: "cmsg_abi \<Rightarrow> msg_hdr \<Rightarrow> nat \<Rightarrow> cmsghdr" where
  "cmsg_at A h at = abi_get_hdr A (take (abi_hdr_size A) (drop at (control_bytes h)))"

section \<open>The encoder\<close>

record encoder =
  en_hdr :: msg_hdr
  en_cmsg :: "nat option"
  en_len :: nat

definition encoder_new :: "cmsg_abi \<Rightarrow> msg_hdr \<Rightarrow> encoder" where
  "encoder_new A h = \<lparr> en_hdr = h, en_cmsg = abi_first A h, en_len = 0 \<rparr>"

text \<open>\<^verbatim>\<open>Encoder::push\<close>; \<open>v\<close> are the bytes of the value, \<^verbatim>\<open>size_of_val\<close> their number.\<close>

definition encoder_push ::
  "cmsg_abi \<Rightarrow> i32 \<times> i32 \<Rightarrow> bytes \<Rightarrow> encoder \<Rightarrow> encoder io" where
  "encoder_push A lt v e =
     (let space = abi_cmsg_space A (length v) in
      if mh_controllen (en_hdr e) < en_len e + space
      then Inl (Crash (''control message buffer too small. Required: '' @
                       show_nat (en_len e + space) @ '', Available: '' @
                       show_nat (mh_controllen (en_hdr e))))
      else
        (case en_cmsg e of
           None \<Rightarrow> Inl (Crash ''no control buffer space remaining'')
         | Some at \<Rightarrow>
             let c = \<lparr> cm_level = fst lt, cm_type = snd lt,
                       cm_len = abi_cmsg_len A (length v) \<rparr>;
                 b1 = put_bytes at (abi_put_hdr A c) (control_bytes (en_hdr e));
                 b2 = put_bytes (at + abi_data_offset A) v b1;
                 h = en_hdr e \<lparr> mh_control := Some b2 \<rparr>
             in Inr \<lparr> en_hdr = h, en_cmsg = abi_next A h at, en_len = en_len e + space \<rparr>))"

text \<open>\<^verbatim>\<open>Drop::drop\<close>, which \<^verbatim>\<open>finish\<close> delegates to.\<close>

definition encoder_finish :: "cmsg_abi \<Rightarrow> encoder \<Rightarrow> msg_hdr" where
  "encoder_finish A e = abi_set_control_len A (en_hdr e) (en_len e)"

type_synonym cmsg = "(i32 \<times> i32) \<times> bytes"

fun push_all :: "cmsg_abi \<Rightarrow> cmsg list \<Rightarrow> encoder \<Rightarrow> encoder io" where
  "push_all A [] e = Inr e"
| "push_all A ((lt, v) # ms) e = try_then (encoder_push A lt v e) (push_all A ms)"

lemma push_all_append:
  "push_all A (ms @ ns) e = try_then (push_all A ms e) (push_all A ns)"
  by (induction A ms e rule: push_all.induct) (auto simp: try_then_def split: sum.splits)

section \<open>The iterator\<close>

text \<open>
  \<^verbatim>\<open>Iter::next\<close>: the current message and the iterator after it. \<open>fast\<close> is \<^verbatim>\<open>cfg(apple_fast)\<close>,
  where a message shorter than a header ends the chain.
\<close>

definition iter_new :: "cmsg_abi \<Rightarrow> msg_hdr \<Rightarrow> nat option" where
  "iter_new A h = abi_first A h"

definition iter_next ::
  "cmsg_abi \<Rightarrow> bool \<Rightarrow> msg_hdr \<Rightarrow> nat option \<Rightarrow> nat option \<times> nat option" where
  "iter_next A fast h cur =
     (case cur of
        None \<Rightarrow> (None, None)
      | Some at \<Rightarrow>
          if fast \<and> cm_len (cmsg_at A h at) < abi_hdr_size A
          then (None, abi_next A h at)
          else (Some at, abi_next A h at))"

text \<open>
  The messages a \<^verbatim>\<open>for\<close> loop over the iterator visits. The chain follows lengths found in
  the buffer, so the loop may go on forever; then the value is \<^const>\<open>None\<close>.
\<close>

partial_function (option) iter_collect ::
  "cmsg_abi \<Rightarrow> bool \<Rightarrow> msg_hdr \<Rightarrow> nat option \<Rightarrow> nat list option" where
  "iter_collect A fast h cur =
     (case iter_next A fast h cur of
        (None, nx) \<Rightarrow> Some []
      | (Some at, nx) \<Rightarrow> Option.bind (iter_collect A fast h nx) (\<lambda>ats. Some (at # ats)))"

section \<open>Reading a payload\<close>

text \<open>
  \<^verbatim>\<open>cmsg::decode::<T, C>\<close>: \<open>dbg\<close> says that debug assertions are compiled in; without them a
  length that does not fit the type goes unnoticed.
\<close>

definition cmsg_decode ::
  "cmsg_abi \<Rightarrow> bool \<Rightarrow> 'a ctype \<Rightarrow> msg_hdr \<Rightarrow> nat \<Rightarrow> 'a io" where
  "cmsg_decode A dbg T h at =
     (if dbg \<and> cm_len (cmsg_at A h at) \<noteq> abi_cmsg_len A (c_size T)
      then Inl (Crash ''assertion `left == right` failed'')
      else Inr (c_get T (take (c_size T) (drop (at + abi_data_offset A) (control_bytes h)))))"

text \<open>The payload a message carries according to its own length.\<close>

definition cmsg_payload :: "cmsg_abi \<Rightarrow> msg_hdr \<Rightarrow> nat \<Rightarrow> bytes" where
  "cmsg_payload A h at =
     take (cm_len (cmsg_at A h at) - abi_data_offset A)
          (drop (at + abi_data_offset A) (control_bytes h))"

definition cmsg_view :: "cmsg_abi \<Rightarrow> msg_hdr \<Rightarrow> nat \<Rightarrow> cmsg" where
  "cmsg_view A h at =
     ((cm_level (cmsg_at A h at), cm_type (cmsg_at A h at)), cmsg_payload A h at)"

text \<open>A payload that is not empty and whose length fits the fields of a header.\<close>

definition payload_ok :: "cmsg \<Rightarrow> bool" where
  "payload_ok m \<longleftrightarrow> snd m \<noteq> [] \<and> length (snd m) < 2 ^ 30"

lemma payload_ok_ctype:
  assumes "ctype_ok_on V T" and "c_size T \<le> 64" and "V v"
  shows "payload_ok (lt, c_put T v)"
  using assms(2,3) ctype_okD(1,2) [OF assms(1)] by (auto simp: payload_ok_def simp flip: length_greater_0_conv)

text \<open>The control messages of a header, as far as a receiver of it can see.\<close>

definition control_messages :: "cmsg_abi \<Rightarrow> msg_hdr \<Rightarrow> cmsg list option" where
  "control_messages A h =
     map_option (map (cmsg_view A h)) (iter_collect A False h (iter_new A h))"

section \<open>Buffer arithmetic\<close>

lemma put_bytes_here [simp]:
  "put_bytes (length us) bs (us @ ws) = us @ bs @ drop (length bs) ws"
  by (simp add: put_bytes_def)

lemma put_bytes_here2:
  "put_bytes (length us + n) bs (us @ ws) = us @ put_bytes n bs ws"
  by (simp add: put_bytes_def add.assoc)

lemma length_put_bytes: "at + length bs \<le> length b \<Longrightarrow> length (put_bytes at bs b) = length b"
  by (simp add: put_bytes_def)

lemma control_bytes_update [simp]:
  "control_bytes (h \<lparr> mh_control := Some b \<rparr>) = b"
  "control_bytes (h \<lparr> mh_controllen := n \<rparr>) = control_bytes h"
  by (simp_all add: control_bytes_def)

section \<open>The interface\<close>

locale cmsg_interface =
  fixes A :: cmsg_abi
  assumes hdr_size: "0 < abi_hdr_size A" "abi_hdr_size A \<le> abi_data_offset A"
    and put_hdr_length: "length (abi_put_hdr A c) = abi_hdr_size A"
    and get_put_hdr: "cm_len c < 2 ^ 31 \<Longrightarrow> abi_get_hdr A (abi_put_hdr A c) = c"
    and get_zero_hdr: "cm_len (abi_get_hdr A (replicate (abi_hdr_size A) 0)) = 0"
    and data_small: "abi_data_offset A < 2 ^ 30"
    and len_offset: "n < 2 ^ 30 \<Longrightarrow> abi_cmsg_len A n = abi_data_offset A + n"
    and len_space: "n < 2 ^ 30 \<Longrightarrow> abi_cmsg_len A n \<le> abi_cmsg_space A n"
    and first_some: "mh_control h = Some b \<Longrightarrow> abi_hdr_size A \<le> mh_controllen h \<Longrightarrow>
      abi_first A h = Some 0"
    and first_none: "mh_controllen h < abi_hdr_size A \<Longrightarrow> abi_first A h = None"
    and next_some: "mh_control h = Some b \<Longrightarrow> mh_controllen h \<le> length b \<Longrightarrow>
      mh_controllen h < 2 ^ 31 \<Longrightarrow>
      n < 2 ^ 30 \<Longrightarrow> cm_len (cmsg_at A h at) = abi_cmsg_len A n \<Longrightarrow>
      at + abi_cmsg_space A n + abi_hdr_size A < mh_controllen h \<Longrightarrow>
      cm_len (cmsg_at A h (at + abi_cmsg_space A n)) = 0 \<or>
        (\<exists>m < 2 ^ 30. cm_len (cmsg_at A h (at + abi_cmsg_space A n)) = abi_cmsg_len A m \<and>
             at + abi_cmsg_space A n + abi_cmsg_space A m \<le> mh_controllen h) \<Longrightarrow>
      abi_next A h at = Some (at + abi_cmsg_space A n)"
    and next_none: "mh_control h = Some b \<Longrightarrow> mh_controllen h \<le> length b \<Longrightarrow>
      mh_controllen h < 2 ^ 31 \<Longrightarrow>
      n < 2 ^ 30 \<Longrightarrow> cm_len (cmsg_at A h at) = abi_cmsg_len A n \<Longrightarrow>
      mh_controllen h < at + abi_cmsg_space A n + abi_hdr_size A \<Longrightarrow>
      at + abi_cmsg_space A n \<le> mh_controllen h \<Longrightarrow>
      abi_next A h at = None"
    and set_control_len: "0 < n \<Longrightarrow> n < 2 ^ 31 \<Longrightarrow> abi_set_control_len A h n = h \<lparr> mh_controllen := n \<rparr>"
    and set_control_len_zero:
      "\<exists>c. abi_set_control_len A h 0 = h \<lparr> mh_control := c, mh_controllen := 0 \<rparr>"
begin

lemma set_control_len_fields:
  assumes "n < 2 ^ 31"
  shows "mh_controllen (abi_set_control_len A h n) = n"
    and "mh_name (abi_set_control_len A h n) = mh_name h"
    and "mh_iov (abi_set_control_len A h n) = mh_iov h"
proof -
  obtain c where "abi_set_control_len A h n = h \<lparr> mh_control := c, mh_controllen := n \<rparr>"
  proof (cases n)
    case 0
    with set_control_len_zero [of h] that show ?thesis by blast
  next
    case (Suc k)
    then have "abi_set_control_len A h n = h \<lparr> mh_control := mh_control h, mh_controllen := n \<rparr>"
      using set_control_len [of n h] assms by simp
    with that show ?thesis .
  qed
  then show "mh_controllen (abi_set_control_len A h n) = n"
    "mh_name (abi_set_control_len A h n) = mh_name h" "mh_iov (abi_set_control_len A h n) = mh_iov h"
    by simp_all
qed

text \<open>
  \<open>stands b at m\<close>: the buffer \<open>b\<close> has the header and the payload of the message \<open>m\<close> at
  offset \<open>at\<close>. What is between the payload and the next message, and between the header and
  the payload, does not matter.
\<close>

definition header :: "cmsg \<Rightarrow> cmsghdr" where
  "header m = \<lparr> cm_level = fst (fst m), cm_type = snd (fst m),
                cm_len = abi_cmsg_len A (length (snd m)) \<rparr>"

definition space :: "cmsg \<Rightarrow> nat" where
  "space m = abi_cmsg_space A (length (snd m))"

definition space_of :: "cmsg list \<Rightarrow> nat" where
  "space_of ms = sum_list (map space ms)"

definition stands :: "bytes \<Rightarrow> nat \<Rightarrow> cmsg \<Rightarrow> bool" where
  "stands b at m \<longleftrightarrow>
     take (abi_hdr_size A) (drop at b) = abi_put_hdr A (header m) \<and>
     take (length (snd m)) (drop (at + abi_data_offset A) b) = snd m"

fun standing :: "bytes \<Rightarrow> nat \<Rightarrow> cmsg list \<Rightarrow> bool" where
  "standing b at [] \<longleftrightarrow> True"
| "standing b at (m # ms) \<longleftrightarrow> stands b at m \<and> standing b (at + space m) ms"

lemma space_of_simps [simp]:
  "space_of [] = 0" "space_of (m # ms) = space m + space_of ms"
  "space_of (ms @ ns) = space_of ms + space_of ns"
  by (simp_all add: space_of_def)

lemma space_holds:
  assumes "payload_ok m"
  shows "abi_data_offset A + length (snd m) \<le> space m"
  using assms len_offset [of "length (snd m)"] len_space [of "length (snd m)"]
  unfolding space_def payload_ok_def by linarith

lemma header_len: "payload_ok m \<Longrightarrow> cm_len (header m) = abi_data_offset A + length (snd m)"
  by (simp add: header_def len_offset payload_ok_def)

lemma get_put_header: "payload_ok m \<Longrightarrow> abi_get_hdr A (abi_put_hdr A (header m)) = header m"
  using data_small by (intro get_put_hdr) (simp add: header_len, simp add: payload_ok_def)

lemma hdr_le_space: "payload_ok m \<Longrightarrow> abi_hdr_size A < space m"
  using hdr_size space_holds [of m] by (cases "snd m") (auto simp: payload_ok_def)

lemma standing_append:
  "standing b at (ms @ ns) \<longleftrightarrow> standing b at ms \<and> standing b (at + space_of ms) ns"
  by (induction ms arbitrary: at) (auto simp: add.assoc)

text \<open>Reading a message in place.\<close>

lemma cmsg_at_stands:
  assumes "stands (control_bytes h) at m" and "payload_ok m"
  shows "cmsg_at A h at = header m"
  using assms by (simp add: cmsg_at_def stands_def get_put_header)

lemma cmsg_view_stands:
  assumes "stands (control_bytes h) at m" and "payload_ok m"
  shows "cmsg_view A h at = m"
  using assms(1)
  by (simp add: cmsg_view_def cmsg_payload_def cmsg_at_stands [OF assms] header_len [OF assms(2)]
      stands_def) (simp add: header_def)

lemma cmsg_decode_stands:
  assumes "stands (control_bytes h) at (lt, c_put T v)" and "payload_ok (lt, c_put T v)"
    and "ctype_ok_on V T" and "V v"
  shows "cmsg_decode A dbg T h at = Inr v"
  using assms(1) cmsg_at_stands [OF assms(1,2)]
  by (simp add: cmsg_decode_def stands_def header_def ctype_okD [OF assms(3)] assms(4))

text \<open>
  Writing a message where it fits: it stands there, the messages before it stay, and the
  bytes behind it are as they were.
\<close>

definition put_cmsg :: "nat \<Rightarrow> cmsg \<Rightarrow> bytes \<Rightarrow> bytes" where
  "put_cmsg at m b =
     put_bytes (at + abi_data_offset A) (snd m) (put_bytes at (abi_put_hdr A (header m)) b)"

lemma put_cmsg_split:
  assumes "at + space m \<le> length b" and "payload_ok m"
  shows "\<exists>gap. length gap = abi_data_offset A - abi_hdr_size A \<and>
    put_cmsg at m b = take at b @ abi_put_hdr A (header m) @ gap @ snd m @
      drop (at + abi_data_offset A + length (snd m)) b"
proof -
  let ?H = "abi_hdr_size A" and ?D = "abi_data_offset A"
  let ?gap = "take (?D - ?H) (drop (at + ?H) b)"
  have le: "?H \<le> ?D" "at + ?D + length (snd m) \<le> length b"
    using hdr_size(2) space_holds [OF assms(2)] assms(1) by linarith+
  have "put_cmsg at m b = take at b @ abi_put_hdr A (header m) @ ?gap @ snd m @
      drop (at + ?D + length (snd m)) b"
    using le by (simp add: put_cmsg_def put_bytes_def put_hdr_length min_def add.commute add.left_commute)
  moreover have "length ?gap = ?D - ?H" using le by simp
  ultimately show ?thesis by blast
qed

lemma put_cmsg_stands:
  assumes "at + space m \<le> length b" and "payload_ok m"
  shows "length (put_cmsg at m b) = length b" and "stands (put_cmsg at m b) at m"
    and "take at (put_cmsg at m b) = take at b"
    and "at + space m \<le> k \<Longrightarrow> drop k (put_cmsg at m b) = drop k b"
proof -
  obtain gap where gap: "length gap = abi_data_offset A - abi_hdr_size A"
    and w: "put_cmsg at m b = take at b @ abi_put_hdr A (header m) @ gap @ snd m @
      drop (at + abi_data_offset A + length (snd m)) b"
    using put_cmsg_split [OF assms] by blast
  have le: "abi_hdr_size A \<le> abi_data_offset A" "at + abi_data_offset A + length (snd m) \<le> length b"
      "at \<le> length b"
    using hdr_size(2) space_holds [OF assms(2)] assms(1) by linarith+
  show "length (put_cmsg at m b) = length b"
    using le gap by (auto simp: w put_hdr_length min_def)
  show "stands (put_cmsg at m b) at m"
    using le gap by (simp add: w stands_def put_hdr_length min_def)
  show "take at (put_cmsg at m b) = take at b"
    using le by (simp add: w min_def)
  show "drop k (put_cmsg at m b) = drop k b" if "at + space m \<le> k"
    using le gap that space_holds [OF assms(2)] by (simp add: w put_hdr_length min_def)
qed

lemma stands_cong:
  assumes "take n b = take n b'" and "at + space m \<le> n" and "payload_ok m"
  shows "stands b at m \<longleftrightarrow> stands b' at m"
proof -
  have sub: "take k (drop j b) = take k (drop j b')" if "j + k \<le> n" for j k
  proof -
    have "take k (drop j c) = take k (drop j (take n c))" for c :: bytes
      using that by (simp add: take_drop min_def add.commute)
    with assms(1) show ?thesis by metis
  qed
  have "at + abi_hdr_size A \<le> n" "at + abi_data_offset A + length (snd m) \<le> n"
    using hdr_size(2) space_holds [OF assms(3)] assms(2) by linarith+
  with sub show ?thesis by (simp add: stands_def)
qed

lemma standing_cong:
  assumes "take n b = take n b'" and "at + space_of ms \<le> n" and "\<forall>m \<in> set ms. payload_ok m"
  shows "standing b at ms \<longleftrightarrow> standing b' at ms"
  using assms by (induction ms arbitrary: at) (simp_all add: stands_cong [OF assms(1)] add.assoc)

text \<open>The bytes at \<open>at\<close> are no obstacle to going there: zeros, or a message that still fits.\<close>

definition passable :: "nat \<Rightarrow> bytes \<Rightarrow> nat \<Rightarrow> bool" where
  "passable N b at \<longleftrightarrow>
     (let n = cm_len (abi_get_hdr A (take (abi_hdr_size A) (drop at b))) in
      n = 0 \<or> (\<exists>k < 2 ^ 30. n = abi_cmsg_len A k \<and> at + abi_cmsg_space A k \<le> N))"

lemma passable_zero:
  assumes "at + abi_hdr_size A \<le> N"
  shows "passable N (replicate N 0) at"
proof -
  have "take (abi_hdr_size A) (drop at (replicate N (0 :: u8))) = replicate (abi_hdr_size A) 0"
    using assms by simp
  then show ?thesis by (simp add: passable_def get_zero_hdr Let_def)
qed

lemma passable_stands:
  assumes "stands b at m" and "payload_ok m" and "at + space m \<le> N"
  shows "passable N b at"
proof -
  have "abi_get_hdr A (take (abi_hdr_size A) (drop at b)) = header m"
    using assms by (simp add: stands_def get_put_header)
  then show ?thesis
    using assms(2,3) by (auto simp: passable_def header_def space_def Let_def payload_ok_def)
qed

text \<open>
  The encoder of a buffer of \<open>N\<close> bytes after appending \<open>ms\<close>; behind them the buffer is as
  it was in \<open>b0\<close>. The current pointer is only known while a header still fits and what the
  buffer held before does not stop the walk.
\<close>

definition encoded :: "nat \<Rightarrow> msg_hdr \<Rightarrow> bytes \<Rightarrow> cmsg list \<Rightarrow> encoder \<Rightarrow> bool" where
  "encoded N h b0 ms e \<longleftrightarrow>
     (\<exists>b. en_hdr e = h \<lparr> mh_control := Some b \<rparr> \<and> length b = N \<and> standing b 0 ms \<and>
          (\<forall>m \<in> set ms. payload_ok m) \<and> drop (space_of ms) b = drop (space_of ms) b0) \<and>
     mh_controllen h = N \<and> space_of ms \<le> N \<and> en_len e = space_of ms \<and>
     (space_of ms + abi_hdr_size A < N \<and> (ms = [] \<or> passable N b0 (space_of ms)) \<longrightarrow>
      en_cmsg e = Some (space_of ms))"

lemma encoded_new:
  assumes "mh_control h = Some b" and "length b = N" and "mh_controllen h = N"
  shows "encoded N h b [] (encoder_new A h)"
proof -
  have "h = h \<lparr> mh_control := Some b \<rparr>" using assms(1) by simp
  then show ?thesis
    using assms by (auto simp: encoded_def encoder_new_def first_some [OF assms(1)])
qed

lemma encoded_push:
  assumes e: "encoded N h b0 ms e" and m: "payload_ok m" and N: "N < 2 ^ 31"
    and fits: "space_of ms + space m \<le> N"
    and pass: "ms = [] \<or> passable N b0 (space_of ms)"
  shows "\<exists>e'. encoder_push A (fst m) (snd m) e = Inr e' \<and> encoded N h b0 (ms @ [m]) e'"
proof -
  let ?at = "space_of ms"
  obtain b where b: "en_hdr e = h \<lparr> mh_control := Some b \<rparr>" "length b = N" "standing b 0 ms"
      "drop ?at b = drop ?at b0" "\<forall>m \<in> set ms. payload_ok m"
    using e by (auto simp: encoded_def)
  let ?b = "put_cmsg ?at m b"
  let ?h = "h \<lparr> mh_control := Some ?b \<rparr>"
  have fit: "?at + space m \<le> length b" using b fits by simp
  note w = put_cmsg_stands [OF fit m]
  have cur: "en_cmsg e = Some ?at"
    using e fits pass hdr_le_space [OF m] by (auto simp: encoded_def)
  have pushed: "encoder_push A (fst m) (snd m) e =
      Inr \<lparr> en_hdr = ?h, en_cmsg = abi_next A ?h ?at, en_len = space_of (ms @ [m]) \<rparr>"
    using e cur fits b
    by (simp add: encoder_push_def encoded_def Let_def put_cmsg_def header_def space_def)
  have tail: "drop k ?b = drop k b0" if "?at + space m \<le> k" for k
  proof -
    have "drop k b = drop (k - ?at) (drop ?at b)" using that by simp
    also have "\<dots> = drop k b0" using that b(4) by simp
    finally show ?thesis using w(4) that by simp
  qed
  have "abi_next A ?h ?at = Some (?at + space m)"
    if room: "?at + space m + abi_hdr_size A < N" and nxt: "passable N b0 (?at + space m)"
    unfolding space_def
  proof (rule next_some [where b = ?b])
    have at: "cmsg_at A ?h ?at = header m"
      using w(2) m by (intro cmsg_at_stands) simp_all
    then show "cm_len (cmsg_at A ?h ?at) = abi_cmsg_len A (length (snd m))"
      by (simp add: header_def)
    show "cm_len (cmsg_at A ?h (?at + abi_cmsg_space A (length (snd m)))) = 0 \<or>
        (\<exists>k < 2 ^ 30. cm_len (cmsg_at A ?h (?at + abi_cmsg_space A (length (snd m)))) = abi_cmsg_len A k \<and>
             ?at + abi_cmsg_space A (length (snd m)) + abi_cmsg_space A k \<le> mh_controllen ?h)"
      using nxt tail [of "?at + space m"] e
      by (simp add: passable_def cmsg_at_def space_def Let_def encoded_def)
  qed (use e room N w(1) b(2) m in \<open>simp_all add: encoded_def space_def payload_ok_def\<close>)
  moreover have "standing ?b 0 (ms @ [m])"
    using b w fits standing_cong [OF w(3), of 0 ms] by (simp add: standing_append)
  moreover have "drop (space_of (ms @ [m])) ?b = drop (space_of (ms @ [m])) b0"
    by (rule tail) simp
  ultimately show ?thesis
    using pushed e fits w(1) b(2) m by (auto simp: encoded_def)
qed

lemma encoded_push_all:
  assumes "encoded N h b0 ms e" and "\<forall>m \<in> set ns. payload_ok m" and "N < 2 ^ 31"
    and "space_of (ms @ ns) \<le> N"
    and "\<And>us m vs. ns = us @ m # vs \<Longrightarrow> ms @ us \<noteq> [] \<Longrightarrow> passable N b0 (space_of (ms @ us))"
  shows "\<exists>e'. push_all A ns e = Inr e' \<and> encoded N h b0 (ms @ ns) e'"
  using assms(1,2,4,5)
proof (induction ns arbitrary: ms e)
  case (Cons m ns)
  have m: "payload_ok m" "space_of ms + space m \<le> N" using Cons.prems by auto
  have "ms = [] \<or> passable N b0 (space_of ms)" using Cons.prems(4) [of "[]" m ns] by auto
  from encoded_push [OF Cons.prems(1) m(1) assms(3) m(2) this]
  obtain e1 where e1: "encoder_push A (fst m) (snd m) e = Inr e1" "encoded N h b0 (ms @ [m]) e1"
    by blast
  have "passable N b0 (space_of ((ms @ [m]) @ us))" if "ns = us @ x # vs" for us x vs
    using Cons.prems(4) [of "m # us" x vs] that by simp
  with Cons.IH [OF e1(2)] Cons.prems obtain e' where
    "push_all A ns e1 = Inr e' \<and> encoded N h b0 ((ms @ [m]) @ ns) e'" by auto
  with e1(1) show ?case by (cases m) simp
qed auto

lemma encoded_push_all_zero:
  assumes "encoded N h (replicate N 0) ms e" and "\<forall>m \<in> set ns. payload_ok m" and "N < 2 ^ 31"
    and "space_of (ms @ ns) \<le> N"
  shows "\<exists>e'. push_all A ns e = Inr e' \<and> encoded N h (replicate N 0) (ms @ ns) e'"
proof (rule encoded_push_all [OF assms])
  fix us m vs
  assume ns: "ns = us @ m # vs"
  with assms(2) have "abi_hdr_size A < space m" by (intro hdr_le_space) simp
  with assms(4) ns show "passable N (replicate N 0) (space_of (ms @ us))"
    by (intro passable_zero) simp
qed

text \<open>Encoding again over an old encoding: the old messages do not stop the walk.\<close>

lemma encoded_passable:
  assumes "encoded N h b0 (us @ m # vs) e"
  shows "passable N (control_bytes (en_hdr e)) (space_of us)"
proof -
  obtain b where b: "en_hdr e = h \<lparr> mh_control := Some b \<rparr>" "standing b 0 (us @ m # vs)"
      "payload_ok m" "space_of (us @ m # vs) \<le> N"
    using assms by (auto simp: encoded_def)
  then have "stands b (space_of us) m" "space_of us + space m \<le> N"
    by (auto simp: standing_append)
  with b show ?thesis by (simp add: passable_stands)
qed

lemma encoded_hdr:
  assumes "encoded N h b0 ms e"
  shows "length (control_bytes (en_hdr e)) = N"
    and "N < 2 ^ 31 \<Longrightarrow> mh_name (encoder_finish A e) = mh_name h"
    and "N < 2 ^ 31 \<Longrightarrow> mh_iov (encoder_finish A e) = mh_iov h"
  using assms by (auto simp: encoded_def encoder_finish_def set_control_len_fields)

text \<open>Too many messages for the buffer: the first one that does not fit panics.\<close>

lemma encoder_push_overflow:
  assumes "mh_controllen (en_hdr e) < en_len e + abi_cmsg_space A (length v)"
  shows "\<exists>msg. encoder_push A lt v e = Inl (Crash msg)"
  using assms by (simp add: encoder_push_def)

text \<open>
  Walking the buffer: where the messages \<open>ms\<close> fill the rest of the control length, the
  iterator visits exactly them.
\<close>

fun offsets :: "nat \<Rightarrow> cmsg list \<Rightarrow> nat list" where
  "offsets at [] = []"
| "offsets at (m # ms) = at # offsets (at + space m) ms"

lemma iter_collect_standing:
  assumes "mh_control h = Some b" and "mh_controllen h \<le> length b" and "mh_controllen h < 2 ^ 31"
    and "standing b at (m # ms)" and "mh_controllen h = at + space_of (m # ms)"
    and "\<forall>x \<in> set (m # ms). payload_ok x"
  shows "iter_collect A False h (Some at) = Some (offsets at (m # ms))"
  using assms(4-6)
proof (induction ms arbitrary: at m)
  case (Nil at m)
  have "cmsg_at A h at = header m"
    using Nil.prems assms(1) by (intro cmsg_at_stands) (simp_all add: control_bytes_def)
  then have "cm_len (cmsg_at A h at) = abi_cmsg_len A (length (snd m))"
    by (simp add: header_def)
  then have "abi_next A h at = None"
    using Nil.prems assms(2,3) hdr_size
    by (intro next_none [OF assms(1)]) (auto simp: space_def payload_ok_def)
  then show ?case
    by (simp add: iter_collect.simps [of _ _ _ "Some _"] iter_collect.simps [of _ _ _ None]
        iter_next_def)
next
  case (Cons n ms at m)
  have "cmsg_at A h at = header m" "cmsg_at A h (at + space m) = header n"
    using Cons.prems assms(1) by (auto intro!: cmsg_at_stands simp: control_bytes_def)
  then have len: "cm_len (cmsg_at A h at) = abi_cmsg_len A (length (snd m))"
      "cm_len (cmsg_at A h (at + space m)) = abi_cmsg_len A (length (snd n))"
    by (simp_all add: header_def)
  have "abi_hdr_size A < space n" using Cons.prems by (intro hdr_le_space) simp
  then have "abi_next A h at = Some (at + space m)"
    using Cons.prems len assms(2,3) unfolding space_def
    by (intro next_some [OF assms(1) _ _ _ len(1)]) (auto simp: space_def payload_ok_def)
  moreover have "iter_collect A False h (Some (at + space m)) = Some (offsets (at + space m) (n # ms))"
    using Cons.prems by (intro Cons.IH) auto
  ultimately show ?case
    by (simp add: iter_collect.simps [of _ _ _ "Some at"] iter_next_def)
qed

lemma view_standing:
  "standing (control_bytes h) at ms \<Longrightarrow> \<forall>x \<in> set ms. payload_ok x \<Longrightarrow>
   map (cmsg_view A h) (offsets at ms) = ms"
  by (induction ms arbitrary: at) (auto simp: cmsg_view_stands)

text \<open>
  A finished encoding is read back: the iterator visits the pushed messages in order, and
  each has its level, its type and its payload.
\<close>

lemma finished_standing:
  assumes e: "encoded N h b0 ms e" and ok: "\<forall>m \<in> set ms. payload_ok m" and N: "N < 2 ^ 31"
  shows "iter_collect A False (encoder_finish A e) (iter_new A (encoder_finish A e)) =
      Some (offsets 0 ms)"
    and "standing (control_bytes (encoder_finish A e)) 0 ms"
    and "mh_controllen (encoder_finish A e) = space_of ms"
proof -
  obtain b where b: "en_hdr e = h \<lparr> mh_control := Some b \<rparr>" "length b = N" "standing b 0 ms"
    and len: "en_len e = space_of ms" "space_of ms \<le> N"
    using e by (auto simp: encoded_def)
  let ?h = "encoder_finish A e"
  show n: "mh_controllen ?h = space_of ms"
    using len N by (simp add: encoder_finish_def set_control_len_fields)
  have "iter_collect A False ?h (iter_new A ?h) = Some (offsets 0 ms) \<and>
    standing (control_bytes ?h) 0 ms"
  proof (cases ms)
    case Nil
    then have "iter_new A ?h = None"
      using hdr_size(1) n by (simp add: iter_new_def first_none)
    with Nil show ?thesis
      by (simp add: iter_collect.simps iter_next_def)
  next
    case (Cons m ns)
    have hm: "abi_hdr_size A < space m"
      using ok Cons by (intro hdr_le_space) simp
    then have h: "?h = h \<lparr> mh_control := Some b, mh_controllen := space_of ms \<rparr>"
      using b(1) len N Cons by (simp add: encoder_finish_def set_control_len)
    have "iter_collect A False ?h (Some 0) = Some (offsets 0 (m # ns))"
      using b len N ok Cons by (intro iter_collect_standing [where b = b]) (simp_all add: h)
    moreover have "iter_new A ?h = Some 0"
      using hm by (simp add: iter_new_def h Cons first_some)
    ultimately show ?thesis
      using b(3) Cons by (simp add: h)
  qed
  then show "iter_collect A False ?h (iter_new A ?h) = Some (offsets 0 ms)"
    and "standing (control_bytes ?h) 0 ms" by simp_all
qed

lemma finished_messages:
  assumes "encoded N h b0 ms e" and "\<forall>m \<in> set ms. payload_ok m" and "N < 2 ^ 31"
  shows "control_messages A (encoder_finish A e) = Some ms"
    and "mh_controllen (encoder_finish A e) = space_of ms"
  using finished_standing [OF assms] assms(2)
  by (simp_all add: control_messages_def view_standing)

theorem push_then_iterate:
  assumes "mh_control h = Some (replicate N 0)" and "mh_controllen h = N" and "N < 2 ^ 31"
    and "\<forall>m \<in> set ms. payload_ok m" and "space_of ms \<le> N"
  shows "\<exists>e. push_all A ms (encoder_new A h) = Inr e \<and>
    control_messages A (encoder_finish A e) = Some ms \<and>
    mh_controllen (encoder_finish A e) = space_of ms"
proof -
  have new: "encoded N h (replicate N 0) [] (encoder_new A h)"
    using assms by (intro encoded_new) simp_all
  obtain e where "push_all A ms (encoder_new A h) = Inr e" "encoded N h (replicate N 0) ms e"
    using encoded_push_all_zero [OF new assms(4,3)] assms(5) by auto
  with assms show ?thesis by (auto dest: finished_messages)
qed

end

end
