(* ===== verification/CmsgWindows.thy ===== *)
theory CmsgWindows
  imports Cmsg
begin

text \<open>
  The control-message operations of the Windows port (\<^verbatim>\<open>src/cmsg/windows.rs\<close> of
  \<^verbatim>\<open>patches/noq-udp\<close>), which the crate writes out itself, after the macros of \<^verbatim>\<open>ws2def.h\<close>.
  Sizes and lengths are 64-bit words, so that the rounding by masks is the code's; the
  layout of \<^verbatim>\<open>WinSock::CMSGHDR\<close> is the record \<open>win_types\<close>.

  Offsets are relative to \<^verbatim>\<open>Control.buf\<close>. \<open>win_interface\<close> interprets the interface of the
  encoder and the iterator on these operations.
\<close>

type_synonym usize = "64 word"

record win_types =
  w_hdr_size :: usize
  w_hdr_align :: usize
  w_usize_align :: usize
  w_put_hdr :: "cmsghdr \<Rightarrow> bytes"
  w_get_hdr :: "bytes \<Rightarrow> cmsghdr"

section \<open>Rounding\<close>

definition round_up :: "usize \<Rightarrow> usize \<Rightarrow> usize" where
  "round_up align len = (len + align - 1) AND NOT (align - 1)"

definition cmsghdr_align :: "win_types \<Rightarrow> usize \<Rightarrow> usize" where
  "cmsghdr_align W len = (len + w_hdr_align W - 1) AND NOT (w_hdr_align W - 1)"

definition cmsgdata_align :: "win_types \<Rightarrow> usize \<Rightarrow> usize" where
  "cmsgdata_align W len = (len + w_usize_align W - 1) AND NOT (w_usize_align W - 1)"

text \<open>The reference: the least multiple of \<open>a\<close> that is not below \<open>n\<close>.\<close>

definition round_up_nat :: "nat \<Rightarrow> nat \<Rightarrow> nat" where
  "round_up_nat a n = (n + (a - 1)) div a * a"

lemma round_up_nat_dvd [simp]: "a dvd round_up_nat a n"
  by (simp add: round_up_nat_def)

lemma round_up_nat_bounds:
  assumes "0 < a"
  shows "n \<le> round_up_nat a n" and "round_up_nat a n < n + a"
proof -
  have "(n + (a - 1)) div a * a + (n + (a - 1)) mod a = n + (a - 1)" by simp
  moreover have "(n + (a - 1)) mod a \<le> a - 1"
    using assms by (metis Suc_pred' less_Suc_eq_le mod_less_divisor)
  ultimately have "n \<le> (n + (a - 1)) div a * a" "(n + (a - 1)) div a * a \<le> n + (a - 1)"
    by linarith+
  with assms show "n \<le> round_up_nat a n" and "round_up_nat a n < n + a"
    unfolding round_up_nat_def by linarith+
qed

lemma round_up_nat_least:
  assumes "0 < a" and "a dvd m" and "n \<le> m"
  shows "round_up_nat a n \<le> m"
proof -
  obtain k where m: "m = a * k" using assms(2) by blast
  obtain j where j: "round_up_nat a n = a * j" using round_up_nat_dvd by blast
  have "a * j < a * k + a" using round_up_nat_bounds(2) [OF assms(1), of n] assms(3) m j by simp
  then have "a * j < a * (k + 1)" by simp
  then have "j < k + 1" by (rule mult_less_cancel1 [THEN iffD1, THEN conjunct2])
  with j m show ?thesis by simp
qed

lemma unat_mask_clear:
  "unat (x AND NOT (mask k)) = unat x div 2 ^ k * 2 ^ k" for x :: usize
proof -
  have "x AND NOT (mask k) = push_bit k (drop_bit k x)"
    by (rule bit_word_eqI) (auto simp: bit_simps)
  also have "unat \<dots> = push_bit k (drop_bit k (unat x))"
  proof -
    have x: "unat x < 2 ^ 64" using unsigned_less [of x, where 'a = nat] by simp
    have le: "push_bit k (drop_bit k (unat x)) \<le> unat x"
      by (simp add: push_bit_eq_mult drop_bit_eq_div)
    have "take_bit 64 n = n" if "n \<le> unat x" for n
      by (rule take_bit_nat_eq_self) (use that x in linarith)
    with le show ?thesis
      by (simp add: unsigned_push_bit_eq unsigned_drop_bit_eq)
  qed
  finally show ?thesis by (simp add: push_bit_eq_mult drop_bit_eq_div)
qed

lemma unat_two_power: "k < 64 \<Longrightarrow> unat ((2 :: usize) ^ k) = 2 ^ k"
proof -
  assume "k < 64"
  then have "(2 :: nat) ^ k < 2 ^ 64" by (rule power_strict_increasing) simp
  moreover have "unat ((2 :: usize) ^ k) = unat (of_nat (2 ^ k) :: usize)" by simp
  ultimately show ?thesis by (simp only: unat_of_nat) simp
qed

text \<open>
  As long as the sum does not overflow, rounding by masks is rounding up to the next
  multiple of a power of two.
\<close>

lemma unat_round_up:
  assumes a: "align = 2 ^ k" "k < 64" and len: "unat len + 2 ^ k \<le> 2 ^ 64"
  shows "unat (round_up align len) = round_up_nat (2 ^ k) (unat len)"
proof -
  have al: "unat align = 2 ^ k" using a by (simp add: unat_two_power)
  have "unat (len + align - 1) = unat len + (2 ^ k - 1)"
  proof -
    have one: "1 \<le> align" using al by (simp add: word_le_nat_alt)
    have pred: "unat (align - 1) = 2 ^ k - 1" using one al by (simp add: unat_sub)
    have "unat len + unat (align - 1) < 2 ^ LENGTH(64)"
      unfolding pred using len by (cases "(2 :: nat) ^ k") simp_all
    then have "unat (len + (align - 1)) = unat len + unat (align - 1)"
      by (rule unat_add_lem [THEN iffD1])
    then show ?thesis by (simp only: add_diff_eq pred)
  qed
  moreover have "align - 1 = mask k" using a by (simp add: mask_eq_exp_minus_1)
  ultimately show ?thesis
    by (simp only: round_up_def unat_mask_clear round_up_nat_def)
qed

section \<open>The operations\<close>

definition win_first :: "win_types \<Rightarrow> msg_hdr \<Rightarrow> nat option" where
  "win_first W h =
     (if unat (w_hdr_size W) \<le> mh_controllen h then map_option (\<lambda>_. 0) (mh_control h) else None)"

definition win_cmsg_at :: "win_types \<Rightarrow> msg_hdr \<Rightarrow> nat \<Rightarrow> cmsghdr" where
  "win_cmsg_at W h at = w_get_hdr W (take (unat (w_hdr_size W)) (drop at (control_bytes h)))"

definition win_next :: "win_types \<Rightarrow> msg_hdr \<Rightarrow> nat \<Rightarrow> nat option" where
  "win_next W h at =
     (let nxt = at + unat (cmsghdr_align W (of_nat (cm_len (win_cmsg_at W h at))));
          max = mh_controllen h in
      if max < nxt + unat (w_hdr_size W) then None else Some nxt)"

text \<open>\<^verbatim>\<open>Control.len\<close> has 32 bits.\<close>

definition win_set_control_len :: "msg_hdr \<Rightarrow> nat \<Rightarrow> msg_hdr" where
  "win_set_control_len h len = h \<lparr> mh_controllen := unat (of_nat len :: u32) \<rparr>"

definition win_cmsg_len :: "win_types \<Rightarrow> nat \<Rightarrow> nat" where
  "win_cmsg_len W len = unat (cmsgdata_align W (w_hdr_size W) + of_nat len)"

definition win_cmsg_space :: "win_types \<Rightarrow> nat \<Rightarrow> nat" where
  "win_cmsg_space W len =
     unat (cmsgdata_align W (w_hdr_size W + cmsghdr_align W (of_nat len)))"

definition win_abi :: "win_types \<Rightarrow> cmsg_abi" where
  "win_abi W =
     \<lparr> abi_hdr_size = unat (w_hdr_size W), abi_put_hdr = w_put_hdr W, abi_get_hdr = w_get_hdr W,
       abi_data_offset = unat (cmsgdata_align W (w_hdr_size W)),
       abi_cmsg_len = win_cmsg_len W, abi_cmsg_space = win_cmsg_space W,
       abi_first = win_first W, abi_next = win_next W,
       abi_set_control_len = win_set_control_len \<rparr>"

lemmas win_ops = win_first_def win_next_def win_set_control_len_def win_cmsg_len_def
  win_cmsg_space_def

lemma win_abi_sel [simp]:
  "abi_hdr_size (win_abi W) = unat (w_hdr_size W)" "abi_put_hdr (win_abi W) = w_put_hdr W"
  "abi_get_hdr (win_abi W) = w_get_hdr W" "abi_first (win_abi W) = win_first W"
  "abi_data_offset (win_abi W) = unat (cmsgdata_align W (w_hdr_size W))"
  "abi_cmsg_len (win_abi W) = win_cmsg_len W" "abi_cmsg_space (win_abi W) = win_cmsg_space W"
  "abi_next (win_abi W) = win_next W" "abi_set_control_len (win_abi W) = win_set_control_len"
  by (simp_all add: win_abi_def)

lemma win_cmsg_at [simp]: "win_cmsg_at W h at = cmsg_at (win_abi W) h at"
  by (simp add: win_cmsg_at_def cmsg_at_def)

text \<open>
  What is known of the layout on 64-bit Windows: a header of 16 bytes with the alignment of
  a pointer, which is that of \<^verbatim>\<open>usize\<close>; reading a header that was written gives it back, and
  zeroed memory has length zero.
\<close>

definition win_types_ok :: "win_types \<Rightarrow> bool" where
  "win_types_ok W \<longleftrightarrow>
     w_hdr_size W = 16 \<and> w_hdr_align W = 8 \<and> w_usize_align W = 8 \<and>
     (\<forall>c. length (w_put_hdr W c) = 16) \<and>
     (\<forall>c. cm_len c < 2 ^ 31 \<longrightarrow> w_get_hdr W (w_put_hdr W c) = c) \<and>
     cm_len (w_get_hdr W (replicate 16 0)) = 0"

lemma cmsghdr_align_nat:
  assumes "win_types_ok W" and "n < 2 ^ 32"
  shows "unat (cmsghdr_align W (of_nat n)) = round_up_nat 8 n"
proof -
  have "unat (of_nat n :: usize) = n" using assms(2) by (simp add: unat_of_nat)
  then show ?thesis
    using unat_round_up [of 8 3 "of_nat n"] assms
    by (simp add: win_types_ok_def cmsghdr_align_def round_up_def)
qed

lemma cmsgdata_align_nat:
  assumes "win_types_ok W" and "n < 2 ^ 32"
  shows "unat (cmsgdata_align W (of_nat n)) = round_up_nat 8 n"
  using cmsghdr_align_nat [OF assms] assms(1)
  by (simp add: win_types_ok_def cmsghdr_align_def cmsgdata_align_def)

lemma cmsgdata_align_hdr:
  "win_types_ok W \<Longrightarrow> cmsgdata_align W (w_hdr_size W) = 16"
  "win_types_ok W \<Longrightarrow> cmsgdata_align W 16 = 16"
  by (simp_all add: win_types_ok_def cmsgdata_align_def)

lemma win_cmsg_len_nat: "win_types_ok W \<Longrightarrow> n < 2 ^ 30 \<Longrightarrow> win_cmsg_len W n = 16 + n"
  by (simp add: win_cmsg_len_def cmsgdata_align_hdr unat_of_nat unat_word_ariths)

lemma win_cmsg_space_nat:
  assumes "win_types_ok W" and "n < 2 ^ 30"
  shows "win_cmsg_space W n = 16 + round_up_nat 8 n"
proof -
  have b: "round_up_nat 8 n < n + 8" by (rule round_up_nat_bounds) simp
  have "cmsghdr_align W (of_nat n) = of_nat (round_up_nat 8 n)"
    using assms by (simp flip: cmsghdr_align_nat [OF assms(1)])
  then have "w_hdr_size W + cmsghdr_align W (of_nat n) = of_nat (16 + round_up_nat 8 n)"
    using assms(1) by (simp add: win_types_ok_def)
  moreover have "round_up_nat 8 (16 + round_up_nat 8 n) = 16 + round_up_nat 8 n"
    by (simp add: round_up_nat_def)
  ultimately show ?thesis
    using b assms cmsgdata_align_nat [OF assms(1), of "16 + round_up_nat 8 n"]
    by (simp add: win_cmsg_space_def)
qed

section \<open>The interface holds\<close>

lemma win_next_simps:
  assumes W: "win_types_ok W" and len: "cm_len (cmsg_at (win_abi W) h at) = win_cmsg_len W n"
    and n: "n < 2 ^ 30"
  shows "win_next W h at =
    (if mh_controllen h < at + win_cmsg_space W n + 16 then None
     else Some (at + win_cmsg_space W n))"
proof -
  have "round_up_nat 8 (16 + n) = 16 + round_up_nat 8 n"
    unfolding round_up_nat_def by presburger
  moreover have "unat (cmsghdr_align W (of_nat (16 + n))) = round_up_nat 8 (16 + n)"
    using n by (intro cmsghdr_align_nat [OF W]) simp
  ultimately have "unat (cmsghdr_align W (of_nat (cm_len (cmsg_at (win_abi W) h at)))) =
      win_cmsg_space W n"
    using W n by (simp only: len win_cmsg_len_nat win_cmsg_space_nat)
  then show ?thesis
    using W by (simp add: win_next_def Let_def win_types_ok_def)
qed

lemma win_interface:
  assumes W: "win_types_ok W"
  shows "cmsg_interface (win_abi W)"
proof
  note k = win_types_ok_def [THEN iffD1, OF W]
  show "0 < abi_hdr_size (win_abi W)" "abi_hdr_size (win_abi W) \<le> abi_data_offset (win_abi W)"
    "abi_data_offset (win_abi W) < 2 ^ 30"
    using k by (simp_all add: cmsgdata_align_hdr [OF W])
  show "length (abi_put_hdr (win_abi W) c) = abi_hdr_size (win_abi W)" for c
    using k by simp
  show "abi_get_hdr (win_abi W) (abi_put_hdr (win_abi W) c) = c" if "cm_len c < 2 ^ 31" for c
    using k that by simp
  show "cm_len (abi_get_hdr (win_abi W) (replicate (abi_hdr_size (win_abi W)) 0)) = 0"
    using k by simp
  show "abi_cmsg_len (win_abi W) n = abi_data_offset (win_abi W) + n" if "n < 2 ^ 30" for n
    using that by (simp add: win_cmsg_len_nat [OF W] cmsgdata_align_hdr [OF W])
  show "abi_cmsg_len (win_abi W) n \<le> abi_cmsg_space (win_abi W) n" if "n < 2 ^ 30" for n
    using that round_up_nat_bounds(1) [of 8 n]
    by (simp add: win_cmsg_len_nat [OF W] win_cmsg_space_nat [OF W])
  show "abi_first (win_abi W) h = Some 0"
    if "mh_control h = Some b" "abi_hdr_size (win_abi W) \<le> mh_controllen h" for h b
    using that by (simp add: win_first_def)
  show "abi_first (win_abi W) h = None" if "mh_controllen h < abi_hdr_size (win_abi W)" for h
    using that by (simp add: win_first_def)
  show "abi_next (win_abi W) h at = Some (at + abi_cmsg_space (win_abi W) n)"
    if "cm_len (cmsg_at (win_abi W) h at) = abi_cmsg_len (win_abi W) n" "n < 2 ^ 30"
      "at + abi_cmsg_space (win_abi W) n + abi_hdr_size (win_abi W) < mh_controllen h" for h at n
    using that k by (simp add: win_next_simps [OF W])
  show "abi_next (win_abi W) h at = None"
    if "cm_len (cmsg_at (win_abi W) h at) = abi_cmsg_len (win_abi W) n" "n < 2 ^ 30"
      "mh_controllen h < at + abi_cmsg_space (win_abi W) n + abi_hdr_size (win_abi W)" for h at n
    using that k by (simp add: win_next_simps [OF W])
  show "abi_set_control_len (win_abi W) h n = h \<lparr> mh_controllen := n \<rparr>"
    if "0 < n" "n < 2 ^ 31" for h n
    using that by (simp add: win_set_control_len_def unat_of_nat)
  show "\<exists>c. abi_set_control_len (win_abi W) h 0 = h \<lparr> mh_control := c, mh_controllen := 0 \<rparr>" for h
    by (rule exI [of _ "mh_control h"]) (simp add: win_set_control_len_def)
qed

text \<open>The layout of \<^verbatim>\<open>ws2def.h\<close> on a 64-bit machine: a length of eight bytes, then level and type.\<close>

definition win64_types :: win_types where
  "win64_types =
     \<lparr> w_hdr_size = 16, w_hdr_align = 8, w_usize_align = 8,
       w_put_hdr = (\<lambda>c. c_put (int_type True) (of_nat (cm_len c)) @
          c_put (int_type True) (of_nat (cm_len c div 2 ^ 32)) @
          c_put (int_type True) (cm_level c) @ c_put (int_type True) (cm_type c)),
       w_get_hdr = (\<lambda>b. \<lparr>
          cm_level = c_get (int_type True) (take 4 (drop 8 b)),
          cm_type = c_get (int_type True) (take 4 (drop 12 b)),
          cm_len = unat (c_get (int_type True) (take 4 b)) +
                   unat (c_get (int_type True) (take 4 (drop 4 b))) * 2 ^ 32 \<rparr>) \<rparr>"

lemma win64_types_ok: "win_types_ok win64_types"
proof -
  have zero: "c_get (int_type True) (replicate 4 0) = 0"
    by (simp add: int_type_def ne_order_def of_be32_def numeral_eq_Suc)
  show ?thesis
    using zero by (auto simp: win_types_ok_def win64_types_def unat_of_nat min_def)
qed

interpretation win64: cmsg_interface "win_abi win64_types"
  by (rule win_interface [OF win64_types_ok])

section \<open>Walking any buffer\<close>

text \<open>
  Unlike the macro of the C library, \<open>win_next\<close> does not look whether a length covers at
  least its own header. A message of length zero is its own successor.
\<close>

lemma win_next_grows:
  "win_next W h at = Some nxt \<Longrightarrow> at \<le> nxt \<and> nxt + unat (w_hdr_size W) \<le> mh_controllen h"
  by (auto simp: win_next_def Let_def split: if_splits)

definition win_successor :: "win_types \<Rightarrow> msg_hdr \<Rightarrow> nat \<Rightarrow> nat \<Rightarrow> bool" where
  "win_successor W h at nxt \<longleftrightarrow> win_next W h at = Some nxt"

lemma iter_collect_win:
  "iter_collect (win_abi W) False h (Some at) =
     (case win_next W h at of
        None \<Rightarrow> Some [at]
      | Some nxt \<Rightarrow> Option.bind (iter_collect (win_abi W) False h (Some nxt)) (\<lambda>ats. Some (at # ats)))"
  by (subst iter_collect.simps)
     (auto simp: iter_next_def iter_collect.simps [of _ _ _ None] split: option.split)

lemma win_stuck:
  assumes "(win_successor W h)\<^sup>*\<^sup>* at bad" and "win_successor W h bad bad"
  shows "iter_collect (win_abi W) False h (Some at) = None"
  using assms
proof (induction rule: converse_rtranclp_induct)
  case base
  then have "iter_collect (win_abi W) False h (Some bad) =
      Option.bind (iter_collect (win_abi W) False h (Some bad)) (\<lambda>ats. Some (bad # ats))"
    by (subst iter_collect_win) (simp add: win_successor_def)
  then show ?case
    by (cases "iter_collect (win_abi W) False h (Some bad)") auto
next
  case (step at nxt)
  then show ?case by (subst iter_collect_win) (simp add: win_successor_def)
qed

lemma win_walk_ends:
  assumes "\<And>bad. (win_successor W h)\<^sup>*\<^sup>* at bad \<Longrightarrow> \<not> win_successor W h bad bad"
  shows "\<exists>ats. iter_collect (win_abi W) False h (Some at) = Some ats"
  using assms
proof (induction "mh_controllen h - at" arbitrary: at rule: less_induct)
  case less
  show ?case
  proof (cases "win_next W h at")
    case None
    then show ?thesis by (subst iter_collect_win) simp
  next
    case (Some nxt)
    then have "win_successor W h at nxt" by (simp add: win_successor_def)
    then have "at < nxt" "nxt \<le> mh_controllen h"
      using less.prems [of at] win_next_grows [OF Some] by (cases "at = nxt"; simp)+
    moreover have "\<not> win_successor W h bad bad" if "(win_successor W h)\<^sup>*\<^sup>* nxt bad" for bad
      using that \<open>win_successor W h at nxt\<close> less.prems
      by (meson converse_rtranclp_into_rtranclp)
    ultimately obtain ats where "iter_collect (win_abi W) False h (Some nxt) = Some ats"
      using less.hyps [of nxt] by fastforce
    with Some show ?thesis by (subst iter_collect_win) simp
  qed
qed

text \<open>
  The loop over received control messages runs forever exactly when a message that is its
  own successor can be reached from the first, so it ends whenever every length the system
  leaves in the buffer is at least one.
\<close>

theorem win_iteration_diverges_iff:
  "iter_collect (win_abi W) False h (Some at) = None \<longleftrightarrow>
   (\<exists>bad. (win_successor W h)\<^sup>*\<^sup>* at bad \<and> win_next W h bad = Some bad)"
proof
  assume "iter_collect (win_abi W) False h (Some at) = None"
  then show "\<exists>bad. (win_successor W h)\<^sup>*\<^sup>* at bad \<and> win_next W h bad = Some bad"
    using win_walk_ends [of W h at] by (auto simp: win_successor_def)
next
  assume "\<exists>bad. (win_successor W h)\<^sup>*\<^sup>* at bad \<and> win_next W h bad = Some bad"
  then show "iter_collect (win_abi W) False h (Some at) = None"
    using win_stuck [of W h at] by (auto simp: win_successor_def)
qed

lemma win_stuck_iff_zero:
  assumes "win_types_ok W" and "cm_len (cmsg_at (win_abi W) h at) < 2 ^ 32"
  shows "win_next W h at = Some at \<longleftrightarrow>
    cm_len (cmsg_at (win_abi W) h at) = 0 \<and> at + 16 \<le> mh_controllen h"
proof -
  have "round_up_nat 8 n = 0 \<longleftrightarrow> n = 0" for n
    using round_up_nat_bounds(1) [of 8 n] by (auto simp: round_up_nat_def)
  then show ?thesis
    using assms(1) cmsghdr_align_nat [OF assms]
    by (auto simp: win_next_def Let_def win_types_ok_def round_up_nat_def)
qed

section \<open>Round trip\<close>

text \<open>
  Control messages survive their encoding: if the messages fit a zeroed control buffer with
  their headers and padding, the encoder takes them all without a panic, and walking the
  finished buffer gives the same levels, types and payloads in the same order.
\<close>

theorem win_cmsg_roundtrip:
  assumes W: "win_types_ok W"
    and h: "mh_control h = Some (replicate N 0)" "mh_controllen h = N" "N < 2 ^ 31"
    and ok: "\<forall>m \<in> set ms. payload_ok m"
    and fits: "sum_list (map (\<lambda>m. 16 + round_up_nat 8 (length (snd m))) ms) \<le> N"
  shows "\<exists>e. push_all (win_abi W) ms (encoder_new (win_abi W) h) = Inr e \<and>
    control_messages (win_abi W) (encoder_finish (win_abi W) e) = Some ms"
proof -
  note I = win_interface [OF W]
  have "map (cmsg_interface.space (win_abi W)) ms = map (\<lambda>m. 16 + round_up_nat 8 (length (snd m))) ms"
    using ok by (auto simp: cmsg_interface.space_def [OF I] win_cmsg_space_nat [OF W] payload_ok_def)
  with fits have "cmsg_interface.space_of (win_abi W) ms \<le> N"
    by (simp only: cmsg_interface.space_of_def [OF I])
  from cmsg_interface.push_then_iterate [OF I h ok this] show ?thesis by blast
qed

lemma win_cmsg_roundtrip_witness:
  "\<exists>e. push_all (win_abi win64_types) [((0, 50), [2, 0, 0, 0]), ((17, 2), [220, 5, 0, 0])]
      (encoder_new (win_abi win64_types)
        \<lparr> mh_name = None, mh_iov = [], mh_control = Some (replicate 128 0), mh_controllen = 128 \<rparr>) =
      Inr e \<and>
    control_messages (win_abi win64_types) (encoder_finish (win_abi win64_types) e) =
      Some [((0, 50), [2, 0, 0, 0]), ((17, 2), [220, 5, 0, 0])]"
  by (rule win_cmsg_roundtrip [OF win64_types_ok, where N = 128])
     (simp_all add: payload_ok_def round_up_nat_def)

end
