(* ===== verification/CmsgUnix.thy ===== *)
theory CmsgUnix
  imports CmsgWindows
begin

text \<open>
  The control-message operations on Unix (\<^verbatim>\<open>src/cmsg/unix.rs\<close> of \<^verbatim>\<open>patches/noq-udp\<close>). They
  delegate to the macros of the C library, which are the fields of \<open>libc_macros\<close>; the crate
  adds how the control length is set. \<open>linux_macros\<close> are the macros as glibc documents them
  for a 64-bit machine, and the interface is interpreted on them.
\<close>

record libc_macros =
  lc_hdr_size :: nat
  lc_put_hdr :: "cmsghdr \<Rightarrow> bytes"
  lc_get_hdr :: "bytes \<Rightarrow> cmsghdr"
  lc_data_offset :: nat
  lc_len :: "nat \<Rightarrow> nat"
  lc_space :: "nat \<Rightarrow> nat"
  lc_firsthdr :: "msg_hdr \<Rightarrow> nat option"
  lc_nxthdr :: "msg_hdr \<Rightarrow> nat \<Rightarrow> nat option"

text \<open>Without control messages the pointer becomes null as well, for NetBSD.\<close>

definition unix_set_control_len :: "msg_hdr \<Rightarrow> nat \<Rightarrow> msg_hdr" where
  "unix_set_control_len h len =
     (if len = 0 then h \<lparr> mh_controllen := len, mh_control := None \<rparr>
      else h \<lparr> mh_controllen := len \<rparr>)"

definition unix_abi :: "libc_macros \<Rightarrow> cmsg_abi" where
  "unix_abi L =
     \<lparr> abi_hdr_size = lc_hdr_size L, abi_put_hdr = lc_put_hdr L, abi_get_hdr = lc_get_hdr L,
       abi_data_offset = lc_data_offset L, abi_cmsg_len = lc_len L, abi_cmsg_space = lc_space L,
       abi_first = lc_firsthdr L, abi_next = lc_nxthdr L,
       abi_set_control_len = unix_set_control_len \<rparr>"

lemma unix_abi_sel [simp]:
  "abi_hdr_size (unix_abi L) = lc_hdr_size L" "abi_put_hdr (unix_abi L) = lc_put_hdr L"
  "abi_get_hdr (unix_abi L) = lc_get_hdr L" "abi_data_offset (unix_abi L) = lc_data_offset L"
  "abi_cmsg_len (unix_abi L) = lc_len L" "abi_cmsg_space (unix_abi L) = lc_space L"
  "abi_first (unix_abi L) = lc_firsthdr L" "abi_next (unix_abi L) = lc_nxthdr L"
  "abi_set_control_len (unix_abi L) = unix_set_control_len"
  by (simp_all add: unix_abi_def)

section \<open>The macros of glibc\<close>

definition linux_nxthdr :: "msg_hdr \<Rightarrow> nat \<Rightarrow> nat option" where
  "linux_nxthdr h at =
     (let hdr = (\<lambda>k. w_get_hdr win64_types (take 16 (drop k (control_bytes h))));
          nxt = at + round_up_nat 8 (cm_len (hdr at))
      in if cm_len (hdr at) < 16 then None
         else if mh_controllen h < nxt + 16 then None
         else if mh_controllen h < nxt + round_up_nat 8 (cm_len (hdr nxt)) then None
         else Some nxt)"

definition linux_macros :: libc_macros where
  "linux_macros =
     \<lparr> lc_hdr_size = 16, lc_put_hdr = w_put_hdr win64_types, lc_get_hdr = w_get_hdr win64_types,
       lc_data_offset = 16, lc_len = (\<lambda>n. 16 + n), lc_space = (\<lambda>n. 16 + round_up_nat 8 n),
       lc_firsthdr = (\<lambda>h. if 16 \<le> mh_controllen h then map_option (\<lambda>_. 0) (mh_control h) else None),
       lc_nxthdr = linux_nxthdr \<rparr>"

lemma linux_macros_sel [simp]:
  "lc_hdr_size linux_macros = 16" "lc_put_hdr linux_macros = w_put_hdr win64_types"
  "lc_get_hdr linux_macros = w_get_hdr win64_types" "lc_data_offset linux_macros = 16"
  "lc_len linux_macros n = 16 + n" "lc_space linux_macros n = 16 + round_up_nat 8 n"
  "lc_firsthdr linux_macros h =
     (if 16 \<le> mh_controllen h then map_option (\<lambda>_. 0) (mh_control h) else None)"
  "lc_nxthdr linux_macros = linux_nxthdr"
  by (simp_all add: linux_macros_def)

lemma round_up_16: "round_up_nat 8 (16 + n) = 16 + round_up_nat 8 n"
  unfolding round_up_nat_def by presburger

lemma linux_interface: "cmsg_interface (unix_abi linux_macros)"
proof
  let ?A = "unix_abi linux_macros"
  note k = win_types_ok_def [THEN iffD1, OF win64_types_ok]
  have at: "w_get_hdr win64_types (take 16 (drop at (control_bytes h))) = cmsg_at ?A h at" for h at
    by (simp add: cmsg_at_def)
  show "0 < abi_hdr_size ?A" "abi_hdr_size ?A \<le> abi_data_offset ?A" "abi_data_offset ?A < 2 ^ 30"
    by simp_all
  show "length (abi_put_hdr ?A c) = abi_hdr_size ?A" for c
    using k by simp
  show "abi_get_hdr ?A (abi_put_hdr ?A c) = c" if "cm_len c < 2 ^ 31" for c
    using k that by simp
  show "cm_len (abi_get_hdr ?A (replicate (abi_hdr_size ?A) 0)) = 0"
    using k by simp
  show "abi_cmsg_len ?A n = abi_data_offset ?A + n" for n
    by simp
  show "abi_cmsg_len ?A n \<le> abi_cmsg_space ?A n" for n
    using round_up_nat_bounds(1) [of 8 n] by simp
  show "abi_first ?A h = Some 0" if "mh_control h = Some b" "abi_hdr_size ?A \<le> mh_controllen h" for h b
    using that by simp
  show "abi_first ?A h = None" if "mh_controllen h < abi_hdr_size ?A" for h
    using that by simp
  show "abi_next ?A h at = Some (at + abi_cmsg_space ?A n)"
    if "cm_len (cmsg_at ?A h at) = abi_cmsg_len ?A n"
      "at + abi_cmsg_space ?A n + abi_hdr_size ?A < mh_controllen h"
      "cm_len (cmsg_at ?A h (at + abi_cmsg_space ?A n)) = 0 \<or>
        (\<exists>m < 2 ^ 30. cm_len (cmsg_at ?A h (at + abi_cmsg_space ?A n)) = abi_cmsg_len ?A m \<and>
             at + abi_cmsg_space ?A n + abi_cmsg_space ?A m \<le> mh_controllen h)" for h at n
    using that by (auto simp: linux_nxthdr_def at Let_def round_up_16 add.assoc) (simp add: round_up_nat_def)
  show "abi_next ?A h at = None"
    if "cm_len (cmsg_at ?A h at) = abi_cmsg_len ?A n"
      "mh_controllen h < at + abi_cmsg_space ?A n + abi_hdr_size ?A" for h at n
    using that by (auto simp: linux_nxthdr_def at Let_def round_up_16 add.assoc)
  show "abi_set_control_len ?A h n = h \<lparr> mh_controllen := n \<rparr>" if "0 < n" for h n
    using that by (simp add: unix_set_control_len_def)
  show "\<exists>c. abi_set_control_len ?A h 0 = h \<lparr> mh_control := c, mh_controllen := 0 \<rparr>" for h
    by (rule exI [of _ None]) (simp add: unix_set_control_len_def)
qed

interpretation linux: cmsg_interface "unix_abi linux_macros"
  by (rule linux_interface)

end
