(* ===== verification/UdpSocket.thy ===== *)
theory UdpSocket
  imports UdpTypes
begin

text \<open>
  Socket options and segmentation offload of \<^verbatim>\<open>patches/noq-udp\<close>: the option calls of
  \<^verbatim>\<open>src/unix.rs\<close> that classify an unsupported option, and the Linux module \<^verbatim>\<open>src/linux.rs\<close>,
  which decides from the kernel's release string and a trial \<^verbatim>\<open>setsockopt\<close> whether a socket
  may send several segments with one call.

  The system is the record \<open>sock_env\<close>: its answers to the calls that open a socket. An
  operation on a socket is a function from the option calls made so far to the longer list
  of calls and the result, so the order of the calls is part of the model. The two control codes
  that Windows sets with \<^verbatim>\<open>WSAIoctl\<close> instead of \<^verbatim>\<open>setsockopt\<close> are options too.
\<close>

section \<open>Socket options\<close>

datatype sockopt =
    IP_RECVTOS | IP_MTU_DISCOVER | IPV6_MTU_DISCOVER | IP_PKTINFO | IP_DONTFRAG
  | IP_RECVDSTADDR | IPV6_RECVPKTINFO | IPV6_RECVTCLASS | IPV6_DONTFRAG | UDP_GRO
  | SO_TIMESTAMPNS | UDP_SEGMENT
  | IP_DONTFRAGMENT | IP_RECVECN | IPV6_PKTINFO | IPV6_RECVECN | UDP_SEND_MSG_SIZE
  | UDP_RECV_MAX_COALESCED_SIZE | SIO_UDP_CONNRESET | SIO_UDP_NETRESET

datatype optval = OptInt i32 | IP_PMTUDISC_PROBE | IPV6_PMTUDISC_PROBE

definition OPTION_ON :: optval where
  "OPTION_ON = OptInt 1"

record sock_env =
  se_set_nonblocking :: "io_error option"
  se_local_addr :: "io_error + socket_addr"
  se_only_v6 :: "io_error + bool"
  se_setsockopt :: "sockopt \<Rightarrow> optval \<Rightarrow> io_error option"
  se_uname :: "io_error + bytes"

type_synonym opt_call = "sockopt \<times> optval"

type_synonym 'a sockop = "opt_call list \<Rightarrow> opt_call list \<times> (io_error + 'a)"

definition sockop_return :: "'a \<Rightarrow> 'a sockop" where
  "sockop_return x tr = (tr, Inr x)"

definition sockop_lift :: "io_error + 'a \<Rightarrow> 'a sockop" where
  "sockop_lift r tr = (tr, r)"

text \<open>The \<^verbatim>\<open>?\<close> operator between calls.\<close>

definition sockop_bind :: "'a sockop \<Rightarrow> ('a \<Rightarrow> 'b sockop) \<Rightarrow> 'b sockop" where
  "sockop_bind m f tr =
     (case m tr of (tr', Inl e) \<Rightarrow> (tr', Inl e) | (tr', Inr x) \<Rightarrow> f x tr')"

definition sockop_when :: "bool \<Rightarrow> unit sockop \<Rightarrow> unit sockop" where
  "sockop_when b m = (if b then m else sockop_return ())"

text \<open>An error that is matched on instead of passed on.\<close>

definition sockop_catch :: "'a sockop \<Rightarrow> (io_error + 'a) sockop" where
  "sockop_catch m tr = (case m tr of (tr', r) \<Rightarrow> (tr', Inr r))"

definition set_socket_option :: "sock_env \<Rightarrow> sockopt \<Rightarrow> optval \<Rightarrow> unit sockop" where
  "set_socket_option env opt v tr =
     (tr @ [(opt, v)],
      case se_setsockopt env opt v of None \<Rightarrow> Inr () | Some e \<Rightarrow> Inl e)"

definition set_socket_option_supported :: "sock_env \<Rightarrow> sockopt \<Rightarrow> optval \<Rightarrow> bool sockop" where
  "set_socket_option_supported env opt v =
     sockop_bind (sockop_catch (set_socket_option env opt v)) (\<lambda>r.
       case r of
         Inr _ \<Rightarrow> sockop_return True
       | Inl err \<Rightarrow>
           if raw_os_error err = Some ENOPROTOOPT then sockop_return False
           else if raw_os_error err = Some EOPNOTSUPP then sockop_return False
           else sockop_lift (Inl err))"

text \<open>The result of the two calls as a function of the answer alone.\<close>

definition opt_result :: "sock_env \<Rightarrow> sockopt \<Rightarrow> optval \<Rightarrow> io_error + unit" where
  "opt_result env opt v = (case se_setsockopt env opt v of None \<Rightarrow> Inr () | Some e \<Rightarrow> Inl e)"

definition opt_supported :: "sock_env \<Rightarrow> sockopt \<Rightarrow> optval \<Rightarrow> io_error + bool" where
  "opt_supported env opt v =
     (case se_setsockopt env opt v of
        None \<Rightarrow> Inr True
      | Some e \<Rightarrow> if e \<in> {Os ENOPROTOOPT, Os EOPNOTSUPP} then Inr False else Inl e)"

lemma raw_os_error_Some [simp]: "raw_os_error e = Some n \<longleftrightarrow> e = Os n"
  by (cases e) auto

lemma sockop_simps [simp]:
  "sockop_return x tr = (tr, Inr x)"
  "sockop_lift r tr = (tr, r)"
  "sockop_bind (sockop_return x) f = f x"
  "sockop_when True m = m"
  "sockop_when False m = sockop_return ()"
  by (simp_all add: sockop_return_def sockop_lift_def sockop_bind_def sockop_when_def fun_eq_iff)

lemma set_socket_option_result [simp]:
  "set_socket_option env opt v tr = (tr @ [(opt, v)], opt_result env opt v)"
  by (simp add: set_socket_option_def opt_result_def)

lemma set_socket_option_supported_result [simp]:
  "set_socket_option_supported env opt v tr = (tr @ [(opt, v)], opt_supported env opt v)"
  by (simp add: set_socket_option_supported_def sockop_bind_def sockop_catch_def opt_result_def
      opt_supported_def split: option.split)

section \<open>The kernel version\<close>

datatype kernel_version = KernelVersion (kv_version: u8) (kv_major_revision: u8)

text \<open>The derived order compares the fields in their order of declaration.\<close>

instantiation kernel_version :: linorder
begin

definition less_eq_kernel_version :: "kernel_version \<Rightarrow> kernel_version \<Rightarrow> bool" where
  "less_eq_kernel_version a b \<longleftrightarrow>
     kv_version a < kv_version b \<or>
     (kv_version a = kv_version b \<and> kv_major_revision a \<le> kv_major_revision b)"

definition less_kernel_version :: "kernel_version \<Rightarrow> kernel_version \<Rightarrow> bool" where
  "less_kernel_version a b \<longleftrightarrow>
     kv_version a < kv_version b \<or>
     (kv_version a = kv_version b \<and> kv_major_revision a < kv_major_revision b)"

instance
  by standard (auto simp: less_eq_kernel_version_def less_kernel_version_def kernel_version.expand)

end

definition SUPPORTED_SINCE :: kernel_version where
  "SUPPORTED_SINCE = KernelVersion 4 18"

text \<open>\<^verbatim>\<open>u8::from_str\<close>: an optional plus sign, at least one digit, and a value below 256.\<close>

definition u8_from_str :: "string \<Rightarrow> u8 option" where
  "u8_from_str s =
     (let t = (case s of c # d # cs \<Rightarrow> if c = CHR ''+'' then d # cs else s | _ \<Rightarrow> s);
          (ds, rest) = scan_digits 10 t
      in if ds = [] \<or> rest \<noteq> [] \<or> 256 \<le> digits_value 10 ds then None
         else Some (of_nat (digits_value 10 ds)))"

text \<open>\<^verbatim>\<open>str::split\<close> at a character.\<close>

fun split_at :: "char \<Rightarrow> string \<Rightarrow> string list" where
  "split_at c [] = [[]]"
| "split_at c (x # xs) =
     (if x = c then [] # split_at c xs
      else (case split_at c xs of [] \<Rightarrow> [[x]] | w # ws \<Rightarrow> (x # w) # ws))"

text \<open>\<^verbatim>\<open>release.split_once('-').map(|pair| pair.0).unwrap_or(release)\<close>.\<close>

definition before_dash :: "string \<Rightarrow> string" where
  "before_dash s = takeWhile (\<lambda>c. c \<noteq> CHR ''-'') s"

definition kernel_version_from_str :: "string \<Rightarrow> kernel_version option" where
  "kernel_version_from_str release =
     (case split_at (CHR ''.'') (before_dash release) of
        v # r # _ \<Rightarrow>
          Option.bind (u8_from_str v) (\<lambda>version.
          Option.bind (u8_from_str r) (\<lambda>major. Some (KernelVersion version major)))
      | _ \<Rightarrow> None)"

section \<open>Generic segmentation offload\<close>

text \<open>
  \<^verbatim>\<open>uname\<close> fills an array of bytes; the string is what stands before the first zero byte (a
  release is ASCII text).
\<close>

definition kernel_version_string :: "sock_env \<Rightarrow> io_error + string" where
  "kernel_version_string env =
     (case se_uname env of
        Inl e \<Rightarrow> Inl e
      | Inr release \<Rightarrow> Inr (map (\<lambda>b. char_of (unat b)) (takeWhile (\<lambda>b. b \<noteq> 0) release)))"

definition supported_by_current_kernel :: "sock_env \<Rightarrow> bool" where
  "supported_by_current_kernel env =
     (case kernel_version_string env of
        Inl e \<Rightarrow> False
      | Inr release \<Rightarrow>
          (case kernel_version_from_str release of
             None \<Rightarrow> False
           | Some v \<Rightarrow> if v < SUPPORTED_SINCE then False else True))"

text \<open>
  The answer is kept in a \<^verbatim>\<open>OnceLock\<close> for the life of the process: \<open>once\<close> is its content
  before the call, and the first component of the result its content afterwards.
\<close>

definition kernel_supported_once :: "sock_env \<Rightarrow> bool option \<Rightarrow> bool option \<times> bool" where
  "kernel_supported_once env once =
     (case once of
        Some b \<Rightarrow> (once, b)
      | None \<Rightarrow> (let b = supported_by_current_kernel env in (Some b, b)))"

definition linux_max_gso_segments :: "sock_env \<Rightarrow> bool option \<Rightarrow> (bool option \<times> nat) sockop" where
  "linux_max_gso_segments env once =
     (let (once', supported) = kernel_supported_once env once in
      if \<not> supported then sockop_return (once', 1)
      else sockop_bind (sockop_catch (set_socket_option env UDP_SEGMENT (OptInt 1500))) (\<lambda>r.
        case r of
          Inr _ \<Rightarrow>
            sockop_bind (sockop_catch (set_socket_option env UDP_SEGMENT (OptInt 0))) (\<lambda>_.
            sockop_return (once', 64))
        | Inl e \<Rightarrow> sockop_return (once', 1)))"

lemma linux_max_gso_result:
  "linux_max_gso_segments env once tr =
     (let (once', supported) = kernel_supported_once env once in
      if \<not> supported then (tr, Inr (once', 1))
      else if se_setsockopt env UDP_SEGMENT (OptInt 1500) = None
      then (tr @ [(UDP_SEGMENT, OptInt 1500), (UDP_SEGMENT, OptInt 0)], Inr (once', 64))
      else (tr @ [(UDP_SEGMENT, OptInt 1500)], Inr (once', 1)))"
  by (auto simp: linux_max_gso_segments_def sockop_bind_def sockop_catch_def opt_result_def
      split: prod.split option.split)

section \<open>Release strings\<close>

lemma split_at_join:
  "c \<notin> set a \<Longrightarrow> split_at c (a @ c # b) = a # split_at c b"
  by (induction a) auto

lemma split_at_none: "c \<notin> set a \<Longrightarrow> split_at c a = [a]"
  by (induction a) auto

lemma split_at_hd: "c \<notin> set a \<Longrightarrow> b = [] \<or> hd b = c \<Longrightarrow> \<exists>ws. split_at c (a @ b) = a # ws"
  by (cases b) (auto simp: split_at_none split_at_join)

lemma show_nat_digit_set: "x \<in> set (show_nat n) \<Longrightarrow> \<exists>d < 10. x = digit_char d"
  by (auto simp: show_nat_digits dest: nat_digits_small)

lemma digit_char_not_sign:
  assumes "d < 10"
  shows "digit_char d \<noteq> CHR ''.''" "digit_char d \<noteq> CHR ''-''" "digit_char d \<noteq> CHR ''+''"
  using to_digit_digit_char [OF assms] by (auto simp: to_digit_def)

lemma show_nat_no_sign:
  "CHR ''.'' \<notin> set (show_nat n)" "CHR ''-'' \<notin> set (show_nat n)" "CHR ''+'' \<notin> set (show_nat n)"
  by (metis show_nat_digit_set digit_char_not_sign(1), metis show_nat_digit_set digit_char_not_sign(2),
      metis show_nat_digit_set digit_char_not_sign(3))

lemma u8_from_show:
  assumes "n < 256"
  shows "u8_from_str (show_nat n) = Some (of_nat n)"
proof -
  have "scan_digits 10 (map digit_char (nat_digits n) @ []) = (nat_digits n, [])"
    by (rule scan_digits_map) (auto dest: nat_digits_small)
  then have scan: "scan_digits 10 (show_nat n) = (nat_digits n, [])"
    by (simp add: show_nat_digits)
  have "(case show_nat n of c # d # cs \<Rightarrow> if c = CHR ''+'' then d # cs else show_nat n
      | _ \<Rightarrow> show_nat n) = show_nat n"
    using show_nat_no_sign(3) [of n] by (auto split: list.split)
  then show ?thesis
    using assms scan
    by (simp add: u8_from_str_def digits_value_nat_digits nat_digits_nonempty)
qed

text \<open>
  A release string starts with the version and the major revision, separated by a dot; what
  follows is a further component or a local suffix.
\<close>

lemma before_dash_append:
  "CHR ''-'' \<notin> set a \<Longrightarrow> before_dash (a @ b) = a @ before_dash b"
  by (auto simp: before_dash_def takeWhile_append)

theorem kernel_version_from_release:
  assumes "a < 256" and "b < 256" and "rest = [] \<or> hd rest \<in> {CHR ''.'', CHR ''-''}"
  shows "kernel_version_from_str (show_nat a @ ''.'' @ show_nat b @ rest) =
    Some (KernelVersion (of_nat a) (of_nat b))"
proof -
  have "before_dash (show_nat a @ ''.'' @ show_nat b @ rest) =
      show_nat a @ CHR ''.'' # show_nat b @ before_dash rest"
    using show_nat_no_sign(2) by (simp add: before_dash_append) (simp add: before_dash_def takeWhile_append)
  moreover have "before_dash rest = [] \<or> hd (before_dash rest) = CHR ''.''"
    using assms(3) by (cases rest) (auto simp: before_dash_def)
  ultimately obtain ws where
    "split_at (CHR ''.'') (before_dash (show_nat a @ ''.'' @ show_nat b @ rest)) =
      show_nat a # show_nat b # ws"
    using show_nat_no_sign(1) split_at_hd [of "CHR ''.''" "show_nat b" "before_dash rest"]
    by (auto simp: split_at_join)
  then show ?thesis
    using assms by (simp add: kernel_version_from_str_def u8_from_show)
qed

lemma supported_since:
  assumes "a < 256" and "b < 256"
  shows "KernelVersion (of_nat a) (of_nat b) < SUPPORTED_SINCE \<longleftrightarrow> a < 4 \<or> a = 4 \<and> b < 18"
proof -
  have n: "unat (of_nat a :: u8) = a" "unat (of_nat b :: u8) = b"
    using assms by (simp_all add: unat_of_nat)
  have "a = 4" if "(of_nat a :: u8) = 4"
    using n(1) unfolding that by simp
  then have "(of_nat a :: u8) = 4 \<longleftrightarrow> a = 4" by auto
  with n show ?thesis
    by (simp add: less_kernel_version_def SUPPORTED_SINCE_def word_less_nat_alt)
qed

text \<open>
  Segmentation offload is used exactly when it is safe to try: on a kernel release from 4.18
  on whose socket accepts the option, up to 64 segments go into one call; otherwise one. The
  trial option is always taken back, and a kernel that is too old is never asked.
\<close>

theorem gso_exactly_since_4_18:
  assumes "a < 256" and "b < 256" and "rest = [] \<or> hd rest \<in> {CHR ''.'', CHR ''-''}"
    and "kernel_version_string env = Inr (show_nat a @ ''.'' @ show_nat b @ rest)"
  shows "linux_max_gso_segments env None tr =
    (if a < 4 \<or> a = 4 \<and> b < 18 then (tr, Inr (Some False, 1))
     else if se_setsockopt env UDP_SEGMENT (OptInt 1500) = None
     then (tr @ [(UDP_SEGMENT, OptInt 1500), (UDP_SEGMENT, OptInt 0)], Inr (Some True, 64))
     else (tr @ [(UDP_SEGMENT, OptInt 1500)], Inr (Some True, 1)))"
  using assms(4) kernel_version_from_release [OF assms(1-3)] supported_since [OF assms(1,2)]
  by (simp add: linux_max_gso_result kernel_supported_once_def supported_by_current_kernel_def)

text \<open>The array for release 6.8.0-59, with what an earlier call left behind the zero byte.\<close>

lemma example_release:
  "kernel_version_string
     \<lparr> se_set_nonblocking = None, se_local_addr = Inr (SocketV4 (Ipv4 0 0 0 0) 0),
       se_only_v6 = Inr False, se_setsockopt = (\<lambda>_ _. None),
       se_uname = Inr [54, 46, 56, 46, 48, 45, 53, 57, 0, 52, 46, 49] \<rparr> =
   Inr (show_nat 6 @ ''.'' @ show_nat 8 @ ''.0-59'')"
  by (simp add: kernel_version_string_def) (code_simp)

lemma gso_exactly_since_4_18_witness:
  "linux_max_gso_segments
     \<lparr> se_set_nonblocking = None, se_local_addr = Inr (SocketV4 (Ipv4 0 0 0 0) 0),
       se_only_v6 = Inr False, se_setsockopt = (\<lambda>_ _. None),
       se_uname = Inr [54, 46, 56, 46, 48, 45, 53, 57, 0, 52, 46, 49] \<rparr> None [] =
   ([(UDP_SEGMENT, OptInt 1500), (UDP_SEGMENT, OptInt 0)], Inr (Some True, 64))"
  by (subst gso_exactly_since_4_18 [OF _ _ _ example_release]) simp_all

text \<open>Later sockets of the process reuse the first answer.\<close>

lemma kernel_asked_once:
  "kernel_supported_once env' (fst (kernel_supported_once env seen)) =
     (fst (kernel_supported_once env seen), snd (kernel_supported_once env seen))"
  by (auto simp: kernel_supported_once_def Let_def split: option.splits)

end
