(* ===== verification/UdpUnix.thy ===== *)
theory UdpUnix
  imports CmsgUnix UdpSocket
begin

text \<open>
  The Unix socket of \<^verbatim>\<open>patches/noq-udp\<close> (\<^verbatim>\<open>src/unix.rs\<close>): opening a socket, preparing and
  sending a datagram with its control messages, receiving, and decoding the control messages
  of a received datagram, on every target the file is compiled for. Conditional compilation
  is a test of the target in the record \<open>unix_platform\<close>, whose other fields are what the
  file takes from the C library: the control-message macros, the numbers of levels and
  types, and the layout of structures.

  System calls are functions of a state of the outside world. The retry loops may go on
  forever, so they are \<open>partial_function\<close>s whose value is then \<^const>\<open>None\<close>. The atomics and
  the mutex of the state are fields of \<open>unix_state\<close>; the operations run one at a time.
\<close>

section \<open>The platform\<close>

text \<open>The control messages that are encoded or decoded; a level and a type number each.\<close>

datatype cmsg_name =
    Ip_Tos | Ip_RecvTos | Ipv6_TClass | Ip_PktInfo | Ip_RecvDstAddr | Ipv6_PktInfo
  | Udp_Segment | Udp_Gro | Scm_TimestampNs

record in_pktinfo =
  ipi_ifindex :: i32
  ipi_spec_dst :: u32
  ipi_addr :: u32

record in6_pktinfo =
  ipi6_addr :: bytes
  ipi6_ifindex :: u32

record timespec =
  tv_sec :: "64 word"
  tv_nsec :: "64 word"

record unix_platform =
  pf_target :: target_os
  pf_fast_datapath :: bool
  pf_debug :: bool
  pf_log :: bool
  pf_le :: bool
  pf_libc :: libc_macros
  pf_cmsghdr_align :: nat
  pf_num :: "cmsg_name \<Rightarrow> i32 \<times> i32"
  pf_in_addr :: "u32 ctype"
  pf_in_pktinfo :: "in_pktinfo ctype"
  pf_in6_pktinfo :: "in6_pktinfo ctype"
  pf_timespec :: "timespec ctype"

abbreviation pf_abi :: "unix_platform \<Rightarrow> cmsg_abi" where
  "pf_abi P \<equiv> unix_abi (pf_libc P)"

definition apple_fast :: "unix_platform \<Rightarrow> bool" where
  "apple_fast P \<longleftrightarrow> apple (pf_target P) \<and> pf_fast_datapath P"

definition apple_slow :: "unix_platform \<Rightarrow> bool" where
  "apple_slow P \<longleftrightarrow> apple (pf_target P) \<and> \<not> pf_fast_datapath P"

definition LEN :: nat where
  "LEN = 96"

definition BATCH_SIZE :: "unix_platform \<Rightarrow> nat" where
  "BATCH_SIZE P = (if apple_slow P then 1 else 32)"

section \<open>The state of a socket\<close>

record unix_state =
  us_log :: error_log
  us_max_gso_segments :: nat
  us_gro_segments :: nat
  us_may_fragment :: bool
  us_sendmsg_einval :: bool
  us_apple_fast_path :: bool

text \<open>\<^verbatim>\<open>max_gso_segments\<close> converts to a \<^verbatim>\<open>NonZeroUsize\<close> and panics on zero.\<close>

definition max_gso_segments :: "unix_state \<Rightarrow> nat io" where
  "max_gso_segments st =
     (if us_max_gso_segments st = 0 then Inl (Crash ''must have non zero GSO segments'')
      else Inr (us_max_gso_segments st))"

definition set_apple_fast_path :: "unix_platform \<Rightarrow> unix_state \<Rightarrow> unix_state" where
  "set_apple_fast_path P st =
     st \<lparr> us_apple_fast_path := True, us_max_gso_segments := BATCH_SIZE P \<rparr>"

definition disable_apple_fast_path :: "unix_state \<Rightarrow> unix_state" where
  "disable_apple_fast_path st =
     st \<lparr> us_apple_fast_path := False, us_max_gso_segments := 1 \<rparr>"

definition resolve_apple_fast_fn :: "'f option \<Rightarrow> unix_state \<Rightarrow> unix_state \<times> 'f option" where
  "resolve_apple_fast_fn f st = ((if f = None then disable_apple_fast_path st else st), f)"

section \<open>Opening a socket\<close>

fun is_socket_v4 :: "socket_addr \<Rightarrow> bool" where
  "is_socket_v4 (SocketV4 a p) = True"
| "is_socket_v4 (SocketV6 g p fi si) = False"

definition cmsg_platform_space :: "unix_platform \<Rightarrow> nat" where
  "cmsg_platform_space P =
     (let t = pf_target P in
      if t = Linux \<or> bsd t \<or> apple t \<or> t = Android \<or> solarish t
      then abi_cmsg_space (pf_abi P) (c_size (pf_in6_pktinfo P)) else 0)"

definition recv_tos_option :: "unix_platform \<Rightarrow> sock_env \<Rightarrow> bool \<Rightarrow> unit sockop" where
  "recv_tos_option P env is_ipv4 =
     (if pf_target P \<in> {OpenBSD, NetBSD, DragonFly} \<or> solarish (pf_target P)
      then sockop_return ()
      else sockop_bind
        (if is_ipv4 then sockop_return True
         else sockop_bind (sockop_lift (se_only_v6 env)) (\<lambda>v6. sockop_return (\<not> v6))) (\<lambda>v4.
        if v4
        then sockop_bind (sockop_catch (set_socket_option env IP_RECVTOS OPTION_ON)) (\<lambda>_.
             sockop_return ())
        else sockop_return ()))"

text \<open>The block for Linux and Android; the result is \<^verbatim>\<open>may_fragment\<close> and \<^verbatim>\<open>gro_segments\<close>.\<close>

definition linux_options :: "sock_env \<Rightarrow> bool \<Rightarrow> (bool \<times> nat) sockop" where
  "linux_options env is_ipv4 =
     sockop_bind (set_socket_option_supported env IP_MTU_DISCOVER IP_PMTUDISC_PROBE) (\<lambda>s1.
     sockop_bind
       (if is_ipv4
        then sockop_bind (set_socket_option env IP_PKTINFO OPTION_ON) (\<lambda>_. sockop_return (\<not> s1))
        else sockop_bind
          (set_socket_option_supported env IPV6_MTU_DISCOVER IPV6_PMTUDISC_PROBE) (\<lambda>s2.
          sockop_return (\<not> s1 \<or> \<not> s2))) (\<lambda>mf.
     sockop_bind (sockop_catch (set_socket_option env UDP_GRO OPTION_ON)) (\<lambda>gro.
     sockop_bind (sockop_catch (set_socket_option env SO_TIMESTAMPNS OPTION_ON)) (\<lambda>_.
     sockop_return (mf, case gro of Inr _ \<Rightarrow> 64 | Inl _ \<Rightarrow> 1)))))"

definition dontfrag_option :: "unix_platform \<Rightarrow> sock_env \<Rightarrow> bool \<Rightarrow> bool \<Rightarrow> bool sockop" where
  "dontfrag_option P env is_ipv4 mf =
     (if (pf_target P = FreeBSD \<or> apple (pf_target P)) \<and> is_ipv4
      then sockop_bind (set_socket_option_supported env IP_DONTFRAG OPTION_ON) (\<lambda>s.
           sockop_return (mf \<or> \<not> s))
      else sockop_return mf)"

definition recvdstaddr_option :: "unix_platform \<Rightarrow> sock_env \<Rightarrow> bool \<Rightarrow> unit sockop" where
  "recvdstaddr_option P env is_ipv4 =
     (let t = pf_target P in
      if (bsd t \<or> apple t \<or> solarish t) \<and> is_ipv4
      then set_socket_option env IP_RECVDSTADDR OPTION_ON else sockop_return ())"

definition ipv6_options :: "unix_platform \<Rightarrow> sock_env \<Rightarrow> bool \<Rightarrow> bool \<Rightarrow> bool sockop" where
  "ipv6_options P env is_ipv4 mf =
     (if pf_target P \<noteq> Redox \<and> \<not> is_ipv4
      then sockop_bind (set_socket_option env IPV6_RECVPKTINFO OPTION_ON) (\<lambda>_.
           sockop_bind (set_socket_option env IPV6_RECVTCLASS OPTION_ON) (\<lambda>_.
           sockop_bind (set_socket_option_supported env IPV6_DONTFRAG OPTION_ON) (\<lambda>s.
           sockop_return (mf \<or> \<not> s))))
      else sockop_return mf)"

definition platform_max_gso ::
  "unix_platform \<Rightarrow> sock_env \<Rightarrow> bool option \<Rightarrow> (bool option \<times> nat) sockop" where
  "platform_max_gso P env once =
     (if linux_like (pf_target P) then linux_max_gso_segments env once
      else sockop_return (once, 1))"

definition unix_open ::
  "unix_platform \<Rightarrow> sock_env \<Rightarrow> bool option \<Rightarrow> nat \<Rightarrow> (bool option \<times> unix_state) sockop" where
  "unix_open P env once now =
     sockop_bind (sockop_lift (case se_set_nonblocking env of None \<Rightarrow> Inr () | Some e \<Rightarrow> Inl e)) (\<lambda>_.
     sockop_bind (sockop_lift (se_local_addr env)) (\<lambda>addr.
     let is_ipv4 = is_socket_v4 addr in
     sockop_bind (recv_tos_option P env is_ipv4) (\<lambda>_.
     sockop_bind
       (if linux_like (pf_target P) then linux_options env is_ipv4
        else sockop_return (False, 1)) (\<lambda>(mf1, gro).
     sockop_bind (dontfrag_option P env is_ipv4 mf1) (\<lambda>mf2.
     sockop_bind (recvdstaddr_option P env is_ipv4) (\<lambda>_.
     sockop_bind (ipv6_options P env is_ipv4 mf2) (\<lambda>mf.
     sockop_bind (platform_max_gso P env once) (\<lambda>(once', gso).
     sockop_return (once',
       \<lparr> us_log = error_log_new now, us_max_gso_segments = gso, us_gro_segments = gro,
         us_may_fragment = mf, us_sendmsg_einval = False, us_apple_fast_path = False \<rparr>)))))))))"

text \<open>\<^verbatim>\<open>UdpSocketState::new\<close> with the two assertions at its start.\<close>

definition unix_new ::
  "unix_platform \<Rightarrow> sock_env \<Rightarrow> bool option \<Rightarrow> nat \<Rightarrow> opt_call list \<Rightarrow>
   opt_call list \<times> (bool option \<times> unix_state) io" where
  "unix_new P env once now tr =
     (if LEN < abi_cmsg_space (pf_abi P) (c_size (int_type (pf_le P))) + cmsg_platform_space P
      then (tr, Inl (Crash ''assertion failed: cmsg::LEN''))
      else if 8 < pf_cmsghdr_align P
      then (tr, Inl (Crash ''control message buffers will be misaligned''))
      else (case unix_open P env once now tr of
              (tr', Inl e) \<Rightarrow> (tr', Inl (IoErr e))
            | (tr', Inr x) \<Rightarrow> (tr', Inr x)))"

section \<open>Preparing a datagram\<close>

text \<open>\<^verbatim>\<open>ecn as IpTosTy\<close> is one byte on FreeBSD and an \<^verbatim>\<open>int\<close> elsewhere.\<close>

definition ip_tos_bytes :: "unix_platform \<Rightarrow> i32 \<Rightarrow> bytes" where
  "ip_tos_bytes P ecn =
     (if pf_target P = FreeBSD then c_put uchar_type (ucast ecn) else c_put (int_type (pf_le P)) ecn)"

definition push_ecn :: "unix_platform \<Rightarrow> bool \<Rightarrow> transmit \<Rightarrow> encoder \<Rightarrow> encoder io" where
  "push_ecn P einval t e =
     (let ecn = ecn_int (tx_ecn t) in
      if dest_is_ipv4 t
      then (if \<not> einval
            then (if pf_target P \<noteq> NetBSD
                  then encoder_push (pf_abi P) (pf_num P Ip_Tos) (ip_tos_bytes P ecn) e
                  else Inr e)
            else Inr e)
      else (if pf_target P \<noteq> Redox
            then encoder_push (pf_abi P) (pf_num P Ipv6_TClass) (c_put (int_type (pf_le P)) ecn) e
            else Inr e))"

text \<open>\<^verbatim>\<open>gso::set_segment_size\<close>, a no-op outside Linux and Android.\<close>

definition set_segment_size :: "unix_platform \<Rightarrow> u16 \<Rightarrow> encoder \<Rightarrow> encoder io" where
  "set_segment_size P seg e =
     (if linux_like (pf_target P)
      then encoder_push (pf_abi P) (pf_num P Udp_Segment) (c_put (ushort_type (pf_le P)) seg) e
      else Inr e)"

definition push_segment_size :: "unix_platform \<Rightarrow> transmit \<Rightarrow> encoder \<Rightarrow> encoder io" where
  "push_segment_size P t e =
     (if \<not> apple_fast P
      then (case effective_segment_size t of
              None \<Rightarrow> Inr e
            | Some n \<Rightarrow> set_segment_size P (of_nat n) e)
      else Inr e)"

definition push_src_ip ::
  "unix_platform \<Rightarrow> bool \<Rightarrow> ip_addr option \<Rightarrow> encoder \<Rightarrow> encoder io" where
  "push_src_ip P encode_src_ip src e =
     (case src of
        None \<Rightarrow> Inr e
      | Some (IpV4 v4) \<Rightarrow>
          (if linux_like (pf_target P)
           then encoder_push (pf_abi P) (pf_num P Ip_PktInfo)
                  (c_put (pf_in_pktinfo P)
                     \<lparr> ipi_ifindex = 0, ipi_spec_dst = s_addr (pf_le P) v4, ipi_addr = 0 \<rparr>) e
           else if bsd (pf_target P) \<or> apple (pf_target P) \<or> solarish (pf_target P)
           then (if encode_src_ip
                 then encoder_push (pf_abi P) (pf_num P Ip_RecvDstAddr)
                        (c_put (pf_in_addr P) (s_addr (pf_le P) v4)) e
                 else Inr e)
           else Inr e)
      | Some (IpV6 v6) \<Rightarrow>
          (if pf_target P = Redox then Inr e
           else encoder_push (pf_abi P) (pf_num P Ipv6_PktInfo)
                  (c_put (pf_in6_pktinfo P) \<lparr> ipi6_addr = octets6 v6, ipi6_ifindex = 0 \<rparr>) e))"

text \<open>
  \<^verbatim>\<open>prepare_msg\<close>: the header that goes to the system, and what the control buffer of the
  caller holds afterwards (a second call writes over it).
\<close>

definition prepare_msg ::
  "unix_platform \<Rightarrow> transmit \<Rightarrow> bytes \<Rightarrow> bool \<Rightarrow> bool \<Rightarrow> (msg_hdr \<times> bytes) io" where
  "prepare_msg P t ctrl encode_src_ip sendmsg_einval =
     (let hdr = \<lparr> mh_name = Some (tx_destination t), mh_iov = tx_contents t,
                  mh_control = Some ctrl, mh_controllen = LEN \<rparr>
      in try_then (push_ecn P sendmsg_einval t (encoder_new (pf_abi P) hdr)) (\<lambda>e1.
         try_then (push_segment_size P t e1) (\<lambda>e2.
         try_then (push_src_ip P encode_src_ip (tx_src_ip t) e2) (\<lambda>e3.
         Inr (encoder_finish (pf_abi P) e3, control_bytes (en_hdr e3))))))"

section \<open>Sending\<close>

text \<open>
  \<^verbatim>\<open>retry_if_interrupted\<close>: \<open>f\<close> is one system call as a function of the outside world; a
  non-negative return value is \<^const>\<open>Inr\<close>, the last error otherwise \<^const>\<open>Inl\<close>.
\<close>

partial_function (option) retry_if_interrupted ::
  "('w \<Rightarrow> 'w \<times> (io_error + 'a)) \<Rightarrow> 'w \<Rightarrow> ('w \<times> (io_error + 'a)) option" where
  "retry_if_interrupted f w =
     (case f w of
        (w', Inr n) \<Rightarrow> Some (w', Inr n)
      | (w', Inl e) \<Rightarrow>
          if error_kind e \<noteq> Interrupted then Some (w', Inl e) else retry_if_interrupted f w')"

text \<open>\<open>snd_msg w h\<close> is \<^verbatim>\<open>libc::sendmsg\<close> with the header \<open>h\<close>.\<close>

type_synonym 'w sendmsg = "'w \<Rightarrow> msg_hdr \<Rightarrow> 'w \<times> (io_error + nat)"

text \<open>Giving up segmentation offload after an error that may come from it.\<close>

definition halt_offload :: "unix_platform \<Rightarrow> io_error \<Rightarrow> unix_state \<Rightarrow> unix_state io" where
  "halt_offload P e st =
     (if linux_like (pf_target P) \<and> (raw_os_error e = Some EIO \<or> raw_os_error e = Some EINVAL)
      then try_then (max_gso_segments st) (\<lambda>n.
           Inr (if 1 < n then st \<lparr> us_max_gso_segments := 1 \<rparr> else st))
      else Inr st)"

partial_function (option) unix_send_loop ::
  "unix_platform \<Rightarrow> 'w sendmsg \<Rightarrow> transmit \<Rightarrow> bool \<Rightarrow> 'w \<Rightarrow> unix_state \<Rightarrow> msg_hdr \<Rightarrow> bytes \<Rightarrow>
   ('w \<times> unix_state \<times> unit io) option" where
  "unix_send_loop P snd_msg t encode_src_ip w st hdr ctrl =
     (case snd_msg w hdr of
        (w', Inr n) \<Rightarrow> Some (w', st, Inr ())
      | (w', Inl e) \<Rightarrow>
          if error_kind e = Interrupted
          then unix_send_loop P snd_msg t encode_src_ip w' st hdr ctrl
          else if error_kind e = WouldBlock then Some (w', st, Inl (IoErr e))
          else
            (case halt_offload P e st of
               Inl c \<Rightarrow> Some (w', st, Inl c)
             | Inr st1 \<Rightarrow>
                 if raw_os_error e = Some EINVAL \<and> \<not> us_sendmsg_einval st1
                 then
                   (let st2 = st1 \<lparr> us_sendmsg_einval := True \<rparr> in
                    case prepare_msg P t ctrl encode_src_ip (us_sendmsg_einval st2) of
                      Inl c \<Rightarrow> Some (w', st2, Inl c)
                    | Inr (hdr', ctrl') \<Rightarrow>
                        unix_send_loop P snd_msg t encode_src_ip w' st2 hdr' ctrl')
                 else Some (w', st1, Inl (IoErr e))))"

text \<open>On FreeBSD a source address is only encoded for a socket bound to the wildcard address.\<close>

definition encode_src_ip_of :: "unix_platform \<Rightarrow> sock_env \<Rightarrow> io_error + bool" where
  "encode_src_ip_of P env =
     (if pf_target P = FreeBSD
      then (case se_local_addr env of
              Inl e \<Rightarrow> Inl e
            | Inr (SocketV4 ip port) \<Rightarrow> Inr (ip = Ipv4 0 0 0 0)
            | Inr (SocketV6 g port fi si) \<Rightarrow> Inr True)
      else Inr True)"

definition unix_send ::
  "unix_platform \<Rightarrow> sock_env \<Rightarrow> 'w sendmsg \<Rightarrow> transmit \<Rightarrow> 'w \<Rightarrow> unix_state \<Rightarrow>
   ('w \<times> unix_state \<times> unit io) option" where
  "unix_send P env snd_msg t w st =
     (case encode_src_ip_of P env of
        Inl e \<Rightarrow> Some (w, st, Inl (IoErr e))
      | Inr enc \<Rightarrow>
          (case prepare_msg P t (replicate LEN 0) enc (us_sendmsg_einval st) of
             Inl c \<Rightarrow> Some (w, st, Inl c)
           | Inr (hdr, ctrl) \<Rightarrow> unix_send_loop P snd_msg t enc w st hdr ctrl))"

definition send_single ::
  "unix_platform \<Rightarrow> 'w sendmsg \<Rightarrow> transmit \<Rightarrow> 'w \<Rightarrow> unix_state \<Rightarrow>
   ('w \<times> unix_state \<times> unit io) option" where
  "send_single P snd_msg t w st =
     (case prepare_msg P t (replicate LEN 0)
             (apple (pf_target P) \<or> pf_target P = OpenBSD \<or> pf_target P = NetBSD)
             (us_sendmsg_einval st) of
        Inl c \<Rightarrow> Some (w, st, Inl c)
      | Inr (hdr, ctrl) \<Rightarrow>
          map_option
            (\<lambda>(w', r). (w', st, case r of Inl e \<Rightarrow> Inl (IoErr e) | Inr n \<Rightarrow> Inr ()))
            (retry_if_interrupted (\<lambda>w. snd_msg w hdr) w))"

text \<open>
  The function \<^verbatim>\<open>send\<close> of the module where it is compiled here (\<^verbatim>\<open>apple_fast\<close> brings its own):
  \<^verbatim>\<open>UdpSocketState::try_send\<close>.
\<close>

definition unix_try_send ::
  "unix_platform \<Rightarrow> sock_env \<Rightarrow> 'w sendmsg \<Rightarrow> transmit \<Rightarrow> 'w \<Rightarrow> unix_state \<Rightarrow>
   ('w \<times> unix_state \<times> unit io) option" where
  "unix_try_send P env snd_msg t w st =
     (if pf_target P \<in> {OpenBSD, NetBSD} \<or> apple_slow P then send_single P snd_msg t w st
      else unix_send P env snd_msg t w st)"

text \<open>\<^verbatim>\<open>UdpSocketState::send\<close>: what becomes of the result of a raw send.\<close>

definition send_outcome ::
  "unix_platform \<Rightarrow> nat \<Rightarrow> transmit \<Rightarrow> unix_state \<Rightarrow> unit io \<Rightarrow> unix_state \<times> unit io" where
  "send_outcome P now t st r =
     (case r of
        Inr _ \<Rightarrow> (st, Inr ())
      | Inl (Crash c) \<Rightarrow> (st, Inl (Crash c))
      | Inl (IoErr e) \<Rightarrow>
          if error_kind e = WouldBlock then (st, Inl (IoErr e))
          else if raw_os_error e = Some EMSGSIZE then (st, Inr ())
          else (st \<lparr> us_log := log_sendmsg_error (pf_log P) now e t (us_log st) \<rparr>, Inr ()))"

definition unix_socket_send ::
  "unix_platform \<Rightarrow> sock_env \<Rightarrow> 'w sendmsg \<Rightarrow> nat \<Rightarrow> transmit \<Rightarrow> 'w \<Rightarrow> unix_state \<Rightarrow>
   ('w \<times> unix_state \<times> unit io) option" where
  "unix_socket_send P env snd_msg now t w st =
     map_option (\<lambda>(w', st', r). (w', send_outcome P now t st' r)) (unix_try_send P env snd_msg t w st)"

section \<open>Decoding what was received\<close>

record control_metadata =
  cd_ecn_bits :: u8
  cd_dst_ip :: "ip_addr option"
  cd_interface_index :: "u32 option"
  cd_stride :: nat
  cd_timestamp :: "nat option"

text \<open>\<^verbatim>\<open>c_int as usize\<close> extends the sign.\<close>

definition int_as_usize :: "i32 \<Rightarrow> nat" where
  "int_as_usize x = unat (scast x :: 64 word)"

text \<open>\<^verbatim>\<open>u64::try_from(tv_sec).unwrap_or(0)\<close>, likewise the nanoseconds, and \<^verbatim>\<open>Duration::new\<close>.\<close>

definition timespec_duration :: "timespec \<Rightarrow> nat" where
  "timespec_duration ts =
     (let secs = (if sint (tv_sec ts) < 0 then 0 else nat (sint (tv_sec ts)));
          nsecs = (if sint (tv_nsec ts) < 0 \<or> 2 ^ 32 \<le> sint (tv_nsec ts) then 0
                   else nat (sint (tv_nsec ts)))
      in secs * 10 ^ 9 + nsecs)"

definition control_decode ::
  "unix_platform \<Rightarrow> msg_hdr \<Rightarrow> control_metadata \<Rightarrow> nat \<Rightarrow> control_metadata io" where
  "control_decode P h cd at =
     (let A = pf_abi P; dbg = pf_debug P; tgt = pf_target P; le = pf_le P;
          c = cmsg_at A h at; key = (cm_level c, cm_type c) in
      if key = pf_num P Ip_Tos
      then try_then (cmsg_decode A dbg uchar_type h at) (\<lambda>b. Inr (cd \<lparr> cd_ecn_bits := b \<rparr>))
      else if \<not> (tgt \<in> {OpenBSD, NetBSD, DragonFly} \<or> solarish tgt) \<and> key = pf_num P Ip_RecvTos
      then try_then (cmsg_decode A dbg uchar_type h at) (\<lambda>b. Inr (cd \<lparr> cd_ecn_bits := b \<rparr>))
      else if tgt \<noteq> Redox \<and> key = pf_num P Ipv6_TClass
      then (if apple tgt \<and> cm_len c = abi_cmsg_len A (c_size uchar_type)
            then try_then (cmsg_decode A dbg uchar_type h at) (\<lambda>b. Inr (cd \<lparr> cd_ecn_bits := b \<rparr>))
            else try_then (cmsg_decode A dbg (int_type le) h at) (\<lambda>b.
                 Inr (cd \<lparr> cd_ecn_bits := ucast b \<rparr>)))
      else if linux_like tgt \<and> key = pf_num P Ip_PktInfo
      then try_then (cmsg_decode A dbg (pf_in_pktinfo P) h at) (\<lambda>p.
           Inr (cd \<lparr> cd_dst_ip := Some (IpV4 (ipv4_from_s_addr le (ipi_addr p))),
                     cd_interface_index := Some (ipi_ifindex p) \<rparr>))
      else if (bsd tgt \<or> apple tgt) \<and> key = pf_num P Ip_RecvDstAddr
      then try_then (cmsg_decode A dbg (pf_in_addr P) h at) (\<lambda>a.
           Inr (cd \<lparr> cd_dst_ip := Some (IpV4 (ipv4_from_s_addr le a)) \<rparr>))
      else if tgt \<noteq> Redox \<and> key = pf_num P Ipv6_PktInfo
      then try_then (cmsg_decode A dbg (pf_in6_pktinfo P) h at) (\<lambda>p.
           Inr (cd \<lparr> cd_dst_ip := Some (IpV6 (groups6 (ipi6_addr p))),
                     cd_interface_index := Some (ipi6_ifindex p) \<rparr>))
      else if linux_like tgt \<and> key = pf_num P Udp_Gro
      then try_then (cmsg_decode A dbg (int_type le) h at) (\<lambda>n.
           Inr (cd \<lparr> cd_stride := int_as_usize n \<rparr>))
      else if linux_like tgt \<and> key = pf_num P Scm_TimestampNs
      then try_then (cmsg_decode A dbg (pf_timespec P) h at) (\<lambda>ts.
           Inr (cd \<lparr> cd_timestamp := Some (timespec_duration ts) \<rparr>))
      else Inr cd)"

fun control_decode_all ::
  "unix_platform \<Rightarrow> msg_hdr \<Rightarrow> nat list \<Rightarrow> control_metadata \<Rightarrow> control_metadata io" where
  "control_decode_all P h [] cd = Inr cd"
| "control_decode_all P h (at # ats) cd =
     try_then (control_decode P h cd at) (control_decode_all P h ats)"

text \<open>
  A \<^verbatim>\<open>sockaddr_storage\<close> by its family. Ports are as they lie in memory, read as a native
  integer; \<^verbatim>\<open>u16::from_be\<close> swaps them where the machine is little-endian.
\<close>

datatype sockaddr =
    Sockaddr_in (sin_port: u16) (sin_addr: u32)
  | Sockaddr_in6 (sin6_port: u16) (sin6_addr: bytes) (sin6_flowinfo: u32) (sin6_scope_id: u32)
  | Sockaddr_other nat

definition u16_of_be :: "bool \<Rightarrow> u16 \<Rightarrow> u16" where
  "u16_of_be le w = of_be16 (ne_order le (be16 w))"

fun decode_socket_addr :: "bool \<Rightarrow> sockaddr \<Rightarrow> socket_addr io" where
  "decode_socket_addr le (Sockaddr_in port a) =
     Inr (SocketV4 (ipv4_from_s_addr le a) (u16_of_be le port))"
| "decode_socket_addr le (Sockaddr_in6 port a flow scope) =
     Inr (SocketV6 (groups6 a) (u16_of_be le port) flow scope)"
| "decode_socket_addr le (Sockaddr_other f) =
     Inl (IoErr (Custom OtherKind (''expected AF_INET or AF_INET6, got '' @ show_nat f)))"

definition control_metadata_new :: "nat \<Rightarrow> control_metadata" where
  "control_metadata_new len =
     \<lparr> cd_ecn_bits = 0, cd_dst_ip = None, cd_interface_index = None, cd_stride = len,
       cd_timestamp = None \<rparr>"

text \<open>\<^verbatim>\<open>decode_recv\<close>; \<^const>\<open>None\<close> when the chain of control messages has no end.\<close>

definition decode_recv ::
  "unix_platform \<Rightarrow> sockaddr \<Rightarrow> msg_hdr \<Rightarrow> nat \<Rightarrow> recv_meta io option" where
  "decode_recv P name hdr len =
     map_option
       (\<lambda>ats. try_then (control_decode_all P hdr ats (control_metadata_new len)) (\<lambda>cd.
              try_then (decode_socket_addr (pf_le P) name) (\<lambda>addr.
              Inr \<lparr> rm_addr = addr, rm_len = len, rm_stride = cd_stride cd,
                    rm_ecn = ecn_from_bits (cd_ecn_bits cd), rm_dst_ip = cd_dst_ip cd,
                    rm_interface_index = cd_interface_index cd,
                    rm_timestamp = cd_timestamp cd \<rparr>)))
       (iter_collect (pf_abi P) (apple_fast P) hdr (iter_new (pf_abi P) hdr))"

end
