(* ===== verification/UdpRecv.thy ===== *)
theory UdpRecv
  imports UdpUnix
begin

text \<open>
  Receiving on the Unix targets of \<^verbatim>\<open>patches/noq-udp\<close> (\<^verbatim>\<open>src/unix.rs\<close>): the batched
  \<^verbatim>\<open>recvmmsg\<close> and the single \<^verbatim>\<open>recvmsg\<close> with its loop over truncated datagrams, then the
  metadata of each datagram. The minimal port \<^verbatim>\<open>src/posix_minimal.rs\<close>, which does without
  control messages, is modelled beside them.
\<close>

section \<open>Headers for receiving\<close>

text \<open>
  A header the system fills in: the name and the control buffer of \<open>rh_hdr\<close> are only
  meaningful after a successful call, before it they hold what \<open>junk\<close> stands for.
\<close>

record recv_hdr =
  rh_hdr :: msg_hdr
  rh_name :: sockaddr
  rh_capacity :: nat
  rh_truncated :: bool

definition prepare_recv :: "bytes \<Rightarrow> nat \<Rightarrow> recv_hdr" where
  "prepare_recv junk cap =
     \<lparr> rh_hdr = \<lparr> mh_name = None, mh_iov = [], mh_control = Some junk, mh_controllen = LEN \<rparr>,
       rh_name = Sockaddr_other 0, rh_capacity = cap, rh_truncated = False \<rparr>"

text \<open>The loop that stores the metadata; an error ends it with what was stored so far.\<close>

fun decode_batch ::
  "unix_platform \<Rightarrow> nat \<Rightarrow> (recv_hdr \<times> nat) list \<Rightarrow> recv_meta list \<Rightarrow>
   (recv_meta list \<times> unit io) option" where
  "decode_batch P i [] metas = Some (metas, Inr ())"
| "decode_batch P i ((h, len) # hs) metas =
     (case decode_recv P (rh_name h) (rh_hdr h) len of
        None \<Rightarrow> None
      | Some (Inl e) \<Rightarrow> Some (metas, Inl e)
      | Some (Inr m) \<Rightarrow>
          if i < length metas then decode_batch P (Suc i) hs (metas[i := m])
          else Some (metas, Inl (Crash ''index out of bounds'')))"

section \<open>Batched receiving\<close>

text \<open>\<open>rcv_mmsg w hs\<close> fills in the first of the headers \<open>hs\<close> and gives them with their lengths.\<close>

type_synonym 'w recvmmsg = "'w \<Rightarrow> recv_hdr list \<Rightarrow> 'w \<times> (io_error + (recv_hdr \<times> nat) list)"

definition recv_via_recvmmsg ::
  "unix_platform \<Rightarrow> 'w recvmmsg \<Rightarrow> bytes \<Rightarrow> nat list \<Rightarrow> recv_meta list \<Rightarrow> 'w \<Rightarrow>
   ('w \<times> recv_meta list \<times> nat io) option" where
  "recv_via_recvmmsg P rcv_mmsg junk caps metas w =
     (let hdrs = map (prepare_recv junk) (take (BATCH_SIZE P) caps) in
      case retry_if_interrupted (\<lambda>w. rcv_mmsg w hdrs) w of
        None \<Rightarrow> None
      | Some (w', Inl e) \<Rightarrow> Some (w', metas, Inl (IoErr e))
      | Some (w', Inr got) \<Rightarrow>
          map_option (\<lambda>(metas', r). (w', metas', try_then r (\<lambda>_. Inr (length got))))
            (decode_batch P 0 got metas))"

section \<open>Receiving one datagram\<close>

type_synonym 'w recvmsg = "'w \<Rightarrow> recv_hdr \<Rightarrow> 'w \<times> recv_hdr \<times> (io_error + nat)"

text \<open>The loop of \<^verbatim>\<open>recv_single\<close>: the flags are looked at before the return value.\<close>

partial_function (option) recv_single_loop ::
  "'w recvmsg \<Rightarrow> 'w \<Rightarrow> recv_hdr \<Rightarrow> ('w \<times> recv_hdr \<times> (io_error + nat)) option" where
  "recv_single_loop rcv_msg w h =
     (case rcv_msg w h of
        (w', h', r) \<Rightarrow>
          if rh_truncated h' then recv_single_loop rcv_msg w' h'
          else
            (case r of
               Inr n \<Rightarrow> Some (w', h', Inr n)
             | Inl e \<Rightarrow>
                 if error_kind e = Interrupted then recv_single_loop rcv_msg w' h'
                 else Some (w', h', Inl e)))"

definition recv_single ::
  "unix_platform \<Rightarrow> 'w recvmsg \<Rightarrow> bytes \<Rightarrow> nat list \<Rightarrow> recv_meta list \<Rightarrow> 'w \<Rightarrow>
   ('w \<times> recv_meta list \<times> nat io) option" where
  "recv_single P rcv_msg junk caps metas w =
     (case caps of
        [] \<Rightarrow> Some (w, metas, Inl (Crash ''index out of bounds''))
      | cap # _ \<Rightarrow>
          (case recv_single_loop rcv_msg w (prepare_recv junk cap) of
             None \<Rightarrow> None
           | Some (w', h, Inl e) \<Rightarrow> Some (w', metas, Inl (IoErr e))
           | Some (w', h, Inr n) \<Rightarrow>
               map_option (\<lambda>(metas', r). (w', metas', try_then r (\<lambda>_. Inr 1)))
                 (decode_batch P 0 [(h, n)] metas)))"

text \<open>\<^verbatim>\<open>UdpSocketState::recv\<close> where \<^verbatim>\<open>apple_fast\<close> is not compiled in.\<close>

definition unix_recv ::
  "unix_platform \<Rightarrow> 'w recvmmsg \<Rightarrow> 'w recvmsg \<Rightarrow> bytes \<Rightarrow> nat list \<Rightarrow> recv_meta list \<Rightarrow> 'w \<Rightarrow>
   ('w \<times> recv_meta list \<times> nat io) option" where
  "unix_recv P rcv_mmsg rcv_msg junk caps metas w =
     (let t = pf_target P in
      if apple t \<or> t \<in> {OpenBSD, NetBSD, DragonFly, Redox} \<or> solarish t
      then recv_single P rcv_msg junk caps metas w
      else recv_via_recvmmsg P rcv_mmsg junk caps metas w)"

section \<open>The minimal port\<close>

record posix_state =
  ps_log :: error_log

definition posix_new :: "sock_env \<Rightarrow> nat \<Rightarrow> posix_state io" where
  "posix_new env now =
     (case se_set_nonblocking env of
        Some e \<Rightarrow> Inl (IoErr e)
      | None \<Rightarrow> Inr \<lparr> ps_log = error_log_new now \<rparr>)"

text \<open>\<open>snd_to w bs dst\<close> is \<^verbatim>\<open>socket2::Socket::send_to\<close>.\<close>

definition posix_try_send ::
  "('w \<Rightarrow> bytes \<Rightarrow> socket_addr \<Rightarrow> 'w \<times> (io_error + nat)) \<Rightarrow> transmit \<Rightarrow> 'w \<Rightarrow> 'w \<times> unit io" where
  "posix_try_send snd_to t w =
     (case snd_to w (tx_contents t) (tx_destination t) of
        (w', Inl e) \<Rightarrow> (w', Inl (IoErr e))
      | (w', Inr n) \<Rightarrow> (w', Inr ()))"

definition posix_send_outcome ::
  "bool \<Rightarrow> nat \<Rightarrow> transmit \<Rightarrow> posix_state \<Rightarrow> unit io \<Rightarrow> posix_state \<times> unit io" where
  "posix_send_outcome log_on now t st r =
     (case r of
        Inr _ \<Rightarrow> (st, Inr ())
      | Inl (Crash c) \<Rightarrow> (st, Inl (Crash c))
      | Inl (IoErr e) \<Rightarrow>
          if error_kind e = WouldBlock then (st, Inl (IoErr e))
          else (st \<lparr> ps_log := log_sendmsg_error log_on now e t (ps_log st) \<rparr>, Inr ()))"

definition posix_socket_send ::
  "bool \<Rightarrow> ('w \<Rightarrow> bytes \<Rightarrow> socket_addr \<Rightarrow> 'w \<times> (io_error + nat)) \<Rightarrow> nat \<Rightarrow> transmit \<Rightarrow> 'w \<Rightarrow>
   posix_state \<Rightarrow> 'w \<times> posix_state \<times> unit io" where
  "posix_socket_send log_on snd_to now t w st =
     (case posix_try_send snd_to t w of
        (w', r) \<Rightarrow> (w', posix_send_outcome log_on now t st r))"

text \<open>
  \<^verbatim>\<open>recv\<close>: \<open>rcv_from\<close> is \<^verbatim>\<open>recv_from_vectored\<close>; the address it gives is converted with an
  \<^verbatim>\<open>unwrap\<close>.
\<close>

definition posix_recv ::
  "('w \<Rightarrow> 'w \<times> (io_error + nat \<times> socket_addr option)) \<Rightarrow> recv_meta list \<Rightarrow> 'w \<Rightarrow>
   'w \<times> recv_meta list \<times> nat io" where
  "posix_recv rcv_from metas w =
     (case rcv_from w of
        (w', Inl e) \<Rightarrow> (w', metas, Inl (IoErr e))
      | (w', Inr (len, None)) \<Rightarrow>
          (w', metas, Inl (Crash ''called `Option::unwrap()` on a `None` value''))
      | (w', Inr (len, Some addr)) \<Rightarrow>
          if metas = [] then (w', metas, Inl (Crash ''index out of bounds''))
          else (w', metas[0 := \<lparr> rm_addr = addr, rm_len = len, rm_stride = len, rm_ecn = None,
                                 rm_dst_ip = None, rm_interface_index = None,
                                 rm_timestamp = None \<rparr>], Inr 1))"

end
