(* ===== verification/UdpUnixProps.thy ===== *)
theory UdpUnixProps
  imports UdpRecv
begin

text \<open>
  What the Unix socket of \<^verbatim>\<open>patches/noq-udp\<close> guarantees: which control messages a prepared
  datagram carries, that a send returns unless it is interrupted forever, what it returns,
  how it falls back when the system rejects an argument, and that its state stays well
  formed. \<open>platform_ok\<close> collects what is assumed of the C library; \<open>linux_x86_64\<close> is a
  platform with the documented layouts on which the assumptions hold.
\<close>

section \<open>The platform\<close>

definition in6_pktinfo_ok :: "in6_pktinfo \<Rightarrow> bool" where
  "in6_pktinfo_ok p \<longleftrightarrow> length (ipi6_addr p) = 16"

definition platform_ok :: "unix_platform \<Rightarrow> bool" where
  "platform_ok P \<longleftrightarrow>
     cmsg_interface (pf_abi P) \<and> inj (pf_num P) \<and>
     ctype_ok (pf_in_addr P) \<and> ctype_ok (pf_in_pktinfo P) \<and>
     ctype_ok_on in6_pktinfo_ok (pf_in6_pktinfo P) \<and>
     ctype_ok (pf_timespec P) \<and>
     c_size (pf_in_addr P) \<le> 64 \<and> c_size (pf_in_pktinfo P) \<le> 64 \<and>
     c_size (pf_in6_pktinfo P) \<le> 64 \<and> c_size (pf_timespec P) \<le> 64 \<and>
     (let sp = abi_cmsg_space (pf_abi P) in
      sp 1 \<le> sp 4 \<and> sp 2 = sp 4 \<and>
      sp 4 + sp 2 + sp (c_size (pf_in_addr P)) \<le> LEN \<and>
      sp 4 + sp 2 + sp (c_size (pf_in_pktinfo P)) \<le> LEN \<and>
      sp 4 + sp 2 + sp (c_size (pf_in6_pktinfo P)) \<le> LEN)"

lemma platform_okD:
  assumes "platform_ok P"
  shows "cmsg_interface (pf_abi P)" "inj (pf_num P)"
    "ctype_ok (pf_in_addr P)" "ctype_ok (pf_in_pktinfo P)"
    "ctype_ok_on in6_pktinfo_ok (pf_in6_pktinfo P)"
    "ctype_ok (pf_timespec P)"
  using assms by (simp_all add: platform_ok_def)

text \<open>
  Linux on a 64-bit little-endian machine: the structures as \<^verbatim>\<open>ip(7)\<close>, \<^verbatim>\<open>ipv6(7)\<close> and \<^verbatim>\<open>udp(7)\<close>
  lay them out.
\<close>

definition long_bytes :: "64 word \<Rightarrow> bytes" where
  "long_bytes w = c_put (int_type True) (ucast w) @ c_put (int_type True) (ucast (drop_bit 32 w))"

definition long_of_bytes :: "bytes \<Rightarrow> 64 word" where
  "long_of_bytes b =
     (ucast (c_get (int_type True) (take 4 b)) :: 64 word) OR
     push_bit 32 (ucast (c_get (int_type True) (take 4 (drop 4 b))))"

lemma long_roundtrip [simp]: "long_of_bytes (long_bytes w @ rest) = w" "length (long_bytes w) = 8"
  by (auto simp: long_of_bytes_def long_bytes_def bit_simps intro!: bit_word_eqI
      dest: bit_imp_le_length)

fun linux_num :: "cmsg_name \<Rightarrow> i32 \<times> i32" where
  "linux_num Ip_Tos = (0, 1)"
| "linux_num Ip_RecvTos = (0, 13)"
| "linux_num Ipv6_TClass = (41, 67)"
| "linux_num Ip_PktInfo = (0, 8)"
| "linux_num Ip_RecvDstAddr = (0, 7)"
| "linux_num Ipv6_PktInfo = (41, 50)"
| "linux_num Udp_Segment = (17, 103)"
| "linux_num Udp_Gro = (17, 104)"
| "linux_num Scm_TimestampNs = (1, 35)"

definition linux_x86_64 :: unix_platform where
  "linux_x86_64 =
     (let int = int_type True in
      \<lparr> pf_target = Linux, pf_fast_datapath = False, pf_debug = True, pf_log = True, pf_le = True,
        pf_libc = linux_macros, pf_cmsghdr_align = 8, pf_num = linux_num, pf_in_addr = int,
        pf_in_pktinfo =
          \<lparr> c_size = 12,
            c_put = \<lambda>p. c_put int (ipi_ifindex p) @ c_put int (ipi_spec_dst p) @ c_put int (ipi_addr p),
            c_get = \<lambda>b. \<lparr> ipi_ifindex = c_get int (take 4 b),
                          ipi_spec_dst = c_get int (take 4 (drop 4 b)),
                          ipi_addr = c_get int (take 4 (drop 8 b)) \<rparr> \<rparr>,
        pf_in6_pktinfo =
          \<lparr> c_size = 20, c_put = \<lambda>p. ipi6_addr p @ c_put int (ipi6_ifindex p),
            c_get = \<lambda>b. \<lparr> ipi6_addr = take 16 b, ipi6_ifindex = c_get int (take 4 (drop 16 b)) \<rparr> \<rparr>,
        pf_timespec =
          \<lparr> c_size = 16, c_put = \<lambda>ts. long_bytes (tv_sec ts) @ long_bytes (tv_nsec ts),
            c_get = \<lambda>b. \<lparr> tv_sec = long_of_bytes b, tv_nsec = long_of_bytes (drop 8 b) \<rparr> \<rparr> \<rparr>)"

lemma linux_num_inj: "inj linux_num"
proof (rule injI)
  show "linux_num a = linux_num b \<Longrightarrow> a = b" for a b
    by (cases a; cases b) simp_all
qed

lemma linux_x86_64_ok: "platform_ok linux_x86_64"
proof -
  have "long_of_bytes (long_bytes w) = w" for w
    using long_roundtrip(1) [of w "[]"] by simp
  then show ?thesis
    using linux_interface linux_num_inj
    by (simp add: platform_ok_def linux_x86_64_def Let_def ctype_ok_on_def in6_pktinfo_ok_def
        round_up_nat_def LEN_def)
qed

section \<open>Prepared datagrams\<close>

text \<open>The reference: the control messages of a datagram, as a list.\<close>

definition ecn_messages :: "unix_platform \<Rightarrow> bool \<Rightarrow> transmit \<Rightarrow> cmsg list" where
  "ecn_messages P einval t =
     (if dest_is_ipv4 t
      then (if einval \<or> pf_target P = NetBSD then []
            else [(pf_num P Ip_Tos, ip_tos_bytes P (ecn_int (tx_ecn t)))])
      else if pf_target P = Redox then []
      else [(pf_num P Ipv6_TClass, c_put (int_type (pf_le P)) (ecn_int (tx_ecn t)))])"

definition segment_messages :: "unix_platform \<Rightarrow> transmit \<Rightarrow> cmsg list" where
  "segment_messages P t =
     (case effective_segment_size t of
        None \<Rightarrow> []
      | Some n \<Rightarrow>
          if linux_like (pf_target P)
          then [(pf_num P Udp_Segment, c_put (ushort_type (pf_le P)) (of_nat n))] else [])"

definition source_messages :: "unix_platform \<Rightarrow> bool \<Rightarrow> transmit \<Rightarrow> cmsg list" where
  "source_messages P enc t =
     (case tx_src_ip t of
        None \<Rightarrow> []
      | Some (IpV4 v4) \<Rightarrow>
          if linux_like (pf_target P)
          then [(pf_num P Ip_PktInfo, c_put (pf_in_pktinfo P)
                   \<lparr> ipi_ifindex = 0, ipi_spec_dst = s_addr (pf_le P) v4, ipi_addr = 0 \<rparr>)]
          else if (bsd (pf_target P) \<or> apple (pf_target P) \<or> solarish (pf_target P)) \<and> enc
          then [(pf_num P Ip_RecvDstAddr, c_put (pf_in_addr P) (s_addr (pf_le P) v4))] else []
      | Some (IpV6 v6) \<Rightarrow>
          if pf_target P = Redox then []
          else [(pf_num P Ipv6_PktInfo,
                 c_put (pf_in6_pktinfo P) \<lparr> ipi6_addr = octets6 v6, ipi6_ifindex = 0 \<rparr>)])"

definition datagram_messages :: "unix_platform \<Rightarrow> bool \<Rightarrow> bool \<Rightarrow> transmit \<Rightarrow> cmsg list" where
  "datagram_messages P enc einval t =
     ecn_messages P einval t @ segment_messages P t @ source_messages P enc t"

definition datagram_hdr :: "transmit \<Rightarrow> bytes \<Rightarrow> msg_hdr" where
  "datagram_hdr t ctrl =
     \<lparr> mh_name = Some (tx_destination t), mh_iov = tx_contents t, mh_control = Some ctrl,
       mh_controllen = LEN \<rparr>"

lemma push_nothing [simp]: "try_then r (push_all A []) = r"
  by (cases r) simp_all

lemma push_ecn_all: "push_ecn P einval t e = push_all (pf_abi P) (ecn_messages P einval t) e"
  by (simp add: push_ecn_def ecn_messages_def Let_def)

lemma push_segment_all:
  "push_segment_size P t e = push_all (pf_abi P) (segment_messages P t) e"
  by (auto simp: push_segment_size_def segment_messages_def set_segment_size_def apple_fast_def
      target_defs split: option.split)

lemma push_src_all:
  "push_src_ip P enc (tx_src_ip t) e = push_all (pf_abi P) (source_messages P enc t) e"
  by (auto simp: push_src_ip_def source_messages_def target_defs split: option.split ip_addr.split)

lemma prepare_msg_push_all:
  "prepare_msg P t ctrl enc einval =
     try_then (push_all (pf_abi P) (datagram_messages P enc einval t)
                (encoder_new (pf_abi P) (datagram_hdr t ctrl)))
       (\<lambda>e. Inr (encoder_finish (pf_abi P) e, control_bytes (en_hdr e)))"
  by (simp add: prepare_msg_def datagram_messages_def push_all_append push_ecn_all
      push_segment_all push_src_all datagram_hdr_def Let_def try_then_def split: sum.split)

lemma message_bytes:
  assumes "platform_ok P" and "transmit_ok t"
  shows "\<forall>m \<in> set (datagram_messages P enc einval t). payload_ok m"
proof -
  have sz: "c_size (pf_in_addr P) \<le> 64" "c_size (pf_in_pktinfo P) \<le> 64"
    "c_size (pf_in6_pktinfo P) \<le> 64"
    using assms(1) by (simp_all add: platform_ok_def)
  have "payload_ok (lt, ip_tos_bytes P x)" for lt x
    by (simp add: ip_tos_bytes_def payload_ok_ctype [of "\<lambda>_. True"])
  then have "\<forall>m \<in> set (ecn_messages P einval t @ segment_messages P t). payload_ok m"
    by (cases "effective_segment_size t")
       (simp_all add: ecn_messages_def segment_messages_def payload_ok_ctype [of "\<lambda>_. True"])
  moreover have "\<forall>m \<in> set (source_messages P enc t). payload_ok m"
  proof (cases "tx_src_ip t")
    case (Some ip)
    with platform_okD(3-5) [OF assms(1)] sz assms(2) show ?thesis
      by (cases ip) (simp_all add: source_messages_def payload_ok_ctype transmit_ok_def ip_ok_def
          in6_pktinfo_ok_def)
  qed (simp add: source_messages_def)
  ultimately show ?thesis by (simp add: datagram_messages_def ball_Un)
qed

lemma message_space:
  assumes P: "platform_ok P" and "transmit_ok t"
  shows "cmsg_interface.space_of (pf_abi P) (datagram_messages P enc einval t) \<le> LEN"
    and "m \<in> set (ecn_messages P False t) \<union> set (segment_messages P t) \<Longrightarrow>
      cmsg_interface.space (pf_abi P) m \<le> abi_cmsg_space (pf_abi P) 4"
proof -
  note I = platform_okD(1) [OF P]
  let ?sp = "abi_cmsg_space (pf_abi P)" and ?len = "\<lambda>m :: cmsg. length (snd m)"
  note space = cmsg_interface.space_def [OF I] cmsg_interface.space_of_simps [OF I]
  have k: "?sp 1 \<le> ?sp 4" "?sp 2 = ?sp 4" "?sp 4 + ?sp 2 + ?sp (c_size (pf_in_addr P)) \<le> LEN"
    "?sp 4 + ?sp 2 + ?sp (c_size (pf_in_pktinfo P)) \<le> LEN"
    "?sp 4 + ?sp 2 + ?sp (c_size (pf_in6_pktinfo P)) \<le> LEN"
    using P by (simp_all add: platform_ok_def Let_def)
  have ecn: "cmsg_interface.space_of (pf_abi P) (ecn_messages P einval t) \<le> ?sp 4" for einval
    using k by (simp add: ecn_messages_def space ip_tos_bytes_def)
  have seg: "cmsg_interface.space_of (pf_abi P) (segment_messages P t) \<le> ?sp 2"
    by (auto simp: segment_messages_def space split: option.split)
  have src: "?sp 4 + ?sp 2 + cmsg_interface.space_of (pf_abi P) (source_messages P enc t) \<le> LEN"
  proof (cases "tx_src_ip t")
    case (Some ip)
    with k ctype_okD(2) [OF platform_okD(3) [OF P]] ctype_okD(2) [OF platform_okD(4) [OF P]]
      ctype_okD(2) [OF platform_okD(5) [OF P]] assms(2)
    show ?thesis
      by (cases ip) (auto simp: source_messages_def space transmit_ok_def ip_ok_def in6_pktinfo_ok_def)
  qed (use k in \<open>simp add: source_messages_def space\<close>)
  show "cmsg_interface.space_of (pf_abi P) (datagram_messages P enc einval t) \<le> LEN"
    using ecn [of einval] seg src by (simp add: datagram_messages_def space(4))
  show "cmsg_interface.space (pf_abi P) m \<le> ?sp 4"
    if "m \<in> set (ecn_messages P False t) \<union> set (segment_messages P t)"
    using that k
    by (cases "effective_segment_size t")
       (auto simp: ecn_messages_def segment_messages_def space ip_tos_bytes_def split: if_splits)
qed

text \<open>
  Preparing on any buffer from which the pushes can go on: the pushes succeed and the header
  carries the reference list. \<open>again\<close> is the case of the buffer of an earlier attempt.
\<close>

lemma prepare_msg_on:
  assumes P: "platform_ok P" and t: "transmit_ok t" and len: "length ctrl = LEN"
    and pass: "\<And>us m vs. datagram_messages P enc einval t = us @ m # vs \<Longrightarrow> us \<noteq> [] \<Longrightarrow>
      cmsg_interface.passable (pf_abi P) LEN ctrl (cmsg_interface.space_of (pf_abi P) us)"
  shows "\<exists>h e. prepare_msg P t ctrl enc einval = Inr (h, control_bytes (en_hdr e)) \<and>
    mh_name h = Some (tx_destination t) \<and> mh_iov h = tx_contents t \<and>
    control_messages (pf_abi P) h = Some (datagram_messages P enc einval t) \<and>
    cmsg_interface.encoded (pf_abi P) LEN (datagram_hdr t ctrl) ctrl
      (datagram_messages P enc einval t) e"
proof -
  note I = platform_okD(1) [OF P]
  let ?h = "datagram_hdr t ctrl" and ?A = "pf_abi P" and ?ms = "datagram_messages P enc einval t"
  note ok = message_bytes [OF P t, of enc einval]
  have N: "LEN < 2 ^ 31" by (simp add: LEN_def)
  have new: "cmsg_interface.encoded ?A LEN ?h ctrl [] (encoder_new ?A ?h)"
    by (rule cmsg_interface.encoded_new [OF I]) (simp_all add: datagram_hdr_def len)
  obtain e where e: "push_all ?A ?ms (encoder_new ?A ?h) = Inr e"
    "cmsg_interface.encoded ?A LEN ?h ctrl ?ms e"
    using cmsg_interface.encoded_push_all [OF I new ok N] message_space(1) [OF P t, of enc einval] pass
    by fastforce
  with N have "prepare_msg P t ctrl enc einval = Inr (encoder_finish ?A e, control_bytes (en_hdr e))"
    "mh_name (encoder_finish ?A e) = Some (tx_destination t)"
    "mh_iov (encoder_finish ?A e) = tx_contents t"
    "control_messages ?A (encoder_finish ?A e) = Some ?ms"
    using cmsg_interface.finished_messages(1) [OF I e(2) ok N]
      cmsg_interface.encoded_hdr [OF I e(2)]
    by (simp_all add: prepare_msg_push_all datagram_hdr_def)
  with e(2) show ?thesis by blast
qed

lemma prepare_msg_zero:
  assumes P: "platform_ok P" and t: "transmit_ok t"
  shows "\<exists>h e. prepare_msg P t (replicate LEN 0) enc einval = Inr (h, control_bytes (en_hdr e)) \<and>
    mh_name h = Some (tx_destination t) \<and> mh_iov h = tx_contents t \<and>
    control_messages (pf_abi P) h = Some (datagram_messages P enc einval t) \<and>
    cmsg_interface.encoded (pf_abi P) LEN (datagram_hdr t (replicate LEN 0)) (replicate LEN 0)
      (datagram_messages P enc einval t) e"
proof (rule prepare_msg_on [OF P t])
  note I = platform_okD(1) [OF P]
  fix us m vs
  assume ms: "datagram_messages P enc einval t = us @ m # vs"
  then have "payload_ok m" using message_bytes [OF P t, of enc einval] by simp
  then have "abi_hdr_size (pf_abi P) < cmsg_interface.space (pf_abi P) m"
    by (rule cmsg_interface.hdr_le_space [OF I])
  with ms show "cmsg_interface.passable (pf_abi P) LEN (replicate LEN 0)
      (cmsg_interface.space_of (pf_abi P) us)"
    using message_space(1) [OF P t, of enc einval]
    by (intro cmsg_interface.passable_zero [OF I]) (simp add: cmsg_interface.space_of_simps [OF I])
qed simp


text \<open>
  The second attempt of a send writes over the control buffer of the first one without
  clearing it. What is left there is no obstacle: where the first message fell away, the one
  in its place takes the same room.
\<close>

lemma fallback_messages:
  "datagram_messages P enc True t = datagram_messages P enc False t \<or>
   (\<exists>tos. datagram_messages P enc False t = tos # datagram_messages P enc True t \<and>
          ecn_messages P False t = [tos])"
  by (auto simp: datagram_messages_def ecn_messages_def)

lemma prepare_msg_again:
  assumes P: "platform_ok P" and t: "transmit_ok t"
    and once: "prepare_msg P t (replicate LEN 0) enc False = Inr (h, ctrl)"
  shows "\<exists>h' ctrl'. prepare_msg P t ctrl enc True = Inr (h', ctrl') \<and>
    mh_name h' = Some (tx_destination t) \<and> mh_iov h' = tx_contents t \<and>
    control_messages (pf_abi P) h' = Some (datagram_messages P enc True t)"
proof -
  note I = platform_okD(1) [OF P]
  note space = cmsg_interface.space_def [OF I] cmsg_interface.space_of_simps [OF I]
  let ?first = "datagram_messages P enc False t" and ?ms = "datagram_messages P enc True t"
  obtain e where ctrl: "ctrl = control_bytes (en_hdr e)"
    and e: "cmsg_interface.encoded (pf_abi P) LEN (datagram_hdr t (replicate LEN 0))
      (replicate LEN 0) ?first e"
    using prepare_msg_zero [OF P t, of enc False] once by auto
  have "cmsg_interface.passable (pf_abi P) LEN ctrl (cmsg_interface.space_of (pf_abi P) us)"
    if split: "?ms = us @ m # vs" and "us \<noteq> []" for us m vs
    using fallback_messages [of P enc t]
  proof
    assume "?ms = ?first"
    with split e show ?thesis
      unfolding ctrl by (auto intro: cmsg_interface.encoded_passable [OF I])
  next
    assume "\<exists>tos. ?first = tos # ?ms \<and> ecn_messages P False t = [tos]"
    then obtain tos where tos: "?first = tos # ?ms" "ecn_messages P False t = [tos]" by blast
    then have ms: "?ms = segment_messages P t @ source_messages P enc t"
      by (simp add: datagram_messages_def)
    have "length (segment_messages P t) \<le> 1" "length (source_messages P enc t) \<le> 1"
      by (simp_all add: segment_messages_def source_messages_def split: option.split ip_addr.split)
    with split \<open>us \<noteq> []\<close> ms have us: "us = segment_messages P t" "segment_messages P t \<noteq> []" "vs = []"
      by (cases us; cases "segment_messages P t"; cases "source_messages P enc t"; auto)+
    then obtain n where n: "us = [(pf_num P Udp_Segment, c_put (ushort_type (pf_le P)) (of_nat n))]"
      and lin: "linux_like (pf_target P)"
      by (auto simp: segment_messages_def split: option.splits if_splits)
    have "length (snd tos) = 4"
      using tos(2) lin
      by (auto simp: ecn_messages_def ip_tos_bytes_def linux_like_def split: if_splits)
    then have "cmsg_interface.space_of (pf_abi P) us = cmsg_interface.space_of (pf_abi P) [tos]"
      using P n by (simp add: space platform_ok_def Let_def)
    moreover have "?first = [tos] @ hd us # tl us @ m # vs"
      using tos(1) split \<open>us \<noteq> []\<close> by simp
    then have "cmsg_interface.passable (pf_abi P) LEN (control_bytes (en_hdr e))
        (cmsg_interface.space_of (pf_abi P) [tos])"
      using e by (intro cmsg_interface.encoded_passable [OF I]) simp
    ultimately show ?thesis unfolding ctrl by simp
  qed
  moreover have "length ctrl = LEN"
    unfolding ctrl by (rule cmsg_interface.encoded_hdr(1) [OF I e])
  ultimately show ?thesis
    using prepare_msg_on [OF P t, of ctrl enc True] by blast
qed

section \<open>Retrying\<close>

definition interrupted :: "io_error + 'a \<Rightarrow> bool" where
  "interrupted r \<longleftrightarrow> (case r of Inl e \<Rightarrow> error_kind e = Interrupted | Inr x \<Rightarrow> False)"

text \<open>The \<open>n\<close>-th of the calls made in a row.\<close>

fun nth_call :: "('w \<Rightarrow> 'w \<times> (io_error + 'a)) \<Rightarrow> 'w \<Rightarrow> nat \<Rightarrow> 'w \<times> (io_error + 'a)" where
  "nth_call f w 0 = f w"
| "nth_call f w (Suc n) = nth_call f (fst (f w)) n"

lemma retry_step:
  "retry_if_interrupted f w =
     (if interrupted (snd (f w)) then retry_if_interrupted f (fst (f w)) else Some (f w))"
  by (subst retry_if_interrupted.simps)
     (auto simp: interrupted_def split: prod.split sum.split)

lemma retry_found:
  "\<not> interrupted (snd (nth_call f w n)) \<Longrightarrow> (\<And>k. k < n \<Longrightarrow> interrupted (snd (nth_call f w k))) \<Longrightarrow>
   retry_if_interrupted f w = Some (nth_call f w n)"
proof (induction n arbitrary: w)
  case 0
  then show ?case by (subst retry_step) simp
next
  case (Suc n)
  have "interrupted (snd (f w))" using Suc.prems(2) [of 0] by simp
  moreover have "interrupted (snd (nth_call f (fst (f w)) k))" if "k < n" for k
    using Suc.prems(2) [of "Suc k"] that by simp
  ultimately show ?case
    using Suc.IH [of "fst (f w)"] Suc.prems(1) by (subst retry_step) simp
qed

lemma retry_returned:
  fixes f :: "'w \<Rightarrow> 'w \<times> (io_error + 'a)"
  assumes "retry_if_interrupted f w = Some y"
  shows "\<exists>n. \<not> interrupted (snd (nth_call f w n)) \<and> y = nth_call f w n"
proof (rule retry_if_interrupted.raw_induct [OF _ assms])
  fix rec :: "('w \<Rightarrow> 'w \<times> (io_error + 'a)) \<Rightarrow> 'w \<Rightarrow> ('w \<times> (io_error + 'a)) option" and f w y
  assume IH: "\<And>f w y. rec f w = Some y \<Longrightarrow>
      \<exists>n. \<not> interrupted (snd (nth_call f w n)) \<and> y = nth_call f w n"
    and y: "(case f w of (w', Inl e) \<Rightarrow>
        if error_kind e \<noteq> Interrupted then Some (w', Inl e) else rec f w'
      | (w', Inr n) \<Rightarrow> Some (w', Inr n)) = Some y"
  show "\<exists>n. \<not> interrupted (snd (nth_call f w n)) \<and> y = nth_call f w n"
  proof (cases "interrupted (snd (f w))")
    case True
    with y have "rec f (fst (f w)) = Some y"
      by (auto simp: interrupted_def split: prod.splits sum.splits if_splits)
    from IH [OF this] obtain n where
      "\<not> interrupted (snd (nth_call f (fst (f w)) n)) \<and> y = nth_call f (fst (f w)) n" ..
    then show ?thesis by (intro exI [of _ "Suc n"]) simp
  next
    case False
    with y have "y = f w"
      by (auto simp: interrupted_def split: prod.splits sum.splits if_splits)
    with False show ?thesis by (intro exI [of _ 0]) simp
  qed
qed

lemma retry_not_interrupted: "retry_if_interrupted f w = Some (w', r) \<Longrightarrow> \<not> interrupted r"
  using retry_returned [of f w "(w', r)"] by (metis snd_conv)

text \<open>
  The retry loop is the search for the first call that is not interrupted: it returns that
  call's result with the world it left, and it goes on forever exactly when every call is
  interrupted.
\<close>

theorem retry_is_first_uninterrupted:
  "retry_if_interrupted f w =
     (if \<exists>n. \<not> interrupted (snd (nth_call f w n))
      then Some (nth_call f w (LEAST n. \<not> interrupted (snd (nth_call f w n))))
      else None)"
proof (cases "\<exists>n. \<not> interrupted (snd (nth_call f w n))")
  case True
  let ?n = "LEAST n. \<not> interrupted (snd (nth_call f w n))"
  have "\<not> interrupted (snd (nth_call f w ?n))" using True by (rule LeastI_ex)
  moreover have "interrupted (snd (nth_call f w k))" if "k < ?n" for k
    using not_less_Least [OF that] by simp
  ultimately show ?thesis using True retry_found [of f w ?n] by simp
next
  case False
  then show ?thesis
    using retry_returned [of f w] by (cases "retry_if_interrupted f w") auto
qed

section \<open>The state\<close>

text \<open>
  The two segment counts are converted to \<^verbatim>\<open>NonZeroUsize\<close>, so they must never become zero.
\<close>

definition unix_state_ok :: "unix_state \<Rightarrow> bool" where
  "unix_state_ok st \<longleftrightarrow> us_max_gso_segments st \<in> {1, 32, 64} \<and> us_gro_segments st \<in> {1, 64}"

lemma max_gso_segments_ok: "unix_state_ok st \<Longrightarrow> max_gso_segments st = Inr (us_max_gso_segments st)"
  by (auto simp: max_gso_segments_def unix_state_ok_def)

lemma halt_offload_ok:
  assumes "unix_state_ok st"
  shows "halt_offload P e st =
    Inr (if linux_like (pf_target P) \<and> e \<in> {Os EIO, Os EINVAL}
         then st \<lparr> us_max_gso_segments := 1 \<rparr> else st)"
proof -
  have "us_max_gso_segments st = 1 \<Longrightarrow> st \<lparr> us_max_gso_segments := 1 \<rparr> = st"
    by simp
  moreover have "us_max_gso_segments st = 1 \<or> 1 < us_max_gso_segments st"
    using assms by (auto simp: unix_state_ok_def)
  ultimately show ?thesis
    by (auto simp: halt_offload_def max_gso_segments_ok [OF assms])
qed

lemma state_ok_updates [simp]:
  "unix_state_ok st \<Longrightarrow> unix_state_ok (st \<lparr> us_max_gso_segments := Suc 0 \<rparr>)"
  "unix_state_ok (st \<lparr> us_sendmsg_einval := b \<rparr>) = unix_state_ok st"
  "unix_state_ok (st \<lparr> us_log := l \<rparr>) = unix_state_ok st"
  by (auto simp: unix_state_ok_def)

lemma apple_fast_path_ok:
  "unix_state_ok st \<Longrightarrow> unix_state_ok (set_apple_fast_path P st)"
  "unix_state_ok st \<Longrightarrow> unix_state_ok (disable_apple_fast_path st)"
  "unix_state_ok st \<Longrightarrow> unix_state_ok (fst (resolve_apple_fast_fn f st))"
  by (auto simp: unix_state_ok_def set_apple_fast_path_def disable_apple_fast_path_def
      resolve_apple_fast_fn_def BATCH_SIZE_def)

lemma linux_max_gso_ok:
  "linux_max_gso_segments env seen tr = (tr', Inr (seen', n)) \<Longrightarrow> n \<in> {1, 64}"
  by (auto simp: linux_max_gso_result split: if_splits prod.splits)

lemma sockop_bind_Inr:
  "sockop_bind m f tr = (tr', Inr y) \<longleftrightarrow> (\<exists>tr1 x. m tr = (tr1, Inr x) \<and> f x tr1 = (tr', Inr y))"
  by (auto simp: sockop_bind_def split: prod.splits sum.splits)

lemma linux_options_ok:
  "linux_options env v4 tr = (tr', Inr (mf, gro)) \<Longrightarrow> gro \<in> {1, 64}"
  by (auto simp: linux_options_def sockop_bind_Inr split: sum.split)

lemma unix_new_ok:
  assumes "unix_new P env seen now tr = (tr', Inr (seen', st))"
  shows "unix_state_ok st" and "us_sendmsg_einval st = False" and "us_apple_fast_path st = False"
proof -
  from assms have "unix_open P env seen now tr = (tr', Inr (seen', st))"
    by (auto simp: unix_new_def split: if_splits prod.splits sum.splits)
  then obtain v4 tr1 tr2 mf gro tr3 tr4 gso where
    gro: "(if linux_like (pf_target P) then linux_options env v4 else sockop_return (False, 1)) tr1 =
      (tr2, Inr (mf, gro))"
    and gso: "platform_max_gso P env seen tr3 = (tr4, Inr (seen', gso))"
    and st: "us_max_gso_segments st = gso" "us_gro_segments st = gro" "\<not> us_sendmsg_einval st"
      "\<not> us_apple_fast_path st"
    by (auto simp: unix_open_def sockop_bind_Inr Let_def split: prod.splits)
  have "gro \<in> {1, 64}"
    using gro linux_options_ok [of env v4 tr1 tr2 mf gro] by (auto split: if_splits)
  moreover have "gso \<in> {1, 64}"
    using gso linux_max_gso_ok [of env seen tr3 tr4 seen' gso]
    by (auto simp: platform_max_gso_def split: if_splits)
  ultimately show "unix_state_ok st" "us_sendmsg_einval st = False" "us_apple_fast_path st = False"
    using st by (auto simp: unix_state_ok_def)
qed

end
