(* ===== verification/UdpApple.thy ===== *)
theory UdpApple
  imports UdpRecv
begin

text \<open>
  The Apple fast path of \<^verbatim>\<open>patches/noq-udp\<close> (\<^verbatim>\<open>src/apple_fast.rs\<close>): a transmit of several
  segments is cut up in user space and handed to the private call \<^verbatim>\<open>sendmsg_x\<close> as one batch
  of headers; \<^verbatim>\<open>recvmsg_x\<close> fills a batch. Either symbol may be missing on the running system;
  then the fast path is switched off and the single-message functions of \<open>UdpUnix\<close> and
  \<open>UdpRecv\<close> are used.
\<close>

text \<open>\<^verbatim>\<open>msghdr_x\<close> has the operations of \<^verbatim>\<open>msghdr\<close>, except that its buffer pointer is kept.\<close>

definition msghdr_x_abi :: "cmsg_abi \<Rightarrow> cmsg_abi" where
  "msghdr_x_abi A =
     A \<lparr> abi_set_control_len := (\<lambda>h len. h \<lparr> mh_controllen := len \<rparr>) \<rparr>"

section \<open>Sending\<close>

text \<open>\<^verbatim>\<open>[u8]::chunks\<close> for a positive size; size zero panics in the caller.\<close>

function chunks :: "nat \<Rightarrow> 'a list \<Rightarrow> 'a list list" where
  "chunks n xs = (if xs = [] \<or> n = 0 then [] else take n xs # chunks n (drop n xs))"
  by pat_completeness auto

termination
  by (relation "measure (\<lambda>(n, xs). length xs)") auto

declare chunks.simps [simp del]

definition prepare_msg_x ::
  "unix_platform \<Rightarrow> transmit \<Rightarrow> bytes \<Rightarrow> bool \<Rightarrow> bool \<Rightarrow> msg_hdr io" where
  "prepare_msg_x P t ctrl encode_src_ip sendmsg_einval =
     (let A = msghdr_x_abi (pf_abi P);
          le = pf_le P;
          hdr = \<lparr> mh_name = Some (tx_destination t), mh_iov = tx_contents t,
                  mh_control = Some ctrl, mh_controllen = LEN \<rparr>;
          ecn = ecn_int (tx_ecn t)
      in try_then
           (if dest_is_ipv4 t
            then (if \<not> sendmsg_einval
                  then encoder_push A (pf_num P Ip_Tos) (ip_tos_bytes P ecn) (encoder_new A hdr)
                  else Inr (encoder_new A hdr))
            else encoder_push A (pf_num P Ipv6_TClass) (c_put (int_type le) ecn) (encoder_new A hdr))
           (\<lambda>e1. try_then
             (case tx_src_ip t of
                None \<Rightarrow> Inr e1
              | Some (IpV4 v4) \<Rightarrow>
                  if encode_src_ip
                  then encoder_push A (pf_num P Ip_RecvDstAddr)
                         (c_put (pf_in_addr P) (s_addr le v4)) e1
                  else Inr e1
              | Some (IpV6 v6) \<Rightarrow>
                  encoder_push A (pf_num P Ipv6_PktInfo)
                    (c_put (pf_in6_pktinfo P) \<lparr> ipi6_addr = octets6 v6, ipi6_ifindex = 0 \<rparr>) e1)
             (\<lambda>e2. Inr (encoder_finish A e2))))"

text \<open>The transmit of one chunk, and the headers of all chunks of the batch.\<close>

definition chunk_transmit :: "transmit \<Rightarrow> bytes \<Rightarrow> transmit" where
  "chunk_transmit t chunk = t \<lparr> tx_contents := chunk, tx_segment_size := Some (length chunk) \<rparr>"

fun prepare_chunks ::
  "unix_platform \<Rightarrow> transmit \<Rightarrow> bool \<Rightarrow> bytes list \<Rightarrow> msg_hdr list io" where
  "prepare_chunks P t einval [] = Inr []"
| "prepare_chunks P t einval (c # cs) =
     try_then (prepare_msg_x P (chunk_transmit t c) (replicate LEN 0) True einval) (\<lambda>h.
     try_then (prepare_chunks P t einval cs) (\<lambda>hs. Inr (h # hs)))"

definition chunk_size :: "transmit \<Rightarrow> nat" where
  "chunk_size t = (case tx_segment_size t of None \<Rightarrow> length (tx_contents t) | Some n \<Rightarrow> n)"

text \<open>
  The batch of a transmit. With debug assertions the number of chunks is checked first, and
  a chunk size of zero is a division by zero there and a panic of \<^verbatim>\<open>chunks\<close> otherwise.
\<close>

definition sendmsg_x_batch :: "unix_platform \<Rightarrow> transmit \<Rightarrow> bool \<Rightarrow> msg_hdr list io" where
  "sendmsg_x_batch P t einval =
     (let n = chunk_size t in
      if pf_debug P \<and> n = 0 then Inl (Crash ''attempt to divide by zero'')
      else if pf_debug P \<and> BATCH_SIZE P < (length (tx_contents t) + n - 1) div n
      then Inl (Crash ''assertion failed: transmit.contents.len().div_ceil(segment_size) <= BATCH_SIZE'')
      else if n = 0 then Inl (Crash ''chunk size must be non-zero'')
      else prepare_chunks P t einval (take (BATCH_SIZE P) (chunks n (tx_contents t))))"

type_synonym 'w sendmsg_x = "'w \<Rightarrow> msg_hdr list \<Rightarrow> 'w \<times> (io_error + nat)"

definition send_via_sendmsg_x ::
  "unix_platform \<Rightarrow> 'w sendmsg_x option \<Rightarrow> 'w sendmsg \<Rightarrow> transmit \<Rightarrow> 'w \<Rightarrow> unix_state \<Rightarrow>
   ('w \<times> unix_state \<times> unit io) option" where
  "send_via_sendmsg_x P fn_ptr snd_msg t w st =
     (case sendmsg_x_batch P t (us_sendmsg_einval st) of
        Inl c \<Rightarrow> Some (w, st, Inl c)
      | Inr hdrs \<Rightarrow>
          (case resolve_apple_fast_fn fn_ptr st of
             (st', None) \<Rightarrow> send_single P snd_msg t w st'
           | (st', Some snd_x) \<Rightarrow>
               map_option
                 (\<lambda>(w', r). (w', st', case r of Inl e \<Rightarrow> Inl (IoErr e) | Inr n \<Rightarrow> Inr ()))
                 (retry_if_interrupted (\<lambda>w. snd_x w hdrs) w)))"

text \<open>\<^verbatim>\<open>send\<close> of the module, then \<^verbatim>\<open>UdpSocketState::send\<close> on top of it.\<close>

definition apple_try_send ::
  "unix_platform \<Rightarrow> 'w sendmsg_x option \<Rightarrow> 'w sendmsg \<Rightarrow> transmit \<Rightarrow> 'w \<Rightarrow> unix_state \<Rightarrow>
   ('w \<times> unix_state \<times> unit io) option" where
  "apple_try_send P fn_ptr snd_msg t w st =
     (if us_apple_fast_path st then send_via_sendmsg_x P fn_ptr snd_msg t w st
      else send_single P snd_msg t w st)"

definition apple_socket_send ::
  "unix_platform \<Rightarrow> 'w sendmsg_x option \<Rightarrow> 'w sendmsg \<Rightarrow> nat \<Rightarrow> transmit \<Rightarrow> 'w \<Rightarrow> unix_state \<Rightarrow>
   ('w \<times> unix_state \<times> unit io) option" where
  "apple_socket_send P fn_ptr snd_msg now t w st =
     map_option (\<lambda>(w', st', r). (w', send_outcome P now t st' r)) (apple_try_send P fn_ptr snd_msg t w st)"

section \<open>Receiving\<close>

text \<open>The control buffers are zeroed, since old systems do not report how much they wrote.\<close>

definition prepare_recv_x :: "nat \<Rightarrow> recv_hdr" where
  "prepare_recv_x cap = prepare_recv (replicate LEN 0) cap"

definition recv_via_recvmsg_x ::
  "unix_platform \<Rightarrow> 'w recvmmsg option \<Rightarrow> 'w recvmsg \<Rightarrow> bytes \<Rightarrow> nat list \<Rightarrow> recv_meta list \<Rightarrow>
   'w \<Rightarrow> unix_state \<Rightarrow> ('w \<times> unix_state \<times> recv_meta list \<times> nat io) option" where
  "recv_via_recvmsg_x P fn_ptr rcv_msg junk caps metas w st =
     (case resolve_apple_fast_fn fn_ptr st of
        (st', None) \<Rightarrow>
          map_option (\<lambda>(w', ms, r). (w', st', ms, r)) (recv_single P rcv_msg junk caps metas w)
      | (st', Some rcv_x) \<Rightarrow>
          (let hdrs = map prepare_recv_x (take (BATCH_SIZE P) caps) in
           case retry_if_interrupted (\<lambda>w. rcv_x w hdrs) w of
             None \<Rightarrow> None
           | Some (w', Inl e) \<Rightarrow> Some (w', st', metas, Inl (IoErr e))
           | Some (w', Inr got) \<Rightarrow>
               map_option (\<lambda>(metas', r). (w', st', metas', try_then r (\<lambda>_. Inr (length got))))
                 (decode_batch P 0 got metas)))"

definition apple_recv ::
  "unix_platform \<Rightarrow> 'w recvmmsg option \<Rightarrow> 'w recvmsg \<Rightarrow> bytes \<Rightarrow> nat list \<Rightarrow> recv_meta list \<Rightarrow>
   'w \<Rightarrow> unix_state \<Rightarrow> ('w \<times> unix_state \<times> recv_meta list \<times> nat io) option" where
  "apple_recv P fn_ptr rcv_msg junk caps metas w st =
     (if us_apple_fast_path st then recv_via_recvmsg_x P fn_ptr rcv_msg junk caps metas w st
      else map_option (\<lambda>(w', ms, r). (w', st, ms, r)) (recv_single P rcv_msg junk caps metas w))"

end
