(* ===== verification/UdpWindows.thy ===== *)
theory UdpWindows
  imports CmsgWindows UdpSocket
begin

text \<open>
  The Windows socket of \<^verbatim>\<open>patches/noq-udp\<close> (\<^verbatim>\<open>src/windows.rs\<close>): the probes that run once per
  process, opening a socket, sending and receiving. Control messages use the operations of
  \<open>CmsgWindows\<close>; numbers and structure layouts of the system headers are fields of
  \<open>win_platform\<close>, and the answers of the system are \<open>win_env\<close>.
\<close>

section \<open>The platform\<close>

datatype win_cmsg =
    Win_IpPktInfo | Win_Ipv6PktInfo | Win_IpEcn | Win_Ipv6Ecn | Win_UdpSendMsgSize
  | Win_UdpCoalescedInfo

record win_in_pktinfo =
  wi_addr :: u32
  wi_ifindex :: u32

record win_in6_pktinfo =
  wi6_addr :: bytes
  wi6_ifindex :: u32

record win_platform =
  wp_types :: win_types
  wp_debug :: bool
  wp_log :: bool
  wp_le :: bool
  wp_num :: "win_cmsg \<Rightarrow> i32 \<times> i32"
  wp_in_pktinfo :: "win_in_pktinfo ctype"
  wp_in6_pktinfo :: "win_in6_pktinfo ctype"

definition CMSG_LEN :: nat where
  "CMSG_LEN = 128"

record win_state =
  ws_log :: error_log
  ws_max_gso_segments :: nat
  ws_may_fragment :: bool
  ws_ecn_v4_enabled :: bool
  ws_ecn_v6_enabled :: bool
  ws_pktinfo_v4_enabled :: bool
  ws_pktinfo_v6_enabled :: bool

text \<open>
  The answers of the system: \<open>we_recvmsg_probe\<close> is the result of asking for the address of
  \<^verbatim>\<open>WSARecvMsg\<close>, an error of the throw-away socket or of the call, or the number of bytes
  returned and the pointer; \<open>we_gso_bind\<close> the two attempts to bind a probe socket.
\<close>

record win_env =
  we_sock :: sock_env
  we_recvmsg_probe :: "io_error + nat \<times> bool"
  we_ntdll :: bool
  we_wine_version :: bool
  we_gso_bind :: "bool \<times> bool"
  we_gso_option :: "io_error option"

section \<open>Probes\<close>

definition pointer_size :: nat where
  "pointer_size = 8"

text \<open>\<^verbatim>\<open>WSARECVMSG_PTR\<close>: whether there is a pointer.\<close>

definition has_wsarecvmsg :: "win_env \<Rightarrow> bool" where
  "has_wsarecvmsg env =
     (case we_recvmsg_probe env of
        Inl e \<Rightarrow> False
      | Inr (len, ptr) \<Rightarrow> if len \<noteq> pointer_size then False else ptr)"

definition is_wine :: "win_env \<Rightarrow> bool" where
  "is_wine env = (if \<not> we_ntdll env then False else we_wine_version env)"

text \<open>\<^verbatim>\<open>MAX_GSO_SEGMENTS\<close>.\<close>

definition win_max_gso :: "win_env \<Rightarrow> nat" where
  "win_max_gso env =
     (if \<not> fst (we_gso_bind env) \<and> \<not> snd (we_gso_bind env) then 1
      else (case we_gso_option env of None \<Rightarrow> 512 | Some e \<Rightarrow> 1))"

section \<open>Opening a socket\<close>

definition is_unsupported_error :: "io_error \<Rightarrow> bool" where
  "is_unsupported_error e \<longleftrightarrow>
     raw_os_error e \<in> {Some EOPNOTSUPP, Some ENOPROTOOPT} \<or> error_kind e = Unsupported"

text \<open>The \<^verbatim>\<open>setsockopt\<close> of \<^verbatim>\<open>WinSock\<close>; every option has a value of 32 bits.\<close>

definition win_set_socket_option :: "win_env \<Rightarrow> sockopt \<Rightarrow> optval \<Rightarrow> unit sockop" where
  "win_set_socket_option env opt v = set_socket_option (we_sock env) opt v"

declare win_set_socket_option_def [simp]

text \<open>An option that may be missing: the result says whether it was set.\<close>

definition win_option :: "win_env \<Rightarrow> sockopt \<Rightarrow> bool sockop" where
  "win_option env opt =
     sockop_bind (sockop_catch (win_set_socket_option env opt OPTION_ON)) (\<lambda>r.
       case r of
         Inr _ \<Rightarrow> sockop_return True
       | Inl e \<Rightarrow> if is_unsupported_error e then sockop_return False else sockop_lift (Inl e))"

text \<open>One block of three options; the result is (fragmentation refused, packet info, ECN).\<close>

definition win_ipv4_options :: "win_env \<Rightarrow> (bool \<times> bool \<times> bool) sockop" where
  "win_ipv4_options env =
     sockop_bind (win_option env IP_DONTFRAGMENT) (\<lambda>df.
     sockop_bind (win_option env IP_PKTINFO) (\<lambda>pi.
     sockop_bind (win_option env IP_RECVECN) (\<lambda>ecn. sockop_return (df, pi, ecn))))"

definition win_ipv6_options :: "win_env \<Rightarrow> (bool \<times> bool \<times> bool) sockop" where
  "win_ipv6_options env =
     sockop_bind (win_option env IPV6_DONTFRAG) (\<lambda>df.
     sockop_bind (win_option env IPV6_PKTINFO) (\<lambda>pi.
     sockop_bind (win_option env IPV6_RECVECN) (\<lambda>ecn. sockop_return (df, pi, ecn))))"

definition no_wsarecvmsg :: io_error where
  "no_wsarecvmsg = Custom Unsupported ''network stack does not support WSARecvMsg function''"

text \<open>\<^verbatim>\<open>disable_udp_ioctl\<close> passes \<^verbatim>\<open>FALSE\<close> for the control code.\<close>

definition disable_udp_ioctl :: "win_env \<Rightarrow> sockopt \<Rightarrow> unit sockop" where
  "disable_udp_ioctl env control_code = set_socket_option (we_sock env) control_code (OptInt 0)"

text \<open>The state of a new socket from what the option calls answered.\<close>

definition win_initial_state ::
  "win_env \<Rightarrow> nat \<Rightarrow> bool \<times> bool \<times> bool \<Rightarrow> bool \<times> bool \<times> bool \<Rightarrow> win_state" where
  "win_initial_state env now v4 v6 =
     (case (v4, v6) of ((df4, pi4, ecn4), (df6, pi6, ecn6)) \<Rightarrow>
        \<lparr> ws_log = error_log_new now, ws_max_gso_segments = win_max_gso env,
          ws_may_fragment = (\<not> df4 \<or> \<not> df6), ws_ecn_v4_enabled = ecn4,
          ws_ecn_v6_enabled = ecn6, ws_pktinfo_v4_enabled = (\<not> is_wine env \<and> pi4),
          ws_pktinfo_v6_enabled = (\<not> is_wine env \<and> pi6) \<rparr>)"

definition win_open :: "win_env \<Rightarrow> nat \<Rightarrow> win_state sockop" where
  "win_open env now =
     sockop_bind (sockop_lift
       (case se_set_nonblocking (we_sock env) of None \<Rightarrow> Inr () | Some e \<Rightarrow> Inl e)) (\<lambda>_.
     sockop_bind (sockop_catch (disable_udp_ioctl env SIO_UDP_CONNRESET)) (\<lambda>_.
     sockop_bind (sockop_catch (disable_udp_ioctl env SIO_UDP_NETRESET)) (\<lambda>_.
     sockop_bind (sockop_lift (se_local_addr (we_sock env))) (\<lambda>addr.
     let is_ipv6 = (case addr of SocketV4 a p \<Rightarrow> False | SocketV6 g p fi si \<Rightarrow> True) in
     sockop_bind
       (if is_ipv6
        then sockop_bind (sockop_lift (se_only_v6 (we_sock env))) (\<lambda>v6only. sockop_return (\<not> v6only))
        else sockop_return True) (\<lambda>is_ipv4.
     if \<not> has_wsarecvmsg env then sockop_lift (Inl no_wsarecvmsg)
     else
       sockop_bind
         (if is_ipv4 then win_ipv4_options env else sockop_return (True, True, True)) (\<lambda>v4.
       sockop_bind
         (if is_ipv6 then win_ipv6_options env else sockop_return (True, True, True)) (\<lambda>v6.
       sockop_return (win_initial_state env now v4 v6))))))))"

text \<open>
  \<^verbatim>\<open>UdpSocketState::new\<close>; the results of the two \<^verbatim>\<open>disable_udp_ioctl\<close> calls are only logged,
  whatever they are.
\<close>

definition win_new :: "win_platform \<Rightarrow> win_env \<Rightarrow> nat \<Rightarrow> opt_call list \<Rightarrow> opt_call list \<times> win_state io" where
  "win_new P env now tr =
     (let space = win_cmsg_space (wp_types P) in
      if CMSG_LEN < space (c_size (wp_in6_pktinfo P)) + space 4 + space 4
      then (tr, Inl (Crash ''assertion failed: CMSG_LEN''))
      else if 8 < unat (w_hdr_align (wp_types P))
      then (tr, Inl (Crash ''control message buffers will be misaligned''))
      else (case win_open env now tr of
              (tr', Inl e) \<Rightarrow> (tr', Inl (IoErr e))
            | (tr', Inr st) \<Rightarrow> (tr', Inr st)))"

definition win_set_gro :: "win_env \<Rightarrow> bool \<Rightarrow> unit sockop" where
  "win_set_gro env enable =
     win_set_socket_option env UDP_RECV_MAX_COALESCED_SIZE
       (OptInt (if enable then 65535 else 0))"

definition win_max_gso_segments :: "win_state \<Rightarrow> nat io" where
  "win_max_gso_segments st =
     (if ws_max_gso_segments st = 0 then Inl (Crash ''must have non zero GSO segments'')
      else Inr (ws_max_gso_segments st))"

section \<open>Sending\<close>

definition win_push_src_ip :: "win_platform \<Rightarrow> win_state \<Rightarrow> ip_addr option \<Rightarrow> encoder \<Rightarrow> encoder io" where
  "win_push_src_ip P st src e =
     (case src of
        None \<Rightarrow> Inr e
      | Some (IpV4 v4) \<Rightarrow>
          if ws_pktinfo_v4_enabled st
          then encoder_push (win_abi (wp_types P)) (wp_num P Win_IpPktInfo)
                 (c_put (wp_in_pktinfo P) \<lparr> wi_addr = s_addr (wp_le P) v4, wi_ifindex = 0 \<rparr>) e
          else Inr e
      | Some (IpV6 v6) \<Rightarrow>
          if ws_pktinfo_v6_enabled st
          then encoder_push (win_abi (wp_types P)) (wp_num P Win_Ipv6PktInfo)
                 (c_put (wp_in6_pktinfo P) \<lparr> wi6_addr = octets6 v6, wi6_ifindex = 0 \<rparr>) e
          else Inr e)"

definition win_push_ecn :: "win_platform \<Rightarrow> win_state \<Rightarrow> transmit \<Rightarrow> encoder \<Rightarrow> encoder io" where
  "win_push_ecn P st t e =
     (let ecn = c_put (int_type (wp_le P)) (ecn_int (tx_ecn t)) in
      if dest_is_ipv4 t
      then (if ws_ecn_v4_enabled st
            then encoder_push (win_abi (wp_types P)) (wp_num P Win_IpEcn) ecn e else Inr e)
      else (if ws_ecn_v6_enabled st
            then encoder_push (win_abi (wp_types P)) (wp_num P Win_Ipv6Ecn) ecn e else Inr e))"

definition win_push_segment_size :: "win_platform \<Rightarrow> transmit \<Rightarrow> encoder \<Rightarrow> encoder io" where
  "win_push_segment_size P t e =
     (case effective_segment_size t of
        None \<Rightarrow> Inr e
      | Some n \<Rightarrow>
          encoder_push (win_abi (wp_types P)) (wp_num P Win_UdpSendMsgSize)
            (c_put (int_type (wp_le P)) (of_nat n)) e)"

definition win_prepare :: "win_platform \<Rightarrow> win_state \<Rightarrow> transmit \<Rightarrow> msg_hdr io" where
  "win_prepare P st t =
     (let A = win_abi (wp_types P);
          hdr = \<lparr> mh_name = Some (tx_destination t), mh_iov = tx_contents t,
                  mh_control = Some (replicate CMSG_LEN 0), mh_controllen = CMSG_LEN \<rparr>
      in try_then (win_push_src_ip P st (tx_src_ip t) (encoder_new A hdr)) (\<lambda>e1.
         try_then (win_push_ecn P st t e1) (\<lambda>e2.
         try_then (win_push_segment_size P t e2) (\<lambda>e3. Inr (encoder_finish A e3)))))"

type_synonym 'w wsasendmsg = "'w \<Rightarrow> msg_hdr \<Rightarrow> 'w \<times> (io_error + nat)"

definition win_try_send ::
  "win_platform \<Rightarrow> 'w wsasendmsg \<Rightarrow> transmit \<Rightarrow> 'w \<Rightarrow> win_state \<Rightarrow> 'w \<times> win_state \<times> unit io" where
  "win_try_send P snd_msg t w st =
     (case win_prepare P st t of
        Inl c \<Rightarrow> (w, st, Inl c)
      | Inr hdr \<Rightarrow>
          (case snd_msg w hdr of
             (w', Inr n) \<Rightarrow> (w', st, Inr ())
           | (w', Inl err) \<Rightarrow>
               if error_kind err = InvalidInput \<and> tx_segment_size t \<noteq> None
               then (case win_max_gso_segments st of
                       Inl c \<Rightarrow> (w', st, Inl c)
                     | Inr n \<Rightarrow>
                         (w', if 1 < n then st \<lparr> ws_max_gso_segments := 1 \<rparr> else st,
                          Inl (IoErr err)))
               else (w', st, Inl (IoErr err))))"

definition win_send_outcome ::
  "win_platform \<Rightarrow> nat \<Rightarrow> transmit \<Rightarrow> win_state \<Rightarrow> unit io \<Rightarrow> win_state \<times> unit io" where
  "win_send_outcome P now t st r =
     (case r of
        Inr _ \<Rightarrow> (st, Inr ())
      | Inl (Crash c) \<Rightarrow> (st, Inl (Crash c))
      | Inl (IoErr e) \<Rightarrow>
          if error_kind e = WouldBlock then (st, Inl (IoErr e))
          else (st \<lparr> ws_log := log_sendmsg_error (wp_log P) now e t (ws_log st) \<rparr>, Inr ()))"

definition win_socket_send ::
  "win_platform \<Rightarrow> 'w wsasendmsg \<Rightarrow> nat \<Rightarrow> transmit \<Rightarrow> 'w \<Rightarrow> win_state \<Rightarrow> 'w \<times> win_state \<times> unit io" where
  "win_socket_send P snd_msg now t w st =
     (case win_try_send P snd_msg t w st of
        (w', st', r) \<Rightarrow> (w', win_send_outcome P now t st' r))"

section \<open>Receiving\<close>

record win_metadata =
  wm_ecn_bits :: i32
  wm_dst_ip :: "ip_addr option"
  wm_interface_index :: "u32 option"
  wm_stride :: u32

text \<open>\<^verbatim>\<open>Ipv4Addr::from(u32::from_be(s_addr))\<close>: the octets of the word in memory order.\<close>

definition ipv4_from_be :: "bool \<Rightarrow> u32 \<Rightarrow> ipv4_addr" where
  "ipv4_from_be le w = ipv4_from_s_addr le w"

definition win_control_decode ::
  "win_platform \<Rightarrow> win_state \<Rightarrow> msg_hdr \<Rightarrow> win_metadata \<Rightarrow> nat \<Rightarrow> win_metadata io" where
  "win_control_decode P st h m at =
     (let A = win_abi (wp_types P); dbg = wp_debug P; le = wp_le P;
          c = cmsg_at A h at; key = (cm_level c, cm_type c) in
      if key = wp_num P Win_IpPktInfo \<and> ws_pktinfo_v4_enabled st
      then try_then (cmsg_decode A dbg (wp_in_pktinfo P) h at) (\<lambda>p.
           Inr (m \<lparr> wm_dst_ip := Some (IpV4 (ipv4_from_be le (wi_addr p))),
                    wm_interface_index := Some (wi_ifindex p) \<rparr>))
      else if key = wp_num P Win_Ipv6PktInfo \<and> ws_pktinfo_v6_enabled st
      then try_then (cmsg_decode A dbg (wp_in6_pktinfo P) h at) (\<lambda>p.
           Inr (m \<lparr> wm_dst_ip := Some (IpV6 (groups6 (wi6_addr p))),
                    wm_interface_index := Some (wi6_ifindex p) \<rparr>))
      else if key = wp_num P Win_IpEcn
      then try_then (cmsg_decode A dbg (int_type le) h at) (\<lambda>b. Inr (m \<lparr> wm_ecn_bits := b \<rparr>))
      else if key = wp_num P Win_Ipv6Ecn
      then try_then (cmsg_decode A dbg (int_type le) h at) (\<lambda>b. Inr (m \<lparr> wm_ecn_bits := b \<rparr>))
      else if key = wp_num P Win_UdpCoalescedInfo
      then try_then (cmsg_decode A dbg (int_type le) h at) (\<lambda>n. Inr (m \<lparr> wm_stride := n \<rparr>))
      else Inr m)"

fun win_control_decode_all ::
  "win_platform \<Rightarrow> win_state \<Rightarrow> msg_hdr \<Rightarrow> nat list \<Rightarrow> win_metadata \<Rightarrow> win_metadata io" where
  "win_control_decode_all P st h [] m = Inr m"
| "win_control_decode_all P st h (at # ats) m =
     try_then (win_control_decode P st h m at) (win_control_decode_all P st h ats)"

text \<open>
  What \<^verbatim>\<open>WSARecvMsg\<close> hands over: the source address if it is an Internet address, the header
  with the control buffer, and the number of bytes.
\<close>

record win_received =
  wr_addr :: "socket_addr option"
  wr_hdr :: msg_hdr
  wr_len :: u32

definition win_decode ::
  "win_platform \<Rightarrow> win_state \<Rightarrow> win_received \<Rightarrow> recv_meta io option" where
  "win_decode P st rx =
     map_option
       (\<lambda>ats. try_then
          (win_control_decode_all P st (wr_hdr rx) ats
             \<lparr> wm_ecn_bits = 0, wm_dst_ip = None, wm_interface_index = None,
               wm_stride = wr_len rx \<rparr>)
          (\<lambda>m. case wr_addr rx of
             None \<Rightarrow> Inl (Crash ''called `Option::unwrap()` on a `None` value'')
           | Some addr \<Rightarrow>
               Inr \<lparr> rm_addr = addr, rm_len = unat (wr_len rx), rm_stride = unat (wm_stride m),
                     rm_ecn = ecn_from_bits (ucast (wm_ecn_bits m)), rm_dst_ip = wm_dst_ip m,
                     rm_interface_index = wm_interface_index m, rm_timestamp = None \<rparr>))
       (iter_collect (win_abi (wp_types P)) False (wr_hdr rx)
         (iter_new (win_abi (wp_types P)) (wr_hdr rx)))"

definition win_recv ::
  "win_platform \<Rightarrow> win_env \<Rightarrow> ('w \<Rightarrow> nat \<Rightarrow> 'w \<times> (io_error + win_received)) \<Rightarrow> nat list \<Rightarrow>
   recv_meta list \<Rightarrow> 'w \<Rightarrow> win_state \<Rightarrow> ('w \<times> recv_meta list \<times> nat io) option" where
  "win_recv P env rcv_msg caps metas w st =
     (if \<not> has_wsarecvmsg env
      then Some (w, metas, Inl (Crash ''valid function pointer for WSARecvMsg''))
      else (case caps of
        [] \<Rightarrow> Some (w, metas, Inl (Crash ''index out of bounds''))
      | cap # _ \<Rightarrow>
          (case rcv_msg w cap of
             (w', Inl e) \<Rightarrow> Some (w', metas, Inl (IoErr e))
           | (w', Inr rx) \<Rightarrow>
               (case win_decode P st rx of
                  None \<Rightarrow> None
                | Some (Inl c) \<Rightarrow> Some (w', metas, Inl c)
                | Some (Inr m) \<Rightarrow>
                    if metas = [] then Some (w', metas, Inl (Crash ''index out of bounds''))
                    else Some (w', metas[0 := m], Inr 1)))))"

end
