(* ===== verification/UdpSendProps.thy ===== *)
theory UdpSendProps
  imports UdpUnixProps UdpApple UdpWindows
begin

text \<open>
  Sending a datagram with \<^verbatim>\<open>patches/noq-udp\<close>: that a send returns, what it returns, which
  headers reach the system when an argument is rejected, and that the three ports agree on
  what a caller sees of an error.
\<close>

section \<open>The send loop\<close>

text \<open>What follows a failed call that was not interrupted.\<close>

definition after_error ::
  "unix_platform \<Rightarrow> 'w sendmsg \<Rightarrow> transmit \<Rightarrow> bool \<Rightarrow> 'w \<Rightarrow> unix_state \<Rightarrow> bytes \<Rightarrow> io_error \<Rightarrow>
   ('w \<times> unix_state \<times> unit io) option" where
  "after_error P snd_msg t enc w' st ctrl e =
     (if error_kind e = WouldBlock then Some (w', st, Inl (IoErr e))
      else
        (case halt_offload P e st of
           Inl c \<Rightarrow> Some (w', st, Inl c)
         | Inr st1 \<Rightarrow>
             if raw_os_error e = Some EINVAL \<and> \<not> us_sendmsg_einval st1
             then
               (let st2 = st1 \<lparr> us_sendmsg_einval := True \<rparr> in
                case prepare_msg P t ctrl enc (us_sendmsg_einval st2) of
                  Inl c \<Rightarrow> Some (w', st2, Inl c)
                | Inr (hdr', ctrl') \<Rightarrow> unix_send_loop P snd_msg t enc w' st2 hdr' ctrl')
             else Some (w', st1, Inl (IoErr e))))"

lemma send_loop_step:
  "unix_send_loop P snd_msg t enc w st hdr ctrl =
     (case snd_msg w hdr of
        (w', Inr n) \<Rightarrow> Some (w', st, Inr ())
      | (w', Inl e) \<Rightarrow>
          if error_kind e = Interrupted then unix_send_loop P snd_msg t enc w' st hdr ctrl
          else after_error P snd_msg t enc w' st ctrl e)"
  by (subst unix_send_loop.simps) (simp only: after_error_def)

definition after_call ::
  "unix_platform \<Rightarrow> 'w sendmsg \<Rightarrow> transmit \<Rightarrow> bool \<Rightarrow> unix_state \<Rightarrow> bytes \<Rightarrow>
   'w \<times> (io_error + nat) \<Rightarrow> ('w \<times> unix_state \<times> unit io) option" where
  "after_call P snd_msg t enc st ctrl r =
     (case r of
        (w', Inr n) \<Rightarrow> Some (w', st, Inr ())
      | (w', Inl e) \<Rightarrow> after_error P snd_msg t enc w' st ctrl e)"

lemma send_loop_found:
  "\<not> interrupted (snd (nth_call (\<lambda>w. snd_msg w hdr) w n)) \<Longrightarrow>
   (\<And>k. k < n \<Longrightarrow> interrupted (snd (nth_call (\<lambda>w. snd_msg w hdr) w k))) \<Longrightarrow>
   unix_send_loop P snd_msg t enc w st hdr ctrl =
     after_call P snd_msg t enc st ctrl (nth_call (\<lambda>w. snd_msg w hdr) w n)"
proof (induction n arbitrary: w)
  case 0
  then show ?case
    by (subst send_loop_step) (auto simp: after_call_def interrupted_def split: prod.split sum.split)
next
  case (Suc n)
  have i: "interrupted (snd (snd_msg w hdr))" using Suc.prems(2) [of 0] by simp
  have "interrupted (snd (nth_call (\<lambda>w. snd_msg w hdr) (fst (snd_msg w hdr)) k))" if "k < n" for k
    using Suc.prems(2) [of "Suc k"] that by simp
  with Suc.IH [of "fst (snd_msg w hdr)"] Suc.prems(1)
  have "unix_send_loop P snd_msg t enc (fst (snd_msg w hdr)) st hdr ctrl =
      after_call P snd_msg t enc st ctrl (nth_call (\<lambda>w. snd_msg w hdr) w (Suc n))"
    by simp
  with i show ?case
    by (subst send_loop_step) (auto simp: interrupted_def split: prod.splits sum.splits)
qed

text \<open>The system answers: no call is interrupted forever.\<close>

definition responsive :: "'w sendmsg \<Rightarrow> bool" where
  "responsive snd_msg \<longleftrightarrow> (\<forall>w h. \<exists>n. \<not> interrupted (snd (nth_call (\<lambda>w. snd_msg w h) w n)))"

lemma send_loop_answered:
  assumes "responsive snd_msg"
  shows "\<exists>w' r. \<not> interrupted r \<and>
    retry_if_interrupted (\<lambda>w. snd_msg w hdr) w = Some (w', r) \<and>
    unix_send_loop P snd_msg t enc w st hdr ctrl = after_call P snd_msg t enc st ctrl (w', r)"
proof -
  let ?f = "\<lambda>w. snd_msg w hdr"
  let ?n = "LEAST n. \<not> interrupted (snd (nth_call ?f w n))"
  have ex: "\<exists>n. \<not> interrupted (snd (nth_call ?f w n))"
    using assms by (simp add: responsive_def)
  then have n: "\<not> interrupted (snd (nth_call ?f w ?n))" by (rule LeastI_ex)
  have k: "interrupted (snd (nth_call ?f w k))" if "k < ?n" for k
    using not_less_Least [OF that] by simp
  obtain w' r where r: "nth_call ?f w ?n = (w', r)" by (cases "nth_call ?f w ?n")
  with n k retry_found [of ?f w ?n] send_loop_found [of snd_msg hdr w ?n P t enc st ctrl]
  show ?thesis by (intro exI [of _ w'] exI [of _ r]) simp
qed

lemma after_error_einval:
  "us_sendmsg_einval st \<Longrightarrow>
   after_error P snd_msg t enc w st ctrl e =
     (if error_kind e = WouldBlock then Some (w, st, Inl (IoErr e))
      else (case halt_offload P e st of
              Inl c \<Rightarrow> Some (w, st, Inl c)
            | Inr st1 \<Rightarrow> Some (w, st1, Inl (IoErr e))))"
  by (auto simp: after_error_def halt_offload_def try_then_def split: sum.splits if_splits)

lemma send_loop_returns_einval:
  assumes "responsive snd_msg" and "us_sendmsg_einval st"
  shows "\<exists>res. unix_send_loop P snd_msg t enc w st hdr ctrl = Some res"
proof -
  from send_loop_answered [OF assms(1)] obtain w' r where
    "unix_send_loop P snd_msg t enc w st hdr ctrl = after_call P snd_msg t enc st ctrl (w', r)"
    by blast
  then show ?thesis
    using assms(2) by (cases r) (auto simp: after_call_def after_error_einval split: sum.split)
qed

lemma after_error_returns:
  assumes "responsive snd_msg"
  shows "\<exists>res. after_error P snd_msg t enc w st ctrl e = Some res"
  using send_loop_returns_einval [OF assms]
  by (auto simp: after_error_def Let_def split: sum.split prod.split)

text \<open>
  A send returns: whatever the system answers, and however often it interrupts the call, as
  long as it does not interrupt it forever. At most one further attempt is made after an
  error.
\<close>

theorem send_returns:
  assumes "responsive snd_msg"
  shows "\<exists>res. unix_socket_send P env snd_msg now t w st = Some res"
proof -
  have loop: "\<exists>res. unix_send_loop P snd_msg t enc w st hdr ctrl = Some res" for enc hdr ctrl
  proof -
    from send_loop_answered [OF assms] obtain w' r where
      "unix_send_loop P snd_msg t enc w st hdr ctrl = after_call P snd_msg t enc st ctrl (w', r)"
      by blast
    then show ?thesis
      using after_error_returns [OF assms] by (cases r) (auto simp: after_call_def)
  qed
  have "\<exists>res. unix_send P env snd_msg t w st = Some res"
    using loop by (auto simp: unix_send_def split: sum.split prod.split)
  moreover have "\<exists>res. send_single P snd_msg t w st = Some res"
    using send_loop_answered [OF assms, of _ w]
    by (fastforce simp: send_single_def split: sum.split prod.split)
  ultimately show ?thesis
    by (auto simp: unix_socket_send_def unix_try_send_def)
qed

section \<open>Results\<close>

definition no_crash :: "unit io \<Rightarrow> bool" where
  "no_crash r \<longleftrightarrow> (case r of Inl (Crash c) \<Rightarrow> False | _ \<Rightarrow> True)"

lemma no_crash_simps [simp]:
  "no_crash (Inr u)" "no_crash (Inl (IoErr e))" "\<not> no_crash (Inl (Crash c))"
  by (simp_all add: no_crash_def)

lemma after_error_good_einval:
  assumes "unix_state_ok st" and "us_sendmsg_einval st"
  shows "\<exists>st' r. after_error P snd_msg t enc w st ctrl e = Some (w, st', r) \<and>
    unix_state_ok st' \<and> no_crash r"
  using assms by (auto simp: after_error_einval halt_offload_ok)

lemma send_loop_good_einval:
  assumes "responsive snd_msg" and "unix_state_ok st" and "us_sendmsg_einval st"
  shows "\<exists>w' st' r. unix_send_loop P snd_msg t enc w st hdr ctrl = Some (w', st', r) \<and>
    unix_state_ok st' \<and> no_crash r"
proof -
  from send_loop_answered [OF assms(1)] obtain w' res where
    l: "unix_send_loop P snd_msg t enc w st hdr ctrl = after_call P snd_msg t enc st ctrl (w', res)"
    by blast
  show ?thesis
  proof (cases res)
    case (Inl e)
    then show ?thesis
      using l after_error_good_einval [OF assms(2,3), of P snd_msg t enc w' ctrl e]
      by (auto simp: after_call_def)
  qed (use l assms(2) in \<open>simp add: after_call_def\<close>)
qed

lemma after_error_good:
  assumes "responsive snd_msg" and "unix_state_ok st"
    and again: "us_sendmsg_einval st \<or> (\<exists>h c. prepare_msg P t ctrl enc True = Inr (h, c))"
  shows "\<exists>w' st' r. after_error P snd_msg t enc w st ctrl e = Some (w', st', r) \<and>
    unix_state_ok st' \<and> no_crash r"
proof (cases "us_sendmsg_einval st")
  case True
  with after_error_good_einval [OF assms(2) this, of P snd_msg t enc w ctrl e] show ?thesis by blast
next
  case False
  with again obtain h c where hc: "prepare_msg P t ctrl enc True = Inr (h, c)" by blast
  show ?thesis
    using send_loop_good_einval [OF assms(1)] assms(2) hc
    by (auto simp: after_error_def halt_offload_ok Let_def)
qed

lemma send_loop_good:
  assumes "responsive snd_msg" and "unix_state_ok st"
    and "us_sendmsg_einval st \<or> (\<exists>h c. prepare_msg P t ctrl enc True = Inr (h, c))"
  shows "\<exists>w' st' r. unix_send_loop P snd_msg t enc w st hdr ctrl = Some (w', st', r) \<and>
    unix_state_ok st' \<and> no_crash r"
proof -
  from send_loop_answered [OF assms(1)] obtain w' res where
    l: "unix_send_loop P snd_msg t enc w st hdr ctrl = after_call P snd_msg t enc st ctrl (w', res)"
    by blast
  show ?thesis
  proof (cases res)
    case (Inl e)
    then show ?thesis
      using l after_error_good [OF assms, of w' e] by (auto simp: after_call_def)
  qed (use l assms(2) in \<open>simp add: after_call_def\<close>)
qed

lemma try_send_good:
  assumes "platform_ok P" and "transmit_ok t" and "responsive snd_msg" and "unix_state_ok st"
  shows "\<exists>w' st' r. unix_try_send P env snd_msg t w st = Some (w', st', r) \<and>
    unix_state_ok st' \<and> no_crash r"
proof -
  have "\<exists>w' st' r. unix_send P env snd_msg t w st = Some (w', st', r) \<and>
      unix_state_ok st' \<and> no_crash r"
  proof (cases "encode_src_ip_of P env")
    case (Inr enc)
    obtain h ctrl where h: "prepare_msg P t (replicate LEN 0) enc (us_sendmsg_einval st) = Inr (h, ctrl)"
      using prepare_msg_zero [OF assms(1,2)] by blast
    have "us_sendmsg_einval st \<or> (\<exists>h c. prepare_msg P t ctrl enc True = Inr (h, c))"
      using prepare_msg_again [OF assms(1,2), of enc h ctrl] h
      by (cases "us_sendmsg_einval st") auto
    from send_loop_good [OF assms(3,4) this, of w h] show ?thesis
      by (simp add: unix_send_def Inr h)
  qed (use assms(4) in \<open>simp add: unix_send_def\<close>)
  moreover have "\<exists>w' st' r. send_single P snd_msg t w st = Some (w', st', r) \<and>
      unix_state_ok st' \<and> no_crash r"
  proof -
    let ?enc = "apple (pf_target P) \<or> pf_target P = OpenBSD \<or> pf_target P = NetBSD"
    obtain h ctrl where h:
      "prepare_msg P t (replicate LEN 0) ?enc (us_sendmsg_einval st) = Inr (h, ctrl)"
      using prepare_msg_zero [OF assms(1,2)] by blast
    obtain w' r where "retry_if_interrupted (\<lambda>w. snd_msg w h) w = Some (w', r)"
      using send_loop_answered [OF assms(3), of h w] by blast
    with assms(4) h show ?thesis
      by (cases r) (simp_all add: send_single_def)
  qed
  ultimately show ?thesis by (simp add: unix_try_send_def)
qed

text \<open>
  C25. To its caller a socket reports nothing but a full send buffer: on a system that answers, a
  send of any datagram returns success or an error of kind \<^verbatim>\<open>WouldBlock\<close>; it never panics,
  and the segment counts of the state stay non-zero.
\<close>

theorem send_only_would_block:
  assumes "platform_ok P" and "transmit_ok t" and "responsive snd_msg" and "unix_state_ok st"
  shows "\<exists>w' st' r. unix_socket_send P env snd_msg now t w st = Some (w', st', r) \<and>
    unix_state_ok st' \<and>
    (r = Inr () \<or> (\<exists>e. r = Inl (IoErr e) \<and> error_kind e = WouldBlock))"
proof -
  obtain w' st' r where raw: "unix_try_send P env snd_msg t w st = Some (w', st', r)"
    and st': "unix_state_ok st'" and r: "no_crash r"
    using try_send_good [OF assms] by blast
  obtain st2 r2 where out: "send_outcome P now t st' r = (st2, r2)"
    by (cases "send_outcome P now t st' r")
  from r consider "r = Inr ()" | e where "r = Inl (IoErr e)"
    by (auto simp: no_crash_def split: sum.splits io_failure.splits)
  then have "unix_state_ok st2 \<and> (r2 = Inr () \<or> (\<exists>e. r2 = Inl (IoErr e) \<and> error_kind e = WouldBlock))"
  proof cases
    case 1
    with out st' show ?thesis by (simp add: send_outcome_def)
  next
    case (2 e)
    with out st' show ?thesis by (auto simp: send_outcome_def split: if_splits)
  qed
  then show ?thesis by (simp add: unix_socket_send_def raw out)
qed

section \<open>Falling back when an argument is rejected\<close>

text \<open>
  A system that refuses the option for the type-of-service byte and nothing else, as
  \<^verbatim>\<open>sendmsg\<close> does on kernels that do not know it as ancillary data.
\<close>

definition refuses_tos :: "unix_platform \<Rightarrow> 'w sendmsg \<Rightarrow> bool" where
  "refuses_tos P snd_msg \<longleftrightarrow>
     (\<forall>w h ms. control_messages (pf_abi P) h = Some ms \<longrightarrow>
        (if pf_num P Ip_Tos \<in> fst ` set ms then snd (snd_msg w h) = Inl (Os EINVAL)
         else \<exists>n. snd (snd_msg w h) = Inr n))"

lemma refuses_tosD:
  assumes "refuses_tos P snd_msg" and "control_messages (pf_abi P) h = Some ms"
  shows "pf_num P Ip_Tos \<in> fst ` set ms \<Longrightarrow> snd_msg w h = (fst (snd_msg w h), Inl (Os EINVAL))"
    and "pf_num P Ip_Tos \<notin> fst ` set ms \<Longrightarrow> \<exists>n. snd_msg w h = (fst (snd_msg w h), Inr n)"
  using assms by (auto simp: refuses_tos_def prod_eq_iff split: if_splits)

definition multi_send :: "unix_platform \<Rightarrow> bool" where
  "multi_send P \<longleftrightarrow> pf_target P \<notin> {OpenBSD, NetBSD} \<and> \<not> apple_slow P"

lemma tos_only_first:
  assumes "platform_ok P" and "dest_is_ipv4 t" and "multi_send P"
  shows "pf_num P Ip_Tos \<in> fst ` set (datagram_messages P enc False t)"
    and "pf_num P Ip_Tos \<notin> fst ` set (datagram_messages P enc True t)"
proof -
  note names = platform_okD(2) [OF assms(1), THEN inj_eq] and P = assms(3) [unfolded multi_send_def]
  show "pf_num P Ip_Tos \<in> fst ` set (datagram_messages P enc False t)"
    using P assms(2) by (simp add: datagram_messages_def ecn_messages_def)
  have "pf_num P Ip_Tos \<notin> fst ` set (segment_messages P t)"
    by (cases "effective_segment_size t") (auto simp: segment_messages_def names)
  moreover have "pf_num P Ip_Tos \<notin> fst ` set (source_messages P enc t)"
  proof (cases "tx_src_ip t")
    case (Some ip)
    then show ?thesis by (cases ip) (auto simp: source_messages_def names)
  qed (simp add: source_messages_def)
  ultimately show "pf_num P Ip_Tos \<notin> fst ` set (datagram_messages P enc True t)"
    using assms(2) by (auto simp: datagram_messages_def ecn_messages_def)
qed

lemma send_loop_done:
  "snd_msg w hdr = (w', Inr n) \<Longrightarrow>
   unix_send_loop P snd_msg t enc w st hdr ctrl = Some (w', st, Inr ())"
  by (subst send_loop_step) simp

text \<open>The raw send on such a system, before and after the rejection is known.\<close>

lemma raw_send_falls_back:
  assumes "platform_ok P" and "transmit_ok t" and "unix_state_ok st" and "\<not> us_sendmsg_einval st"
    and "dest_is_ipv4 t" and "multi_send P" and "encode_src_ip_of P env = Inr enc"
    and "refuses_tos P snd_msg"
  shows "\<exists>h1 w1 h2 w2 n.
    control_messages (pf_abi P) h1 = Some (datagram_messages P enc False t) \<and>
    snd_msg w h1 = (w1, Inl (Os EINVAL)) \<and>
    control_messages (pf_abi P) h2 = Some (datagram_messages P enc True t) \<and>
    mh_name h2 = Some (tx_destination t) \<and> mh_iov h2 = tx_contents t \<and>
    snd_msg w1 h2 = (w2, Inr n) \<and>
    unix_send P env snd_msg t w st =
      Some (w2,
        (if linux_like (pf_target P) then st \<lparr> us_max_gso_segments := 1 \<rparr> else st)
          \<lparr> us_sendmsg_einval := True \<rparr>, Inr ())"
proof -
  let ?st = "(if linux_like (pf_target P) then st \<lparr> us_max_gso_segments := 1 \<rparr> else st)
    \<lparr> us_sendmsg_einval := True \<rparr>"
  obtain h1 ctrl where h1: "prepare_msg P t (replicate LEN 0) enc False = Inr (h1, ctrl)"
    "control_messages (pf_abi P) h1 = Some (datagram_messages P enc False t)"
    using prepare_msg_zero [OF assms(1,2)] by blast
  obtain h2 ctrl2 where h2: "prepare_msg P t ctrl enc True = Inr (h2, ctrl2)"
    "control_messages (pf_abi P) h2 = Some (datagram_messages P enc True t)"
    "mh_name h2 = Some (tx_destination t)" "mh_iov h2 = tx_contents t"
    using prepare_msg_again [OF assms(1,2) h1(1)] by blast
  obtain w1 where s1: "snd_msg w h1 = (w1, Inl (Os EINVAL))"
    using refuses_tosD(1) [OF assms(8) h1(2) tos_only_first(1) [OF assms(1,5,6)]] by blast
  obtain w2 n where s2: "snd_msg w1 h2 = (w2, Inr n)"
    using refuses_tosD(2) [OF assms(8) h2(2) tos_only_first(2) [OF assms(1,5,6)]] by blast
  have "unix_send_loop P snd_msg t enc w st h1 ctrl =
      after_error P snd_msg t enc w1 st ctrl (Os EINVAL)"
    by (subst send_loop_step) (simp add: s1)
  also have "\<dots> = unix_send_loop P snd_msg t enc w1 ?st h2 ctrl2"
    using h2(1) assms(4) by (simp add: after_error_def halt_offload_ok [OF assms(3)])
  finally have "unix_send P env snd_msg t w st = Some (w2, ?st, Inr ())"
    using send_loop_done [of snd_msg w1, OF s2] h1(1) assms(4,7) by (simp add: unix_send_def)
  with s1 s2 h1(2) h2(2-4) show ?thesis by blast
qed

lemma raw_rejection_remembered:
  assumes "platform_ok P" and "transmit_ok t" and "us_sendmsg_einval st"
    and "dest_is_ipv4 t" and "multi_send P" and "encode_src_ip_of P env = Inr enc"
    and "refuses_tos P snd_msg"
  shows "\<exists>h w' n.
    control_messages (pf_abi P) h = Some (datagram_messages P enc True t) \<and>
    snd_msg w h = (w', Inr n) \<and> unix_send P env snd_msg t w st = Some (w', st, Inr ())"
proof -
  obtain h ctrl where h: "prepare_msg P t (replicate LEN 0) enc True = Inr (h, ctrl)"
    "control_messages (pf_abi P) h = Some (datagram_messages P enc True t)"
    using prepare_msg_zero [OF assms(1,2)] by blast
  obtain w' n where s: "snd_msg w h = (w', Inr n)"
    using refuses_tosD(2) [OF assms(7) h(2) tos_only_first(2) [OF assms(1,4,5)]] by blast
  have "unix_send P env snd_msg t w st = Some (w', st, Inr ())"
    using send_loop_done [of snd_msg w, OF s] h assms(3,6) by (simp add: unix_send_def)
  with s h(2) show ?thesis by blast
qed

lemma multi_send_reports:
  "multi_send P \<Longrightarrow> unix_send P env snd_msg t w st = Some (w', st', Inr ()) \<Longrightarrow>
   unix_socket_send P env snd_msg now t w st = Some (w', st', Inr ())"
  by (simp add: unix_socket_send_def unix_try_send_def multi_send_def send_outcome_def)

text \<open>
  C26. A datagram is delivered although the system rejects its first header: the send drops the
  type-of-service message, tries once more with the same destination, payload and remaining
  messages, and succeeds. The state remembers the rejection (on Linux also by giving up
  segmentation offload).
\<close>

theorem send_falls_back:
  assumes "platform_ok P" and "transmit_ok t" and "unix_state_ok st" and "\<not> us_sendmsg_einval st"
    and "dest_is_ipv4 t" and "multi_send P" and "encode_src_ip_of P env = Inr enc"
    and "refuses_tos P snd_msg"
  shows "\<exists>h1 w1 h2 w2 n.
    control_messages (pf_abi P) h1 = Some (datagram_messages P enc False t) \<and>
    snd_msg w h1 = (w1, Inl (Os EINVAL)) \<and>
    control_messages (pf_abi P) h2 = Some (datagram_messages P enc True t) \<and>
    mh_name h2 = Some (tx_destination t) \<and> mh_iov h2 = tx_contents t \<and>
    snd_msg w1 h2 = (w2, Inr n) \<and>
    unix_socket_send P env snd_msg now t w st =
      Some (w2,
        (if linux_like (pf_target P) then st \<lparr> us_max_gso_segments := 1 \<rparr> else st)
          \<lparr> us_sendmsg_einval := True \<rparr>, Inr ())"
  using raw_send_falls_back [OF assms, of w] multi_send_reports [OF assms(6), of env snd_msg t w st]
  by fast

text \<open>Later datagrams leave the message out from the start and need one call each.\<close>

theorem rejection_remembered:
  assumes "platform_ok P" and "transmit_ok t" and "us_sendmsg_einval st"
    and "dest_is_ipv4 t" and "multi_send P" and "encode_src_ip_of P env = Inr enc"
    and "refuses_tos P snd_msg"
  shows "\<exists>h w' n.
    control_messages (pf_abi P) h = Some (datagram_messages P enc True t) \<and>
    snd_msg w h = (w', Inr n) \<and>
    unix_socket_send P env snd_msg now t w st = Some (w', st, Inr ())"
  using raw_rejection_remembered [OF assms, of w] multi_send_reports [OF assms(5), of env snd_msg t w st]
  by fast

section \<open>Concrete instances\<close>

definition example_transmit :: transmit where
  "example_transmit =
     \<lparr> tx_destination = SocketV4 (Ipv4 10 0 0 7) 4433, tx_ecn = Some Ect0,
       tx_contents = [1, 2, 3, 4, 5], tx_segment_size = Some 2,
       tx_src_ip = Some (IpV4 (Ipv4 10 0 0 1)) \<rparr>"

definition example_state :: unix_state where
  "example_state =
     \<lparr> us_log = error_log_new 0, us_max_gso_segments = 64, us_gro_segments = 64,
       us_may_fragment = False, us_sendmsg_einval = False, us_apple_fast_path = False \<rparr>"

definition example_env :: sock_env where
  "example_env =
     \<lparr> se_set_nonblocking = None, se_local_addr = Inr (SocketV4 (Ipv4 0 0 0 0) 4433),
       se_only_v6 = Inr False, se_setsockopt = (\<lambda>_ _. None), se_uname = Inr [54, 46, 56, 46, 48, 0] \<rparr>"

text \<open>A system that answers everything with a full buffer after one interruption.\<close>

definition busy_system :: "nat sendmsg" where
  "busy_system w h = (Suc w, if w = 0 then Inl (Os EINTR) else Inl (Os EAGAIN))"

text \<open>A system that refuses the type-of-service byte and keeps the headers it was given.\<close>

definition rejects_tos :: "unix_platform \<Rightarrow> msg_hdr list sendmsg" where
  "rejects_tos P sent h =
     (sent @ [h],
      case control_messages (pf_abi P) h of
        None \<Rightarrow> Inl (Os EINVAL)
      | Some ms \<Rightarrow>
          if pf_num P Ip_Tos \<in> fst ` set ms then Inl (Os EINVAL) else Inr (length (mh_iov h)))"

lemma rejects_tos_refuses: "refuses_tos P (rejects_tos P)"
  by (simp add: refuses_tos_def rejects_tos_def)

lemma example_facts:
  "transmit_ok example_transmit" "unix_state_ok example_state"
  "\<not> us_sendmsg_einval example_state" "dest_is_ipv4 example_transmit" "multi_send linux_x86_64"
  "encode_src_ip_of linux_x86_64 example_env = Inr True"
  by (simp_all add: example_transmit_def example_state_def transmit_ok_def ip_ok_def
      unix_state_ok_def dest_is_ipv4_def multi_send_def linux_x86_64_def apple_slow_def apple_def
      encode_src_ip_of_def Let_def)

lemma busy_system_responsive: "responsive busy_system"
proof -
  have "\<not> interrupted (snd (nth_call (\<lambda>w. busy_system w h) w (Suc 0)))" for w h
    by (simp add: busy_system_def interrupted_def)
  then show ?thesis unfolding responsive_def by blast
qed

theorem send_returns_witness:
  "\<exists>res. unix_socket_send linux_x86_64 example_env busy_system 0 example_transmit 0 example_state =
     Some res"
  by (rule send_returns [OF busy_system_responsive])

theorem send_only_would_block_witness:
  "\<exists>w' st' r. unix_socket_send linux_x86_64 example_env busy_system 0 example_transmit 0
      example_state = Some (w', st', r) \<and> unix_state_ok st' \<and>
    (r = Inr () \<or> (\<exists>e. r = Inl (IoErr e) \<and> error_kind e = WouldBlock))"
  by (rule send_only_would_block [OF linux_x86_64_ok example_facts(1) busy_system_responsive
        example_facts(2)])

theorem send_falls_back_witness:
  "\<exists>w2. unix_socket_send linux_x86_64 example_env (rejects_tos linux_x86_64) 0 example_transmit []
      example_state =
    Some (w2, example_state \<lparr> us_max_gso_segments := 1, us_sendmsg_einval := True \<rparr>, Inr ())"
proof -
  have "linux_like (pf_target linux_x86_64)"
    by (simp add: linux_x86_64_def linux_like_def Let_def)
  then show ?thesis
    using send_falls_back [OF linux_x86_64_ok example_facts rejects_tos_refuses, of "[]" 0] by auto
qed

theorem rejection_remembered_witness:
  "\<exists>w'. unix_socket_send linux_x86_64 example_env (rejects_tos linux_x86_64) 0 example_transmit []
      (example_state \<lparr> us_sendmsg_einval := True \<rparr>) =
    Some (w', example_state \<lparr> us_sendmsg_einval := True \<rparr>, Inr ())"
  using rejection_remembered [OF linux_x86_64_ok example_facts(1) _ example_facts(4-6)
      rejects_tos_refuses, of "example_state \<lparr> us_sendmsg_einval := True \<rparr>" "[]" 0]
  by auto


end
