(* ===== verification/UdpAppleProps.thy ===== *)
theory UdpAppleProps
  imports UdpSendProps
begin

text \<open>
  The Apple fast path of \<^verbatim>\<open>patches/noq-udp\<close>: the batch made from a transmit carries its
  payload cut into segments, each with the control messages of the whole; an empty datagram
  makes it panic; and without \<^verbatim>\<open>sendmsg_x\<close> the segments leave as one datagram.
\<close>

section \<open>Chunks\<close>

lemma chunks_simps [simp]:
  "chunks n [] = []" "chunks 0 xs = []"
  "0 < n \<Longrightarrow> xs \<noteq> [] \<Longrightarrow> chunks n xs = take n xs # chunks n (drop n xs)"
  by (simp_all add: chunks.simps)

lemma take_chunks: "0 < n \<Longrightarrow> concat (take k (chunks n xs)) = take (k * n) xs"
proof (induction k arbitrary: xs)
  case (Suc k)
  then show ?case
    by (cases "xs = []") (simp_all add: take_add add.commute [of "k * n"])
qed simp

lemma chunks_bound: "c \<in> set (chunks n xs) \<Longrightarrow> 0 < length c \<and> length c \<le> n"
proof (induction n xs rule: chunks.induct)
  case (1 n xs)
  then show ?case by (cases "xs = [] \<or> n = 0") auto
qed

section \<open>One header of a batch\<close>

lemma msghdr_x_sel [simp]:
  "abi_hdr_size (msghdr_x_abi A) = abi_hdr_size A"
  "abi_put_hdr (msghdr_x_abi A) = abi_put_hdr A"
  "abi_get_hdr (msghdr_x_abi A) = abi_get_hdr A"
  "abi_data_offset (msghdr_x_abi A) = abi_data_offset A"
  "abi_cmsg_len (msghdr_x_abi A) = abi_cmsg_len A"
  "abi_cmsg_space (msghdr_x_abi A) = abi_cmsg_space A"
  "abi_first (msghdr_x_abi A) = abi_first A" "abi_next (msghdr_x_abi A) = abi_next A"
  "abi_set_control_len (msghdr_x_abi A) = (\<lambda>h n. h \<lparr> mh_controllen := n \<rparr>)"
  "cmsg_at (msghdr_x_abi A) = cmsg_at A"
  by (simp_all add: msghdr_x_abi_def cmsg_at_def fun_eq_iff)

text \<open>The structure \<^verbatim>\<open>msghdr_x\<close> keeps the laws of the interface.\<close>

lemma msghdr_x_interface:
  assumes "cmsg_interface A"
  shows "cmsg_interface (msghdr_x_abi A)"
proof -
  have "\<exists>c. h \<lparr> mh_controllen := 0 \<rparr> = h \<lparr> mh_control := c, mh_controllen := 0 \<rparr>" for h :: msg_hdr
    by (rule exI [of _ "mh_control h"]) simp
  with assms [unfolded cmsg_interface_def] show ?thesis
    by (simp only: cmsg_interface_def msghdr_x_sel) (elim conjE, intro conjI; (assumption | simp))
qed

interpretation msghdr_x: cmsg_interface "msghdr_x_abi (unix_abi linux_macros)"
  by (rule msghdr_x_interface [OF linux_interface])

lemma chunk_transmit_sel [simp]:
  "tx_destination (chunk_transmit t c) = tx_destination t" "tx_ecn (chunk_transmit t c) = tx_ecn t"
  "tx_contents (chunk_transmit t c) = c" "tx_src_ip (chunk_transmit t c) = tx_src_ip t"
  "dest_is_ipv4 (chunk_transmit t c) = dest_is_ipv4 t"
  by (simp_all add: chunk_transmit_def dest_is_ipv4_def)

lemma apple_targets:
  assumes "apple_fast P"
  shows "\<not> linux_like (pf_target P)" "pf_target P \<noteq> NetBSD" "pf_target P \<noteq> Redox"
    "apple (pf_target P)"
  using assms by (auto simp: apple_fast_def apple_def linux_like_def)

lemma apple_messages:
  assumes "apple_fast P"
  shows "datagram_messages P True einval t = ecn_messages P einval t @ source_messages P True t"
    and "datagram_messages P True einval (chunk_transmit t c) = datagram_messages P True einval t"
  by (auto simp: datagram_messages_def segment_messages_def ecn_messages_def source_messages_def
      apple_targets [OF assms] split: option.split)

text \<open>
  The code of \<^verbatim>\<open>prepare_msg_x\<close> repeats that of \<^verbatim>\<open>prepare_msg\<close> for the platforms it is compiled
  on: it pushes the same messages.
\<close>

lemma prepare_msg_x_push_all:
  assumes "apple_fast P"
  shows "prepare_msg_x P t ctrl True einval =
    try_then (push_all (msghdr_x_abi (pf_abi P)) (datagram_messages P True einval t)
               (encoder_new (msghdr_x_abi (pf_abi P)) (datagram_hdr t ctrl)))
      (\<lambda>e. Inr (encoder_finish (msghdr_x_abi (pf_abi P)) e))"
proof -
  let ?A = "msghdr_x_abi (pf_abi P)"
  have ecn: "push_all ?A (ecn_messages P einval t) e =
      (if dest_is_ipv4 t
       then (if \<not> einval then encoder_push ?A (pf_num P Ip_Tos) (ip_tos_bytes P (ecn_int (tx_ecn t))) e
             else Inr e)
       else encoder_push ?A (pf_num P Ipv6_TClass)
              (c_put (int_type (pf_le P)) (ecn_int (tx_ecn t))) e)" for e
    using apple_targets [OF assms] by (simp add: ecn_messages_def)
  have src: "push_all ?A (source_messages P True t) e =
      (case tx_src_ip t of
         None \<Rightarrow> Inr e
       | Some (IpV4 v4) \<Rightarrow>
           encoder_push ?A (pf_num P Ip_RecvDstAddr) (c_put (pf_in_addr P) (s_addr (pf_le P) v4)) e
       | Some (IpV6 v6) \<Rightarrow>
           encoder_push ?A (pf_num P Ipv6_PktInfo)
             (c_put (pf_in6_pktinfo P) \<lparr> ipi6_addr = octets6 v6, ipi6_ifindex = 0 \<rparr>) e)" for e
    using apple_targets [OF assms] by (simp add: source_messages_def split: option.split ip_addr.split)
  have "prepare_msg_x P t ctrl True einval =
      try_then (push_all ?A (ecn_messages P einval t) (encoder_new ?A (datagram_hdr t ctrl)))
        (\<lambda>e1. try_then (push_all ?A (source_messages P True t) e1)
          (\<lambda>e2. Inr (encoder_finish ?A e2)))"
    by (simp add: prepare_msg_x_def ecn src datagram_hdr_def Let_def
        cong: option.case_cong ip_addr.case_cong)
  then show ?thesis
    by (simp add: apple_messages(1) [OF assms] push_all_append try_then_def split: sum.split)
qed

lemma prepare_msg_x_exact:
  assumes P: "platform_ok P" and "apple_fast P" and t: "transmit_ok t"
  shows "\<exists>h. prepare_msg_x P t (replicate LEN 0) True einval = Inr h \<and>
    mh_name h = Some (tx_destination t) \<and> mh_iov h = tx_contents t \<and>
    control_messages (msghdr_x_abi (pf_abi P)) h = Some (datagram_messages P True einval t)"
proof -
  let ?A = "msghdr_x_abi (pf_abi P)" and ?h = "datagram_hdr t (replicate LEN 0)"
    and ?ms = "datagram_messages P True einval t"
  note I = msghdr_x_interface [OF platform_okD(1) [OF P]]
  note ok = message_bytes [OF P t, of True einval]
  have N: "LEN < 2 ^ 31" by (simp add: LEN_def)
  have "cmsg_interface.space ?A = cmsg_interface.space (pf_abi P)"
    by (simp add: fun_eq_iff cmsg_interface.space_def [OF I]
        cmsg_interface.space_def [OF platform_okD(1) [OF P]])
  then have sp: "cmsg_interface.space_of ?A ([] @ ?ms) \<le> LEN"
    using message_space(1) [OF P t, of True einval]
    by (simp add: cmsg_interface.space_of_def [OF I]
        cmsg_interface.space_of_def [OF platform_okD(1) [OF P]])
  have "cmsg_interface.encoded ?A LEN ?h (replicate LEN 0) [] (encoder_new ?A ?h)"
    by (rule cmsg_interface.encoded_new [OF I]) (simp_all add: datagram_hdr_def)
  from cmsg_interface.encoded_push_all_zero [OF I this ok N sp]
  obtain e where e: "push_all ?A ?ms (encoder_new ?A ?h) = Inr e"
    "cmsg_interface.encoded ?A LEN ?h (replicate LEN 0) ?ms e" by auto
  then show ?thesis
    using cmsg_interface.finished_messages(1) [OF I e(2) ok N]
      cmsg_interface.encoded_hdr(2,3) [OF I e(2) N]
    by (simp add: prepare_msg_x_push_all [OF assms(2)] datagram_hdr_def)
qed

section \<open>The batch\<close>

definition batch_header :: "unix_platform \<Rightarrow> transmit \<Rightarrow> bool \<Rightarrow> bytes \<Rightarrow> msg_hdr \<Rightarrow> bool" where
  "batch_header P t einval c h \<longleftrightarrow>
     mh_iov h = c \<and> mh_name h = Some (tx_destination t) \<and>
     control_messages (msghdr_x_abi (pf_abi P)) h = Some (datagram_messages P True einval t)"

lemma prepare_chunks_exact:
  assumes "platform_ok P" and "apple_fast P" and "transmit_ok t"
  shows "\<exists>hs. prepare_chunks P t einval cs = Inr hs \<and> list_all2 (batch_header P t einval) cs hs"
proof (induction cs)
  case (Cons c cs)
  have "transmit_ok (chunk_transmit t c)" using assms(3) by (simp add: transmit_ok_def)
  from prepare_msg_x_exact [OF assms(1,2) this, of einval] Cons
  show ?case
    by (auto simp: batch_header_def apple_messages(2) [OF assms(2)])
qed simp

lemma batch_payloads:
  "list_all2 (batch_header P t einval) cs hs \<Longrightarrow> map mh_iov hs = cs"
  by (induction rule: list_all2_induct) (simp_all add: batch_header_def)

lemma batch_headers:
  assumes "list_all2 (batch_header P t einval) cs hs"
    and "\<And>c. c \<in> set cs \<Longrightarrow> 0 < length c \<and> length c \<le> n"
  shows "list_all (\<lambda>h. 0 < length (mh_iov h) \<and> length (mh_iov h) \<le> n \<and>
    mh_name h = Some (tx_destination t) \<and>
    control_messages (msghdr_x_abi (pf_abi P)) h = Some (datagram_messages P True einval t)) hs"
  using assms by (induction rule: list_all2_induct) (auto simp: batch_header_def)

lemma apple_batch_size: "apple_fast P \<Longrightarrow> BATCH_SIZE P = 32"
  by (simp add: BATCH_SIZE_def apple_slow_def apple_fast_def)

lemma div_ceil_le:
  "0 < n \<Longrightarrow> (l + n - 1) div n \<le> k \<longleftrightarrow> l \<le> k * (n :: nat)"
proof -
  assume n: "0 < n"
  have "(l + n - 1) div n \<le> k \<longleftrightarrow> (l + n - 1) div n < Suc k" by (simp only: less_Suc_eq_le)
  also have "\<dots> \<longleftrightarrow> l + n - 1 < Suc k * n" using n by (simp only: div_less_iff_less_mult)
  also have "\<dots> \<longleftrightarrow> l \<le> k * n" using n by auto
  finally show ?thesis .
qed


text \<open>
  An empty datagram without a segment size has chunks of size zero: the fast path panics
  before any system call, in every build. The same datagram is sent by the single-message
  function.
\<close>

theorem apple_empty_datagram_panics:
  assumes "us_apple_fast_path st" and "tx_contents t = []" and "tx_segment_size t = None"
  shows "\<exists>c. apple_socket_send P fn_ptr snd_msg now t w st = Some (w, st, Inl (Crash c))"
  using assms
  by (simp add: apple_socket_send_def apple_try_send_def send_via_sendmsg_x_def sendmsg_x_batch_def
      chunk_size_def send_outcome_def)

text \<open>
  Where \<^verbatim>\<open>sendmsg_x\<close> turns out to be missing, the transmit that finds out is not cut up any
  more: all its segments leave in one header, and only then the state stops offering batches.
\<close>

theorem apple_missing_symbol_glues:
  assumes "platform_ok P" and "apple_fast P" and "transmit_ok t" and "us_apple_fast_path st"
    and "0 < chunk_size t" and "length (tx_contents t) \<le> 32 * chunk_size t"
    and "\<And>w h. \<exists>w' n. snd_msg w h = (w', Inr n)"
  shows "\<exists>h w' n. snd_msg w h = (w', Inr n) \<and> mh_iov h = tx_contents t \<and>
    control_messages (pf_abi P) h = Some (datagram_messages P True (us_sendmsg_einval st) t) \<and>
    apple_socket_send P None snd_msg now t w st = Some (w', disable_apple_fast_path st, Inr ())"
proof -
  let ?cs = "take 32 (chunks (chunk_size t) (tx_contents t))" and ?ei = "us_sendmsg_einval st"
  obtain hs where hs: "prepare_chunks P t ?ei ?cs = Inr hs"
    using prepare_chunks_exact [OF assms(1-3)] by blast
  have "(length (tx_contents t) + chunk_size t - 1) div chunk_size t \<le> 32"
    using div_ceil_le [OF assms(5)] assms(6) by simp
  then have batch: "sendmsg_x_batch P t ?ei = Inr hs"
    using hs assms(5) by (auto simp: sendmsg_x_batch_def apple_batch_size [OF assms(2)] Let_def)
  obtain h ctrl where h: "prepare_msg P t (replicate LEN 0) True ?ei = Inr (h, ctrl)"
    "mh_iov h = tx_contents t"
    "control_messages (pf_abi P) h = Some (datagram_messages P True ?ei t)"
    using prepare_msg_zero [OF assms(1,3)] by blast
  obtain w' n where s: "snd_msg w h = (w', Inr n)" using assms(7) by blast
  then have "retry_if_interrupted (\<lambda>w. snd_msg w h) w = Some (w', Inr n)"
    by (subst retry_step) (simp add: interrupted_def)
  then have "apple_try_send P None snd_msg t w st = Some (w', disable_apple_fast_path st, Inr ())"
    using h(1) assms(4) apple_targets(4) [OF assms(2)] batch
    by (simp add: apple_try_send_def send_via_sendmsg_x_def send_single_def
        resolve_apple_fast_fn_def disable_apple_fast_path_def)
  with h s show ?thesis
    by (intro exI [of _ h] exI [of _ w'] exI [of _ n])
       (simp add: apple_socket_send_def send_outcome_def)
qed

section \<open>Concrete instances\<close>

text \<open>
  The laws of \<open>platform_ok\<close> do not depend on the target: an Apple platform with the layouts of
  \<open>linux_x86_64\<close>.
\<close>

definition apple_platform :: unix_platform where
  "apple_platform = linux_x86_64 \<lparr> pf_target := MacOS, pf_fast_datapath := True \<rparr>"

definition apple_state :: unix_state where
  "apple_state = set_apple_fast_path apple_platform example_state"

lemma apple_platform_facts:
  "platform_ok apple_platform" "apple_fast apple_platform" "us_apple_fast_path apple_state"
  using linux_x86_64_ok
  by (simp_all add: apple_platform_def platform_ok_def apple_fast_def apple_def apple_state_def
      set_apple_fast_path_def)

lemma example_chunks:
  "chunk_size example_transmit = 2" "length (tx_contents example_transmit) = 5"
  by (simp_all add: chunk_size_def example_transmit_def)


theorem apple_empty_datagram_panics_witness:
  "\<exists>c. apple_socket_send apple_platform (Some (\<lambda>w hs. (w, Inr (length hs)))) busy_system 0
      (example_transmit \<lparr> tx_contents := [], tx_segment_size := None \<rparr>) 0 apple_state =
    Some (0, apple_state, Inl (Crash c))"
  by (rule apple_empty_datagram_panics [OF apple_platform_facts(3)]) simp_all

theorem apple_missing_symbol_glues_witness:
  "\<exists>w'. apple_socket_send apple_platform None (\<lambda>sent h. (sent @ [mh_iov h], Inr 0)) 0
      example_transmit [] apple_state = Some (w', disable_apple_fast_path apple_state, Inr ())"
  using apple_missing_symbol_glues [OF apple_platform_facts(1,2) example_facts(1)
      apple_platform_facts(3), of "\<lambda>sent h. (sent @ [mh_iov h], Inr 0)" "[]" 0]
  by (auto simp: example_chunks)

end
