(* ===== verification/UdpWindowsProps.thy ===== *)
theory UdpWindowsProps
  imports UdpSendProps
begin

text \<open>
  The Windows socket of \<^verbatim>\<open>patches/noq-udp\<close>: the control messages of a prepared datagram, the
  rule that nothing is asked of Wine's packet information, and what the senders of the three
  ports have in common.
\<close>

section \<open>Prepared datagrams\<close>

definition wi6_ok :: "win_in6_pktinfo \<Rightarrow> bool" where
  "wi6_ok p \<longleftrightarrow> length (wi6_addr p) = 16"

definition win_platform_ok :: "win_platform \<Rightarrow> bool" where
  "win_platform_ok W \<longleftrightarrow>
     win_types_ok (wp_types W) \<and> inj (wp_num W) \<and>
     ctype_ok (wp_in_pktinfo W) \<and> ctype_ok_on wi6_ok (wp_in6_pktinfo W) \<and>
     c_size (wp_in_pktinfo W) \<le> c_size (wp_in6_pktinfo W) \<and> c_size (wp_in6_pktinfo W) \<le> 64"

lemma win_platform_okD:
  assumes "win_platform_ok W"
  shows "win_types_ok (wp_types W)" "ctype_ok (wp_in_pktinfo W)"
    "ctype_ok_on wi6_ok (wp_in6_pktinfo W)" "c_size (wp_in_pktinfo W) \<le> c_size (wp_in6_pktinfo W)"
    "c_size (wp_in6_pktinfo W) \<le> 64" "c_size (wp_in_pktinfo W) \<le> 64"
  using assms by (simp_all add: win_platform_ok_def)

text \<open>The reference list of control messages.\<close>

definition win_source_messages :: "win_platform \<Rightarrow> win_state \<Rightarrow> transmit \<Rightarrow> cmsg list" where
  "win_source_messages W st t =
     (case tx_src_ip t of
        None \<Rightarrow> []
      | Some (IpV4 v4) \<Rightarrow>
          if ws_pktinfo_v4_enabled st
          then [(wp_num W Win_IpPktInfo,
                 c_put (wp_in_pktinfo W) \<lparr> wi_addr = s_addr (wp_le W) v4, wi_ifindex = 0 \<rparr>)] else []
      | Some (IpV6 v6) \<Rightarrow>
          if ws_pktinfo_v6_enabled st
          then [(wp_num W Win_Ipv6PktInfo,
                 c_put (wp_in6_pktinfo W) \<lparr> wi6_addr = octets6 v6, wi6_ifindex = 0 \<rparr>)] else [])"

definition win_ecn_messages :: "win_platform \<Rightarrow> win_state \<Rightarrow> transmit \<Rightarrow> cmsg list" where
  "win_ecn_messages W st t =
     (let ecn = c_put (int_type (wp_le W)) (ecn_int (tx_ecn t)) in
      if dest_is_ipv4 t then (if ws_ecn_v4_enabled st then [(wp_num W Win_IpEcn, ecn)] else [])
      else (if ws_ecn_v6_enabled st then [(wp_num W Win_Ipv6Ecn, ecn)] else []))"

definition win_segment_messages :: "win_platform \<Rightarrow> transmit \<Rightarrow> cmsg list" where
  "win_segment_messages W t =
     (case effective_segment_size t of
        None \<Rightarrow> []
      | Some n \<Rightarrow> [(wp_num W Win_UdpSendMsgSize, c_put (int_type (wp_le W)) (of_nat n))])"

definition win_messages :: "win_platform \<Rightarrow> win_state \<Rightarrow> transmit \<Rightarrow> cmsg list" where
  "win_messages W st t =
     win_source_messages W st t @ win_ecn_messages W st t @ win_segment_messages W t"

definition win_hdr :: "transmit \<Rightarrow> msg_hdr" where
  "win_hdr t =
     \<lparr> mh_name = Some (tx_destination t), mh_iov = tx_contents t,
       mh_control = Some (replicate CMSG_LEN 0), mh_controllen = CMSG_LEN \<rparr>"

lemma win_prepare_push_all:
  "win_prepare W st t =
     try_then (push_all (win_abi (wp_types W)) (win_messages W st t)
                (encoder_new (win_abi (wp_types W)) (win_hdr t)))
       (\<lambda>e. Inr (encoder_finish (win_abi (wp_types W)) e))"
proof -
  let ?A = "win_abi (wp_types W)"
  have "win_push_src_ip W st (tx_src_ip t) e = push_all ?A (win_source_messages W st t) e"
    "win_push_ecn W st t e = push_all ?A (win_ecn_messages W st t) e"
    "win_push_segment_size W t e = push_all ?A (win_segment_messages W t) e" for e
    by (simp_all add: win_push_src_ip_def win_source_messages_def win_push_ecn_def
        win_ecn_messages_def win_push_segment_size_def win_segment_messages_def Let_def
        split: option.split ip_addr.split)
  then show ?thesis
    by (simp add: win_prepare_def win_messages_def push_all_append win_hdr_def Let_def
        try_then_def split: sum.split)
qed

lemma win_messages_ok:
  assumes "win_platform_ok W" and "transmit_ok t"
  shows "\<forall>m \<in> set (win_messages W st t). payload_ok m"
proof -
  have "\<forall>m \<in> set (win_ecn_messages W st t @ win_segment_messages W t). payload_ok m"
    by (cases "effective_segment_size t")
       (simp_all add: win_ecn_messages_def win_segment_messages_def Let_def
         payload_ok_ctype [of "\<lambda>_. True"])
  moreover have "\<forall>m \<in> set (win_source_messages W st t). payload_ok m"
  proof (cases "tx_src_ip t")
    case (Some ip)
    with assms(2) win_platform_okD(2-6) [OF assms(1)] show ?thesis
      by (cases ip) (simp_all add: win_source_messages_def payload_ok_ctype transmit_ok_def ip_ok_def
          wi6_ok_def)
  qed (simp add: win_source_messages_def)
  ultimately show ?thesis by (simp add: win_messages_def ball_Un)
qed

lemma round_up_nat_mono: "m \<le> n \<Longrightarrow> round_up_nat a m \<le> round_up_nat a n"
  unfolding round_up_nat_def by (intro mult_le_mono1 div_le_mono) simp

lemma win_messages_space:
  assumes W: "win_platform_ok W" and "transmit_ok t"
    and room: "win_cmsg_space (wp_types W) (c_size (wp_in6_pktinfo W)) +
      win_cmsg_space (wp_types W) 4 + win_cmsg_space (wp_types W) 4 \<le> CMSG_LEN"
  shows "cmsg_interface.space_of (win_abi (wp_types W)) (win_messages W st t) \<le> CMSG_LEN"
proof -
  let ?A = "win_abi (wp_types W)" and ?sp = "win_cmsg_space (wp_types W)"
  note T = win_platform_okD(1) [OF W] and le = win_platform_okD(4) [OF W]
    and small = win_platform_okD(5) [OF W]
  note I = win_interface [OF T]
  note space = cmsg_interface.space_def [OF I] cmsg_interface.space_of_simps [OF I]
  have mono: "?sp (c_size (wp_in_pktinfo W)) \<le> ?sp (c_size (wp_in6_pktinfo W))"
    using le small by (simp add: win_cmsg_space_nat [OF T] round_up_nat_mono)
  have "cmsg_interface.space_of ?A (win_source_messages W st t) \<le> ?sp (c_size (wp_in6_pktinfo W))"
  proof (cases "tx_src_ip t")
    case (Some ip)
    have "length (c_put (wp_in_pktinfo W) p) = c_size (wp_in_pktinfo W)" for p
      by (rule ctype_okD(2) [OF win_platform_okD(2) [OF W]]) simp
    moreover have "length (c_put (wp_in6_pktinfo W) p) = c_size (wp_in6_pktinfo W)" if "wi6_ok p" for p
      using that by (rule ctype_okD(2) [OF win_platform_okD(3) [OF W]])
    ultimately show ?thesis
      using Some mono assms(2)
      by (cases ip) (simp_all add: win_source_messages_def space transmit_ok_def ip_ok_def wi6_ok_def)
  qed (simp add: win_source_messages_def space)
  moreover have "cmsg_interface.space_of ?A (win_ecn_messages W st t) \<le> ?sp 4"
    by (simp add: win_ecn_messages_def space Let_def)
  moreover have "cmsg_interface.space_of ?A (win_segment_messages W t) \<le> ?sp 4"
    by (simp add: win_segment_messages_def space split: option.split)
  ultimately show ?thesis
    using room by (simp add: win_messages_def space)
qed


section \<open>Wine\<close>

lemma win_new_wine:
  assumes "win_new W env now tr = (tr', Inr st)" and "is_wine env"
  shows "\<not> ws_pktinfo_v4_enabled st" "\<not> ws_pktinfo_v6_enabled st"
proof -
  have "win_open env now tr = (tr', Inr st)"
    using assms(1) by (auto simp: win_new_def Let_def split: if_splits prod.splits sum.splits)
  then have "\<not> ws_pktinfo_v4_enabled st \<and> \<not> ws_pktinfo_v6_enabled st"
    using assms(2) by (auto simp: win_open_def sockop_bind_Inr Let_def win_initial_state_def split: if_splits)
  then show "\<not> ws_pktinfo_v4_enabled st" "\<not> ws_pktinfo_v6_enabled st" by simp_all
qed

lemma win_decode_no_pktinfo:
  assumes "\<not> ws_pktinfo_v4_enabled st" and "\<not> ws_pktinfo_v6_enabled st"
  shows "win_control_decode_all W st h ats m = Inr m' \<Longrightarrow>
    wm_dst_ip m' = wm_dst_ip m \<and> wm_interface_index m' = wm_interface_index m"
proof (induction ats arbitrary: m)
  case (Cons at ats)
  then obtain m1 where m1: "win_control_decode W st h m at = Inr m1"
    "win_control_decode_all W st h ats m1 = Inr m'"
    by (auto simp: try_then_Inr_iff)
  have "wm_dst_ip m1 = wm_dst_ip m \<and> wm_interface_index m1 = wm_interface_index m"
    using m1(1) assms by (auto simp: win_control_decode_def Let_def try_then_Inr_iff split: if_splits)
  with Cons.IH [OF m1(2)] show ?case by simp
qed simp

text \<open>
  Under Wine packet information is neither sent nor believed: no datagram names its source
  address or interface, and a received one never reports a destination address, even where a
  version of Wine delivers the messages unasked.
\<close>

theorem wine_without_packet_info:
  assumes "win_new W env now tr = (tr', Inr st)" and "is_wine env"
  shows "win_source_messages W st t = [] \<and>
    (\<forall>rx m. win_decode W st rx = Some (Inr m) \<longrightarrow>
       rm_dst_ip m = None \<and> rm_interface_index m = None)"
proof -
  note off = win_new_wine [OF assms]
  have "win_source_messages W st t = []"
    using off by (simp add: win_source_messages_def split: option.split ip_addr.split)
  moreover have "rm_dst_ip m = None \<and> rm_interface_index m = None"
    if "win_decode W st rx = Some (Inr m)" for rx m
    using that by (auto simp: win_decode_def try_then_Inr_iff dest!: win_decode_no_pktinfo [OF off]
        split: option.splits)
  ultimately show ?thesis by blast
qed

section \<open>One behaviour on three ports\<close>

text \<open>The reference: what a caller sees of a raw result, and what is logged.\<close>

definition visible_result :: "unit io \<Rightarrow> unit io" where
  "visible_result r =
     (case r of
        Inl (IoErr e) \<Rightarrow> if error_kind e = WouldBlock then r else Inr ()
      | Inl (Crash c) \<Rightarrow> r
      | Inr _ \<Rightarrow> Inr ())"

definition result_log :: "bool \<Rightarrow> nat \<Rightarrow> transmit \<Rightarrow> unit io \<Rightarrow> error_log \<Rightarrow> error_log" where
  "result_log on now t r l =
     (case r of
        Inl (IoErr e) \<Rightarrow>
          if error_kind e = WouldBlock then l else log_sendmsg_error on now e t l
      | _ \<Rightarrow> l)"

text \<open>
  The three ports treat the result of a raw send alike: the caller sees a full buffer and
  nothing else, any other error goes to the throttled log. The one difference is that the
  Unix port keeps a datagram that is too large out of the log.
\<close>

theorem ports_agree:
  "send_outcome P now t us r =
     (if r = Inl (IoErr (Os EMSGSIZE)) then us
      else us \<lparr> us_log := result_log (pf_log P) now t r (us_log us) \<rparr>, visible_result r) \<and>
   win_send_outcome W now t ws r =
     (ws \<lparr> ws_log := result_log (wp_log W) now t r (ws_log ws) \<rparr>, visible_result r) \<and>
   posix_send_outcome lg now t ps r =
     (ps \<lparr> ps_log := result_log lg now t r (ps_log ps) \<rparr>, visible_result r)"
proof (cases r)
  case (Inl f)
  then show ?thesis
    by (cases f) (auto simp: send_outcome_def win_send_outcome_def posix_send_outcome_def
        result_log_def visible_result_def)
qed (simp add: send_outcome_def win_send_outcome_def posix_send_outcome_def result_log_def
      visible_result_def)

section \<open>Concrete instances\<close>

fun win_numbers :: "win_cmsg \<Rightarrow> i32 \<times> i32" where
  "win_numbers Win_IpPktInfo = (0, 19)"
| "win_numbers Win_Ipv6PktInfo = (41, 19)"
| "win_numbers Win_IpEcn = (0, 50)"
| "win_numbers Win_Ipv6Ecn = (41, 50)"
| "win_numbers Win_UdpSendMsgSize = (17, 2)"
| "win_numbers Win_UdpCoalescedInfo = (17, 3)"

definition win64_platform :: win_platform where
  "win64_platform =
     (let int = int_type True in
      \<lparr> wp_types = win64_types, wp_debug = True, wp_log = True, wp_le = True,
        wp_num = win_numbers,
        wp_in_pktinfo =
          \<lparr> c_size = 8, c_put = \<lambda>p. c_put int (wi_addr p) @ c_put int (wi_ifindex p),
            c_get = \<lambda>b. \<lparr> wi_addr = c_get int (take 4 b), wi_ifindex = c_get int (take 4 (drop 4 b)) \<rparr> \<rparr>,
        wp_in6_pktinfo =
          \<lparr> c_size = 20, c_put = \<lambda>p. wi6_addr p @ c_put int (wi6_ifindex p),
            c_get = \<lambda>b. \<lparr> wi6_addr = take 16 b, wi6_ifindex = c_get int (take 4 (drop 16 b)) \<rparr> \<rparr> \<rparr>)"

definition example_windows :: "bool \<Rightarrow> win_env" where
  "example_windows wine =
     \<lparr> we_sock = example_env, we_recvmsg_probe = Inr (8, True),
       we_ntdll = True, we_wine_version = wine, we_gso_bind = (True, True), we_gso_option = None \<rparr>"

lemma win_numbers_inj: "inj win_numbers"
proof (rule injI)
  show "win_numbers a = win_numbers b \<Longrightarrow> a = b" for a b
    by (cases a; cases b) simp_all
qed

lemma win64_platform_ok: "win_platform_ok win64_platform"
  using win64_types_ok win_numbers_inj
  by (simp add: win_platform_ok_def win64_platform_def Let_def ctype_ok_on_def wi6_ok_def)

lemma example_windows_opens:
  "win_new win64_platform (example_windows wine) 0 [] =
     ([(SIO_UDP_CONNRESET, OptInt 0), (SIO_UDP_NETRESET, OptInt 0),
       (IP_DONTFRAGMENT, OPTION_ON), (IP_PKTINFO, OPTION_ON), (IP_RECVECN, OPTION_ON)],
      Inr \<lparr> ws_log = error_log_new 0, ws_max_gso_segments = 512, ws_may_fragment = False,
            ws_ecn_v4_enabled = True, ws_ecn_v6_enabled = True,
            ws_pktinfo_v4_enabled = (\<not> wine), ws_pktinfo_v6_enabled = (\<not> wine) \<rparr>)"
proof -
  have "win_cmsg_space win64_types 20 = 40" "win_cmsg_space win64_types 4 = 24"
    by (simp_all add: win_cmsg_space_nat [OF win64_types_ok] round_up_nat_def)
  moreover have "unat (w_hdr_align win64_types) = 8" by (simp add: win64_types_def)
  moreover have "\<not> 8 < unat (8 :: 64 word)" by simp
  ultimately show ?thesis
    by (simp add: win_new_def win64_platform_def Let_def CMSG_LEN_def win_open_def
        example_windows_def example_env_def sockop_bind_def sockop_catch_def win_ipv4_options_def
        win_option_def opt_result_def has_wsarecvmsg_def pointer_size_def is_wine_def
        win_max_gso_def disable_udp_ioctl_def win_initial_state_def)
qed


theorem wine_without_packet_info_witness:
  "\<exists>st. win_new win64_platform (example_windows True) 0 [] =
      ([(SIO_UDP_CONNRESET, OptInt 0), (SIO_UDP_NETRESET, OptInt 0),
        (IP_DONTFRAGMENT, OPTION_ON), (IP_PKTINFO, OPTION_ON), (IP_RECVECN, OPTION_ON)], Inr st) \<and>
    win_source_messages win64_platform st example_transmit = []"
proof -
  have "is_wine (example_windows True)" by (simp add: is_wine_def example_windows_def)
  with wine_without_packet_info [OF example_windows_opens [of True]] example_windows_opens [of True]
  show ?thesis by blast
qed

end
