(* ===== verification/UdpRecvProps.thy ===== *)
theory UdpRecvProps
  imports UdpUnixProps
begin

text \<open>
  Receiving a datagram with \<^verbatim>\<open>patches/noq-udp\<close> on the Unix targets: which of the calls the
  loop of \<^verbatim>\<open>recv_single\<close> returns and when it never returns, and that the metadata of a
  datagram is what its control messages say.
\<close>

section \<open>The loop over truncated datagrams\<close>

text \<open>A call whose outcome the loop throws away, and the calls made in a row.\<close>

definition recv_again :: "'w \<times> recv_hdr \<times> (io_error + nat) \<Rightarrow> bool" where
  "recv_again x \<longleftrightarrow> rh_truncated (fst (snd x)) \<or> interrupted (snd (snd x))"

fun nth_recv :: "'w recvmsg \<Rightarrow> 'w \<Rightarrow> recv_hdr \<Rightarrow> nat \<Rightarrow> 'w \<times> recv_hdr \<times> (io_error + nat)" where
  "nth_recv rcv w h 0 = rcv w h"
| "nth_recv rcv w h (Suc n) = nth_recv rcv (fst (rcv w h)) (fst (snd (rcv w h))) n"

lemma recv_loop_step:
  "recv_single_loop rcv w h =
     (if recv_again (rcv w h) then recv_single_loop rcv (fst (rcv w h)) (fst (snd (rcv w h)))
      else Some (rcv w h))"
  by (subst recv_single_loop.simps)
     (auto simp: recv_again_def interrupted_def split: prod.split sum.split)

lemma recv_loop_found:
  "\<not> recv_again (nth_recv rcv w h n) \<Longrightarrow> (\<And>k. k < n \<Longrightarrow> recv_again (nth_recv rcv w h k)) \<Longrightarrow>
   recv_single_loop rcv w h = Some (nth_recv rcv w h n)"
proof (induction n arbitrary: w h)
  case 0
  then show ?case by (subst recv_loop_step) simp
next
  case (Suc n)
  let ?w = "fst (rcv w h)" and ?h = "fst (snd (rcv w h))"
  have "recv_again (rcv w h)" using Suc.prems(2) [of 0] by simp
  moreover have "recv_again (nth_recv rcv ?w ?h k)" if "k < n" for k
    using Suc.prems(2) [of "Suc k"] that by simp
  ultimately show ?case
    using Suc.IH [of ?w ?h] Suc.prems(1) by (subst recv_loop_step) simp
qed

lemma recv_loop_returned:
  fixes rcv :: "'w recvmsg"
  assumes "recv_single_loop rcv w h = Some y"
  shows "\<exists>n. \<not> recv_again (nth_recv rcv w h n)"
proof (rule recv_single_loop.raw_induct [OF _ assms])
  fix rec :: "'w recvmsg \<Rightarrow> 'w \<Rightarrow> recv_hdr \<Rightarrow> ('w \<times> recv_hdr \<times> (io_error + nat)) option"
    and rcv :: "'w recvmsg" and w h y
  assume IH: "\<And>rcv w h y. rec rcv w h = Some y \<Longrightarrow> \<exists>n. \<not> recv_again (nth_recv rcv w h n)"
    and y: "(case rcv w h of (w', h', r) \<Rightarrow>
        if rh_truncated h' then rec rcv w' h'
        else case r of
            Inl e \<Rightarrow> if error_kind e = Interrupted then rec rcv w' h' else Some (w', h', Inl e)
          | Inr n \<Rightarrow> Some (w', h', Inr n)) = Some y"
  show "\<exists>n. \<not> recv_again (nth_recv rcv w h n)"
  proof (cases "recv_again (rcv w h)")
    case True
    with y have "rec rcv (fst (rcv w h)) (fst (snd (rcv w h))) = Some y"
      by (auto simp: recv_again_def interrupted_def split: prod.splits sum.splits if_splits)
    from IH [OF this] obtain n where
      "\<not> recv_again (nth_recv rcv (fst (rcv w h)) (fst (snd (rcv w h))) n)" ..
    then have "\<not> recv_again (nth_recv rcv w h (Suc n))" by simp
    then show ?thesis ..
  next
    case False
    then have "\<not> recv_again (nth_recv rcv w h 0)" by simp
    then show ?thesis ..
  qed
qed

lemma recv_loop_first:
  "recv_single_loop rcv w h =
     (if \<exists>n. \<not> recv_again (nth_recv rcv w h n)
      then Some (nth_recv rcv w h (LEAST n. \<not> recv_again (nth_recv rcv w h n)))
      else None)"
proof (cases "\<exists>n. \<not> recv_again (nth_recv rcv w h n)")
  case True
  let ?n = "LEAST n. \<not> recv_again (nth_recv rcv w h n)"
  have "\<not> recv_again (nth_recv rcv w h ?n)" using True by (rule LeastI_ex)
  moreover have "recv_again (nth_recv rcv w h k)" if "k < ?n" for k
    using not_less_Least [OF that] by simp
  ultimately show ?thesis using True recv_loop_found [of rcv w h ?n] by simp
next
  case False
  then show ?thesis
    using recv_loop_returned [of rcv w h] by (cases "recv_single_loop rcv w h") auto
qed

text \<open>A call that fails does not write to the header it was given.\<close>

definition call_fails :: "'w \<times> recv_hdr \<times> (io_error + nat) \<Rightarrow> bool" where
  "call_fails x \<longleftrightarrow> (case snd (snd x) of Inl e \<Rightarrow> True | Inr n \<Rightarrow> False)"

definition keeps_header_on_error :: "'w recvmsg \<Rightarrow> bool" where
  "keeps_header_on_error rcv \<longleftrightarrow>
     (\<forall>w h. call_fails (rcv w h) \<longrightarrow> fst (snd (rcv w h)) = h)"

lemma stale_truncation:
  assumes "keeps_header_on_error rcv" and "rh_truncated h"
    and "\<And>k. k \<le> n \<Longrightarrow> call_fails (nth_recv rcv w h k)"
  shows "recv_again (nth_recv rcv w h n)"
  using assms(2,3)
proof (induction n arbitrary: w h)
  case 0
  then have "fst (snd (rcv w h)) = h"
    using assms(1) by (simp add: keeps_header_on_error_def)
  with 0 show ?case by (simp add: recv_again_def)
next
  case (Suc n)
  have "fst (snd (rcv w h)) = h"
    using assms(1) Suc.prems(2) [of 0] by (simp add: keeps_header_on_error_def)
  moreover have "call_fails (nth_recv rcv (fst (rcv w h)) h k)" if "k \<le> n" for k
    using Suc.prems(2) [of "Suc k"] that calculation by simp
  ultimately show ?case
    using Suc.IH [of h "fst (rcv w h)"] Suc.prems(1) by simp
qed

text \<open>
  C38. The loop looks at the truncation flag before the result of the call, and the flag is only
  written by a call that succeeds. So once a truncated datagram was taken from the queue and
  nothing follows it, the failing calls after it find the old flag and the function does not
  return: a non-blocking socket spins instead of reporting \<^verbatim>\<open>WouldBlock\<close>.
\<close>

theorem recv_single_spins:
  assumes "keeps_header_on_error rcv"
    and "rcv w (prepare_recv junk cap) = (w1, h1, Inr n)" and "rh_truncated h1"
    and "\<forall>k. call_fails (nth_recv rcv w1 h1 k)"
  shows "recv_single P rcv junk (cap # caps) metas w = None"
proof -
  have "recv_again (nth_recv rcv w1 h1 k)" for k
    using stale_truncation [OF assms(1,3)] assms(4) by blast
  then have "recv_single_loop rcv w1 h1 = None"
    by (simp add: recv_loop_first)
  then have "recv_single_loop rcv w (prepare_recv junk cap) = None"
    using assms(2,3) by (subst recv_loop_step) (simp add: recv_again_def)
  then show ?thesis by (simp add: recv_single_def)
qed

text \<open>A queue of datagrams; only whether each fits the buffer matters.\<close>

fun recv_queue :: "bool list recvmsg" where
  "recv_queue [] h = ([], h, Inl (Os EAGAIN))"
| "recv_queue (tr # q) h = (q, h \<lparr> rh_truncated := tr \<rparr>, Inr 1)"

theorem recv_single_spins_witness:
  "recv_single linux_x86_64 recv_queue (replicate LEN 0) [1] [recv_meta_default] [True] = None"
proof (rule recv_single_spins)
  show "keeps_header_on_error recv_queue"
    unfolding keeps_header_on_error_def call_fails_def
  proof (intro allI)
    fix w h
    show "(case snd (snd (recv_queue w h)) of Inl e \<Rightarrow> True | Inr n \<Rightarrow> False) \<longrightarrow>
        fst (snd (recv_queue w h)) = h" by (cases w) simp_all
  qed
  have "nth_recv recv_queue [] h k = ([], h, Inl (Os EAGAIN))" for h k
    by (induction k) simp_all
  then show "\<forall>k. call_fails (nth_recv recv_queue []
      (prepare_recv (replicate LEN 0) 1 \<lparr> rh_truncated := True \<rparr>) k)"
    by (simp add: call_fails_def)
qed simp_all

section \<open>Metadata of a received datagram\<close>

text \<open>
  The reference: what may be attached to a datagram, as data. \<open>Rx_Other\<close> is a message under a
  level and type the crate does not know.
\<close>

datatype rx_item =
    Rx_Tos u8 | Rx_RecvTos u8 | Rx_TClass i32 | Rx_PktInfo in_pktinfo | Rx_DstAddr u32
  | Rx_PktInfo6 in6_pktinfo | Rx_Gro i32 | Rx_Timestamp timespec
  | Rx_Other "i32 \<times> i32" bytes

text \<open>The message of an item, and the items a target delivers.\<close>

fun rx_message :: "unix_platform \<Rightarrow> rx_item \<Rightarrow> cmsg" where
  "rx_message P (Rx_Tos b) = (pf_num P Ip_Tos, c_put uchar_type b)"
| "rx_message P (Rx_RecvTos b) = (pf_num P Ip_RecvTos, c_put uchar_type b)"
| "rx_message P (Rx_TClass i) = (pf_num P Ipv6_TClass, c_put (int_type (pf_le P)) i)"
| "rx_message P (Rx_PktInfo p) = (pf_num P Ip_PktInfo, c_put (pf_in_pktinfo P) p)"
| "rx_message P (Rx_DstAddr a) = (pf_num P Ip_RecvDstAddr, c_put (pf_in_addr P) a)"
| "rx_message P (Rx_PktInfo6 p) = (pf_num P Ipv6_PktInfo, c_put (pf_in6_pktinfo P) p)"
| "rx_message P (Rx_Gro i) = (pf_num P Udp_Gro, c_put (int_type (pf_le P)) i)"
| "rx_message P (Rx_Timestamp ts) = (pf_num P Scm_TimestampNs, c_put (pf_timespec P) ts)"
| "rx_message P (Rx_Other lt v) = (lt, v)"

fun rx_item_ok :: "unix_platform \<Rightarrow> rx_item \<Rightarrow> bool" where
  "rx_item_ok P (Rx_RecvTos b) \<longleftrightarrow>
     pf_target P \<notin> {OpenBSD, NetBSD, DragonFly} \<and> \<not> solarish (pf_target P)"
| "rx_item_ok P (Rx_TClass i) \<longleftrightarrow> pf_target P \<noteq> Redox"
| "rx_item_ok P (Rx_PktInfo p) \<longleftrightarrow> linux_like (pf_target P)"
| "rx_item_ok P (Rx_DstAddr a) \<longleftrightarrow> bsd (pf_target P) \<or> apple (pf_target P)"
| "rx_item_ok P (Rx_PktInfo6 p) \<longleftrightarrow> pf_target P \<noteq> Redox \<and> in6_pktinfo_ok p"
| "rx_item_ok P (Rx_Gro i) \<longleftrightarrow> linux_like (pf_target P)"
| "rx_item_ok P (Rx_Timestamp ts) \<longleftrightarrow> linux_like (pf_target P)"
| "rx_item_ok P (Rx_Other lt v) \<longleftrightarrow> lt \<notin> range (pf_num P) \<and> v \<noteq> [] \<and> length v < 2 ^ 30"
| "rx_item_ok P (Rx_Tos b) \<longleftrightarrow> True"

text \<open>What an item says about the datagram.\<close>

fun rx_meaning :: "bool \<Rightarrow> rx_item \<Rightarrow> control_metadata \<Rightarrow> control_metadata" where
  "rx_meaning le (Rx_Tos b) cd = cd \<lparr> cd_ecn_bits := b \<rparr>"
| "rx_meaning le (Rx_RecvTos b) cd = cd \<lparr> cd_ecn_bits := b \<rparr>"
| "rx_meaning le (Rx_TClass i) cd = cd \<lparr> cd_ecn_bits := ucast i \<rparr>"
| "rx_meaning le (Rx_PktInfo p) cd =
     cd \<lparr> cd_dst_ip := Some (IpV4 (ipv4_from_s_addr le (ipi_addr p))),
          cd_interface_index := Some (ipi_ifindex p) \<rparr>"
| "rx_meaning le (Rx_DstAddr a) cd = cd \<lparr> cd_dst_ip := Some (IpV4 (ipv4_from_s_addr le a)) \<rparr>"
| "rx_meaning le (Rx_PktInfo6 p) cd =
     cd \<lparr> cd_dst_ip := Some (IpV6 (groups6 (ipi6_addr p))),
          cd_interface_index := Some (ipi6_ifindex p) \<rparr>"
| "rx_meaning le (Rx_Gro i) cd = cd \<lparr> cd_stride := int_as_usize i \<rparr>"
| "rx_meaning le (Rx_Timestamp ts) cd = cd \<lparr> cd_timestamp := Some (timespec_duration ts) \<rparr>"
| "rx_meaning le (Rx_Other lt v) cd = cd"

lemma rx_message_ok:
  assumes "platform_ok P" and "rx_item_ok P i"
  shows "payload_ok (rx_message P i)"
proof -
  have sz: "c_size (pf_in_addr P) \<le> 64" "c_size (pf_in_pktinfo P) \<le> 64"
    "c_size (pf_in6_pktinfo P) \<le> 64" "c_size (pf_timespec P) \<le> 64"
    using assms(1) by (simp_all add: platform_ok_def)
  show ?thesis
  proof (cases i)
    case (Rx_Other lt v)
    with assms(2) show ?thesis by (simp add: payload_ok_def)
  qed (use assms(2) sz platform_okD(3-6) [OF assms(1)] in
      \<open>simp_all add: payload_ok_ctype [of "\<lambda>_. True"] payload_ok_ctype [of in6_pktinfo_ok]\<close>)
qed

lemma decode_item_value:
  assumes P: "platform_ok P" and i: "rx_item_ok P i"
    and at: "cmsg_interface.stands (pf_abi P) (control_bytes h) at (rx_message P i)"
    and "rx_message P i = (lt, c_put T v)" and "ctype_ok_on V T" and "V v"
  shows "cmsg_decode (pf_abi P) dbg T h at = Inr v"
  using cmsg_interface.cmsg_decode_stands [OF platform_okD(1) [OF P]] assms(4-6)
    rx_message_ok [OF P i] at by metis

lemma control_decode_item:
  assumes P: "platform_ok P" and i: "rx_item_ok P i"
    and at: "cmsg_interface.stands (pf_abi P) (control_bytes h) at (rx_message P i)"
  shows "control_decode P h cd at = Inr (rx_meaning (pf_le P) i cd)"
proof -
  note I = platform_okD(1) [OF P]
  note names = platform_okD(2) [OF P, THEN inj_eq]
  note ok = rx_message_ok [OF P i]
  note hdr = cmsg_interface.cmsg_at_stands [OF I at ok] cmsg_interface.header_def [OF I]
  note len = cmsg_interface.len_offset [OF I]
  note dec = decode_item_value [OF P i at]
  note target = apple_def bsd_def solarish_def linux_like_def
  show ?thesis
  proof (cases i)
    case (Rx_Other lt v)
    then have "lt \<noteq> pf_num P n" for n using i by auto
    then show ?thesis
      using hdr by (simp add: control_decode_def Let_def Rx_Other)
  next
    case (Rx_Tos b)
    then show ?thesis
      using i hdr platform_okD(3-6) [OF P] len [of 1] len [of 4]
        dec [where T = uchar_type and v = b and V = "\<lambda>_. True"]
      by (auto simp: control_decode_def Let_def names target)
  next
    case (Rx_RecvTos b)
    then show ?thesis
      using i hdr platform_okD(3-6) [OF P] len [of 1] len [of 4]
        dec [where T = uchar_type and v = b and V = "\<lambda>_. True"]
      by (auto simp: control_decode_def Let_def names target)
  next
    case (Rx_TClass n)
    then show ?thesis
      using i hdr platform_okD(3-6) [OF P] len [of 1] len [of 4]
        dec [where T = "int_type (pf_le P)" and v = n and V = "\<lambda>_. True"]
      by (auto simp: control_decode_def Let_def names target)
  next
    case (Rx_PktInfo p)
    then show ?thesis
      using i hdr platform_okD(3-6) [OF P] len [of 1] len [of 4]
        dec [where T = "pf_in_pktinfo P" and v = p and V = "\<lambda>_. True"]
      by (auto simp: control_decode_def Let_def names target)
  next
    case (Rx_DstAddr a)
    then show ?thesis
      using i hdr platform_okD(3-6) [OF P] len [of 1] len [of 4]
        dec [where T = "pf_in_addr P" and v = a and V = "\<lambda>_. True"]
      by (auto simp: control_decode_def Let_def names target)
  next
    case (Rx_PktInfo6 p)
    then show ?thesis
      using i hdr platform_okD(3-6) [OF P] len [of 1] len [of 4]
        dec [where T = "pf_in6_pktinfo P" and v = p and V = in6_pktinfo_ok]
      by (auto simp: control_decode_def Let_def names target)
  next
    case (Rx_Gro n)
    then show ?thesis
      using i hdr platform_okD(3-6) [OF P] len [of 1] len [of 4]
        dec [where T = "int_type (pf_le P)" and v = n and V = "\<lambda>_. True"]
      by (auto simp: control_decode_def Let_def names target)
  next
    case (Rx_Timestamp ts)
    then show ?thesis
      using i hdr platform_okD(3-6) [OF P] len [of 1] len [of 4]
        dec [where T = "pf_timespec P" and v = ts and V = "\<lambda>_. True"]
      by (auto simp: control_decode_def Let_def names target)
  qed
qed

lemma control_decode_items:
  assumes P: "platform_ok P" and "\<forall>i \<in> set items. rx_item_ok P i"
    and "cmsg_interface.standing (pf_abi P) (control_bytes h) at (map (rx_message P) items)"
  shows "control_decode_all P h
      (cmsg_interface.offsets (pf_abi P) at (map (rx_message P) items)) cd =
    Inr (fold (rx_meaning (pf_le P)) items cd)"
  using assms(2,3)
proof (induction items arbitrary: at cd)
  case Nil
  then show ?case by (simp add: cmsg_interface.offsets.simps [OF platform_okD(1) [OF P]])
next
  case (Cons i items)
  note split = cmsg_interface.standing.simps [OF platform_okD(1) [OF P]]
    cmsg_interface.offsets.simps [OF platform_okD(1) [OF P]]
  have "control_decode P h cd at = Inr (rx_meaning (pf_le P) i cd)"
    using Cons.prems by (intro control_decode_item [OF P]) (simp_all add: split)
  with Cons.IH Cons.prems show ?case by (simp add: split)
qed

definition rx_meta :: "socket_addr \<Rightarrow> nat \<Rightarrow> control_metadata \<Rightarrow> recv_meta" where
  "rx_meta addr len cd =
     \<lparr> rm_addr = addr, rm_len = len, rm_stride = cd_stride cd, rm_ecn = ecn_from_bits (cd_ecn_bits cd),
       rm_dst_ip = cd_dst_ip cd, rm_interface_index = cd_interface_index cd,
       rm_timestamp = cd_timestamp cd \<rparr>"

definition control_hdr :: "nat \<Rightarrow> msg_hdr" where
  "control_hdr N =
     \<lparr> mh_name = None, mh_iov = [], mh_control = Some (replicate N 0), mh_controllen = N \<rparr>"

definition rx_space :: "unix_platform \<Rightarrow> rx_item list \<Rightarrow> nat" where
  "rx_space P items =
     sum_list (map (\<lambda>i. abi_cmsg_space (pf_abi P) (length (snd (rx_message P i)))) items)"

lemma received_metadata:
  assumes P: "platform_ok P" and "\<not> apple_fast P"
    and items: "\<forall>i \<in> set items. rx_item_ok P i"
    and fits: "rx_space P items \<le> N" "N < 2 ^ 31"
  shows "\<exists>e.
    push_all (pf_abi P) (map (rx_message P) items) (encoder_new (pf_abi P) (control_hdr N)) = Inr e \<and>
    decode_recv P name (encoder_finish (pf_abi P) e) len =
      Some (try_then (decode_socket_addr (pf_le P) name) (\<lambda>addr.
        Inr (rx_meta addr len
          (fold (rx_meaning (pf_le P)) items (control_metadata_new len)))))"
proof -
  note I = platform_okD(1) [OF P]
  let ?A = "pf_abi P" and ?ms = "map (rx_message P) items" and ?h = "control_hdr N"
  have ok: "\<forall>m \<in> set ?ms. payload_ok m"
    using items rx_message_ok [OF P] by simp
  have "cmsg_interface.space_of ?A ?ms = rx_space P items"
    by (simp add: cmsg_interface.space_of_def [OF I] rx_space_def cmsg_interface.space_def [OF I] comp_def)
  then have sp: "cmsg_interface.space_of ?A ([] @ ?ms) \<le> N" using fits(1) by simp
  have new: "cmsg_interface.encoded ?A N ?h (replicate N 0) [] (encoder_new ?A ?h)"
    by (rule cmsg_interface.encoded_new [OF I]) (simp_all add: control_hdr_def)
  obtain e where e: "push_all ?A ?ms (encoder_new ?A ?h) = Inr e"
    "cmsg_interface.encoded ?A N ?h (replicate N 0) ?ms e"
    using cmsg_interface.encoded_push_all_zero [OF I new ok fits(2) sp] by auto
  note fin = cmsg_interface.finished_standing [OF I e(2) ok fits(2)]
  have "decode_recv P name (encoder_finish ?A e) len =
      Some (try_then (decode_socket_addr (pf_le P) name) (\<lambda>addr.
        Inr (rx_meta addr len (fold (rx_meaning (pf_le P)) items (control_metadata_new len)))))"
    using fin(1) control_decode_items [OF P items fin(2)] assms(2)
    by (simp add: decode_recv_def rx_meta_def)
  with e(1) show ?thesis by blast
qed



end
