(* ===== verification/UdpSystem.thy ===== *)
theory UdpSystem
  imports UdpAppleProps UdpWindowsProps UdpRecvProps
begin

text \<open>
  The life of a Unix socket of \<^verbatim>\<open>patches/noq-udp\<close> as a state machine: opened, then any
  sequence of sends with whatever the system answers, switched to the Apple fast path at any
  moment. The accessors of the state convert its segment counts to \<^verbatim>\<open>NonZeroUsize\<close> and
  panic on zero; no reachable state makes them.
\<close>

section \<open>Sends preserve the state\<close>

text \<open>What a step may do: the counts stay well formed, a remembered rejection stays.\<close>

definition state_step_ok :: "unix_state \<Rightarrow> unix_state \<Rightarrow> bool" where
  "state_step_ok st st' \<longleftrightarrow>
     (unix_state_ok st \<longrightarrow> unix_state_ok st') \<and> (us_sendmsg_einval st \<longrightarrow> us_sendmsg_einval st')"

lemma state_step_refl [simp]: "state_step_ok st st"
  by (simp add: state_step_ok_def)

lemma state_step_trans: "state_step_ok a b \<Longrightarrow> state_step_ok b c \<Longrightarrow> state_step_ok a c"
  by (auto simp: state_step_ok_def)

lemma halt_offload_step:
  "halt_offload P e st = Inr st' \<Longrightarrow> state_step_ok st st'"
  by (auto simp: halt_offload_def state_step_ok_def try_then_Inr_iff split: if_splits)

lemma send_loop_state:
  fixes snd_msg :: "'w sendmsg"
  assumes "unix_send_loop P snd_msg t enc w st hdr ctrl = Some y"
  shows "state_step_ok st (fst (snd y))"
proof (rule unix_send_loop.raw_induct
    [of "\<lambda>(((a, st), hdr), ctrl) y. state_step_ok st (fst (snd y))", OF _ assms, unfolded prod.case])
  fix rec :: "unix_platform \<Rightarrow> 'w sendmsg \<Rightarrow> transmit \<Rightarrow> bool \<Rightarrow> 'w \<Rightarrow> unix_state \<Rightarrow> msg_hdr \<Rightarrow> bytes \<Rightarrow>
      ('w \<times> unix_state \<times> unit io) option"
    and P and snd_msg :: "'w sendmsg" and t enc w st hdr ctrl y
  assume IH: "\<And>P snd_msg t enc w st hdr ctrl y. rec P snd_msg t enc w st hdr ctrl = Some y \<Longrightarrow>
      state_step_ok st (fst (snd y))"
    and y: "(case snd_msg w hdr of
        (w', Inl e) \<Rightarrow>
          if error_kind e = Interrupted then rec P snd_msg t enc w' st hdr ctrl
          else if error_kind e = WouldBlock then Some (w', st, Inl (IoErr e))
          else (case halt_offload P e st of
                  Inl c \<Rightarrow> Some (w', st, Inl c)
                | Inr st1 \<Rightarrow>
                    if raw_os_error e = Some EINVAL \<and> \<not> us_sendmsg_einval st1
                    then (let st2 = st1 \<lparr> us_sendmsg_einval := True \<rparr> in
                          case prepare_msg P t ctrl enc (us_sendmsg_einval st2) of
                            Inl c \<Rightarrow> Some (w', st2, Inl c)
                          | Inr (hdr', ctrl') \<Rightarrow> rec P snd_msg t enc w' st2 hdr' ctrl')
                    else Some (w', st1, Inl (IoErr e)))
      | (w', Inr n) \<Rightarrow> Some (w', st, Inr ())) = Some y"
  have halted: "state_step_ok st (st1 \<lparr> us_sendmsg_einval := True \<rparr>)" "state_step_ok st st1"
    if "halt_offload P e st = Inr st1" for e st1
    using halt_offload_step [OF that] by (simp_all add: state_step_ok_def)
  obtain w' res where call: "snd_msg w hdr = (w', res)" by (cases "snd_msg w hdr")
  show "state_step_ok st (fst (snd y))"
  proof (cases res)
    case (Inr n)
    with y call show ?thesis by auto
  next
    case (Inl e)
    consider "error_kind e = Interrupted" | "error_kind e = WouldBlock" |
      c where "halt_offload P e st = Inl c" |
      st1 where "halt_offload P e st = Inr st1" "error_kind e \<noteq> Interrupted"
        "error_kind e \<noteq> WouldBlock" by (cases "halt_offload P e st") auto
    then show ?thesis
    proof cases
      case 1
      with y call Inl IH show ?thesis by simp
    next
      case (4 st1)
      note step = halted [OF 4(1)]
      show ?thesis
      proof (cases "prepare_msg P t ctrl enc True")
        case (Inl c)
        then show ?thesis using y call \<open>res = Inl e\<close> 4 step by (auto split: if_splits)
      next
        case (Inr h)
        then show ?thesis
          using y call \<open>res = Inl e\<close> 4 step
          by (cases h) (auto split: if_splits dest!: IH intro: state_step_trans)
      qed
    qed (use y call Inl in \<open>auto split: if_splits dest: IH\<close>)
  qed
qed

text \<open>The paths that end in one retried call.\<close>

lemma answered_state: "map_option (\<lambda>(w', r). (w', st, f r)) m = Some y \<Longrightarrow> fst (snd y) = st"
  by (cases m) auto

lemma send_single_state:
  "send_single P snd_msg t w st = Some y \<Longrightarrow> fst (snd y) = st"
  by (cases "prepare_msg P t (replicate LEN 0)
        (apple (pf_target P) \<or> pf_target P = OpenBSD \<or> pf_target P = NetBSD) (us_sendmsg_einval st)")
     (auto simp: send_single_def dest: answered_state)

lemma try_send_state:
  "unix_try_send P env snd_msg t w st = Some y \<Longrightarrow> state_step_ok st (fst (snd y))"
  by (auto simp: unix_try_send_def unix_send_def dest: send_loop_state send_single_state
      split: if_splits sum.splits prod.splits)

lemma send_outcome_state: "state_step_ok st (fst (send_outcome P now t st r))"
  by (auto simp: send_outcome_def state_step_ok_def split: sum.split io_failure.split)

lemma socket_send_state:
  assumes "unix_socket_send P env snd_msg now t w st = Some (w', st', r)"
  shows "state_step_ok st st'"
proof -
  obtain w1 st1 r1 where raw: "unix_try_send P env snd_msg t w st = Some (w1, st1, r1)"
    and out: "st' = fst (send_outcome P now t st1 r1)"
    using assms by (auto simp: unix_socket_send_def)
  from try_send_state [OF raw] have "state_step_ok st st1" by simp
  from state_step_trans [OF this send_outcome_state] show ?thesis by (simp add: out)
qed

lemma apple_state_steps:
  "state_step_ok st (set_apple_fast_path P st)" "state_step_ok st (disable_apple_fast_path st)"
  "state_step_ok st (fst (resolve_apple_fast_fn f st))"
  using apple_fast_path_ok [of st]
  by (auto simp: state_step_ok_def set_apple_fast_path_def disable_apple_fast_path_def
      resolve_apple_fast_fn_def)

lemma apple_try_send_state:
  assumes "apple_try_send P fn_ptr snd_msg t w st = Some y"
  shows "state_step_ok st (fst (snd y))"
proof (cases "us_apple_fast_path st")
  case False
  with assms show ?thesis
    by (auto simp: apple_try_send_def dest: send_single_state)
next
  case True
  with assms have y: "send_via_sendmsg_x P fn_ptr snd_msg t w st = Some y"
    by (simp add: apple_try_send_def)
  then consider "fst (snd y) = st" | "fst (snd y) = fst (resolve_apple_fast_fn fn_ptr st)"
    by (cases "sendmsg_x_batch P t (us_sendmsg_einval st)"; cases fn_ptr)
       (auto simp: send_via_sendmsg_x_def resolve_apple_fast_fn_def
         dest: send_single_state answered_state)
  then show ?thesis by cases (simp_all add: apple_state_steps)
qed

lemma apple_send_state:
  assumes "apple_socket_send P fn_ptr snd_msg now t w st = Some (w', st', r)"
  shows "state_step_ok st st'"
proof -
  obtain w1 st1 r1 where raw: "apple_try_send P fn_ptr snd_msg t w st = Some (w1, st1, r1)"
    and out: "st' = fst (send_outcome P now t st1 r1)"
    using assms by (auto simp: apple_socket_send_def)
  from apple_try_send_state [OF raw] have "state_step_ok st st1" by simp
  from state_step_trans [OF this send_outcome_state] show ?thesis by (simp add: out)
qed

section \<open>Reachable states\<close>

inductive udp_reachable ::
  "unix_platform \<Rightarrow> 'w sendmsg \<Rightarrow> 'w sendmsg_x option \<Rightarrow> unix_state \<Rightarrow> bool"
  for P snd_msg fn_ptr where
  opened: "unix_new P env once now tr = (tr', Inr (once', st)) \<Longrightarrow> udp_reachable P snd_msg fn_ptr st"
| sent: "udp_reachable P snd_msg fn_ptr st \<Longrightarrow>
    unix_socket_send P env snd_msg now t w st = Some (w', st', r) \<Longrightarrow>
    udp_reachable P snd_msg fn_ptr st'"
| fast_path: "udp_reachable P snd_msg fn_ptr st \<Longrightarrow>
    udp_reachable P snd_msg fn_ptr (set_apple_fast_path P st)"
| sent_fast: "udp_reachable P snd_msg fn_ptr st \<Longrightarrow>
    apple_socket_send P fn_ptr snd_msg now t w st = Some (w', st', r) \<Longrightarrow>
    udp_reachable P snd_msg fn_ptr st'"

lemma udp_reachable_ok:
  "udp_reachable P snd_msg fn_ptr st \<Longrightarrow> unix_state_ok st"
proof (induction rule: udp_reachable.induct)
  case (opened env once now tr tr' once' st)
  then show ?case by (rule unix_new_ok)
next
  case (sent st env now t w w' st' r)
  then show ?case using socket_send_state [of P env snd_msg] by (simp add: state_step_ok_def)
next
  case (fast_path st)
  then show ?case by (simp add: apple_fast_path_ok)
next
  case (sent_fast st now t w w' st' r)
  then show ?case using apple_send_state [of P fn_ptr snd_msg] by (simp add: state_step_ok_def)
qed

text \<open>
  C33. In every state a socket can get into, the number of segments it offers for sending is 1, 32
  or 64 and the one for receiving 1 or 64: the conversion to a non-zero integer never panics,
  whatever the system answers and whichever send path is taken.
\<close>

theorem segment_counts_never_zero:
  assumes "udp_reachable P snd_msg fn_ptr st"
  shows "max_gso_segments st = Inr (us_max_gso_segments st) \<and>
    us_max_gso_segments st \<in> {1, 32, 64} \<and> us_gro_segments st \<in> {1, 64}"
  using udp_reachable_ok [OF assms] max_gso_segments_ok by (simp add: unix_state_ok_def)

section \<open>A concrete run\<close>

lemma linux_opens:
  "\<exists>tr' once' st. unix_new linux_x86_64 example_env (Some True) 0 [] = (tr', Inr (once', st)) \<and>
     us_max_gso_segments st = 64 \<and> us_gro_segments st = 64"
  by (simp add: unix_new_def linux_x86_64_def Let_def LEN_def cmsg_platform_space_def
      round_up_nat_def unix_open_def example_env_def recv_tos_option_def linux_options_def
      dontfrag_option_def recvdstaddr_option_def ipv6_options_def platform_max_gso_def
      linux_max_gso_result kernel_supported_once_def sockop_bind_def sockop_catch_def
      opt_result_def opt_supported_def target_defs)

theorem segment_counts_never_zero_witness:
  "\<exists>st. udp_reachable linux_x86_64 (rejects_tos linux_x86_64) None st \<and>
     max_gso_segments st = Inr (us_max_gso_segments st)"
proof -
  obtain tr' once' st where "unix_new linux_x86_64 example_env (Some True) 0 [] = (tr', Inr (once', st))"
    using linux_opens by blast
  then have "udp_reachable linux_x86_64 (rejects_tos linux_x86_64) None st" by (rule opened)
  with segment_counts_never_zero [OF this] show ?thesis by blast
qed

end
