(* ===== verification/UdpThreads.thy ===== *)
theory UdpThreads
  imports Threads UdpSystem
begin

text \<open>
  Several threads sending over one Unix socket of \<^verbatim>\<open>patches/noq-udp\<close>. The operations take
  \<^verbatim>\<open>&self\<close>: the state is shared, its fields are atomics read and written one at a time, and the
  time of the last logged error sits behind a mutex. A thread in \<^verbatim>\<open>UdpSocketState::send\<close> is a
  program counter, one step of it is one atomic access, one system call or one locked update,
  and a schedule names the thread that moves next.

  The accesses are \<^verbatim>\<open>Relaxed\<close>; the model interleaves them in one order. Each field is its own
  location with a single order of its writes, and no decision of the code compares two fields.
\<close>

section \<open>One thread\<close>

text \<open>
  Where a thread is in \<^verbatim>\<open>send\<close>; it carries its local variables \<^verbatim>\<open>encode_src_ip\<close>, the header,
  the control buffer and the error at hand. \<open>Finished\<close> holds the result of the raw send and what
  the caller is told.
\<close>

datatype send_pc =
    Begin
  | Calling bool msg_hdr bytes
  | Counting bool bytes io_error
  | Halting bool bytes io_error
  | Checking bool bytes io_error
  | Marking bool bytes
  | Preparing bool bytes
  | Returned "unit io"
  | Finished "unit io" "unit io"

text \<open>From a prepared header to the next call of \<^verbatim>\<open>sendmsg\<close>.\<close>

definition to_call :: "bool \<Rightarrow> (msg_hdr \<times> bytes) io \<Rightarrow> send_pc" where
  "to_call enc r = (case r of Inl c \<Rightarrow> Returned (Inl c) | Inr (hdr, ctrl) \<Rightarrow> Calling enc hdr ctrl)"

fun send_step ::
  "unix_platform \<Rightarrow> sock_env \<Rightarrow> 'w sendmsg \<Rightarrow> nat \<Rightarrow> transmit \<Rightarrow> 'w \<times> unix_state \<times> send_pc \<Rightarrow>
   'w \<times> unix_state \<times> send_pc" where
  "send_step P env snd_msg now t (w, st, Begin) =
     (w, st,
      case encode_src_ip_of P env of
        Inl e \<Rightarrow> Returned (Inl (IoErr e))
      | Inr enc \<Rightarrow> to_call enc (prepare_msg P t (replicate LEN 0) enc (us_sendmsg_einval st)))"
| "send_step P env snd_msg now t (w, st, Calling enc hdr ctrl) =
     (case snd_msg w hdr of
        (w', Inr n) \<Rightarrow> (w', st, Returned (Inr ()))
      | (w', Inl e) \<Rightarrow>
          (w', st,
           if error_kind e = Interrupted then Calling enc hdr ctrl
           else if error_kind e = WouldBlock then Returned (Inl (IoErr e))
           else if linux_like (pf_target P) \<and>
                   (raw_os_error e = Some EIO \<or> raw_os_error e = Some EINVAL)
           then Counting enc ctrl e else Checking enc ctrl e))"
| "send_step P env snd_msg now t (w, st, Counting enc ctrl e) =
     (w, st,
      case max_gso_segments st of
        Inl c \<Rightarrow> Returned (Inl c)
      | Inr n \<Rightarrow> if 1 < n then Halting enc ctrl e else Checking enc ctrl e)"
| "send_step P env snd_msg now t (w, st, Halting enc ctrl e) =
     (w, st \<lparr> us_max_gso_segments := 1 \<rparr>, Checking enc ctrl e)"
| "send_step P env snd_msg now t (w, st, Checking enc ctrl e) =
     (w, st,
      if raw_os_error e = Some EINVAL \<and> \<not> us_sendmsg_einval st then Marking enc ctrl
      else Returned (Inl (IoErr e)))"
| "send_step P env snd_msg now t (w, st, Marking enc ctrl) =
     (w, st \<lparr> us_sendmsg_einval := True \<rparr>, Preparing enc ctrl)"
| "send_step P env snd_msg now t (w, st, Preparing enc ctrl) =
     (w, st, to_call enc (prepare_msg P t ctrl enc (us_sendmsg_einval st)))"
| "send_step P env snd_msg now t (w, st, Returned r) =
     (case send_outcome P now t st r of (st', r') \<Rightarrow> (w, st', Finished r r'))"
| "send_step P env snd_msg now t (w, st, Finished r r') = (w, st, Finished r r')"

section \<open>Many threads\<close>

record send_thread =
  th_transmit :: transmit
  th_pc :: send_pc

text \<open>A turn of one thread at the time \<open>now\<close>.\<close>

definition send_turn ::
  "unix_platform \<Rightarrow> sock_env \<Rightarrow> 'w sendmsg \<Rightarrow> nat \<Rightarrow> send_thread \<Rightarrow> 'w \<times> unix_state \<Rightarrow>
   ('w \<times> unix_state) \<times> send_thread" where
  "send_turn P env snd_msg now th ws =
     (case send_step P env snd_msg now (th_transmit th) (fst ws, snd ws, th_pc th) of
        (w', st', pc') \<Rightarrow> ((w', st'), th \<lparr> th_pc := pc' \<rparr>))"

abbreviation run_threads ::
  "unix_platform \<Rightarrow> sock_env \<Rightarrow> 'w sendmsg \<Rightarrow> (nat \<times> nat) list \<Rightarrow> ('w \<times> unix_state) \<times> send_thread list \<Rightarrow>
   ('w \<times> unix_state) \<times> send_thread list" where
  "run_threads P env snd_msg \<equiv> interleave (send_turn P env snd_msg)"

section \<open>A thread on its own is the sequential send\<close>

text \<open>What is left to do at each program counter, by the sequential functions.\<close>

definition final ::
  "unix_platform \<Rightarrow> nat \<Rightarrow> transmit \<Rightarrow> 'w \<times> unix_state \<times> unit io \<Rightarrow>
   'w \<times> unix_state \<times> unit io \<times> unit io" where
  "final P now t y =
     (case y of (w, st, r) \<Rightarrow>
        (w, fst (send_outcome P now t st r), r, snd (send_outcome P now t st r)))"

definition finished ::
  "unix_platform \<Rightarrow> nat \<Rightarrow> transmit \<Rightarrow> ('w \<times> unix_state \<times> unit io) option \<Rightarrow>
   ('w \<times> unix_state \<times> unit io \<times> unit io) option" where
  "finished P now t res = map_option (final P now t) res"

definition to_loop ::
  "unix_platform \<Rightarrow> 'w sendmsg \<Rightarrow> transmit \<Rightarrow> bool \<Rightarrow> 'w \<Rightarrow> unix_state \<Rightarrow> (msg_hdr \<times> bytes) io \<Rightarrow>
   ('w \<times> unix_state \<times> unit io) option" where
  "to_loop P snd_msg t enc w st r =
     (case r of Inl c \<Rightarrow> Some (w, st, Inl c)
      | Inr (hdr, ctrl) \<Rightarrow> unix_send_loop P snd_msg t enc w st hdr ctrl)"

definition from_check ::
  "unix_platform \<Rightarrow> 'w sendmsg \<Rightarrow> transmit \<Rightarrow> bool \<Rightarrow> bytes \<Rightarrow> io_error \<Rightarrow> 'w \<Rightarrow> unix_state \<Rightarrow>
   ('w \<times> unix_state \<times> unit io) option" where
  "from_check P snd_msg t enc ctrl e w st =
     (if raw_os_error e = Some EINVAL \<and> \<not> us_sendmsg_einval st
      then to_loop P snd_msg t enc w (st \<lparr> us_sendmsg_einval := True \<rparr>) (prepare_msg P t ctrl enc True)
      else Some (w, st, Inl (IoErr e)))"

fun remaining ::
  "unix_platform \<Rightarrow> sock_env \<Rightarrow> 'w sendmsg \<Rightarrow> nat \<Rightarrow> transmit \<Rightarrow> 'w \<times> unix_state \<times> send_pc \<Rightarrow>
   ('w \<times> unix_state \<times> unit io \<times> unit io) option" where
  "remaining P env snd_msg now t (w, st, Begin) = finished P now t (unix_send P env snd_msg t w st)"
| "remaining P env snd_msg now t (w, st, Calling enc hdr ctrl) =
     finished P now t (unix_send_loop P snd_msg t enc w st hdr ctrl)"
| "remaining P env snd_msg now t (w, st, Counting enc ctrl e) =
     finished P now t
       (case max_gso_segments st of
          Inl c \<Rightarrow> Some (w, st, Inl c)
        | Inr n \<Rightarrow> from_check P snd_msg t enc ctrl e w
                    (if 1 < n then st \<lparr> us_max_gso_segments := 1 \<rparr> else st))"
| "remaining P env snd_msg now t (w, st, Halting enc ctrl e) =
     finished P now t (from_check P snd_msg t enc ctrl e w (st \<lparr> us_max_gso_segments := 1 \<rparr>))"
| "remaining P env snd_msg now t (w, st, Checking enc ctrl e) =
     finished P now t (from_check P snd_msg t enc ctrl e w st)"
| "remaining P env snd_msg now t (w, st, Marking enc ctrl) =
     finished P now t
       (to_loop P snd_msg t enc w (st \<lparr> us_sendmsg_einval := True \<rparr>) (prepare_msg P t ctrl enc True))"
| "remaining P env snd_msg now t (w, st, Preparing enc ctrl) =
     finished P now t (to_loop P snd_msg t enc w st (prepare_msg P t ctrl enc (us_sendmsg_einval st)))"
| "remaining P env snd_msg now t (w, st, Returned r) = finished P now t (Some (w, st, r))"
| "remaining P env snd_msg now t (w, st, Finished r r') = Some (w, st, r, r')"

lemma remaining_to_call:
  "remaining P env snd_msg now t (w, st, to_call enc r) = finished P now t (to_loop P snd_msg t enc w st r)"
  by (auto simp: to_call_def to_loop_def split: sum.split prod.split)

lemma unix_send_to_loop:
  "unix_send P env snd_msg t w st =
     (case encode_src_ip_of P env of
        Inl e \<Rightarrow> Some (w, st, Inl (IoErr e))
      | Inr enc \<Rightarrow> to_loop P snd_msg t enc w st (prepare_msg P t (replicate LEN 0) enc (us_sendmsg_einval st)))"
  by (auto simp: unix_send_def to_loop_def split: sum.split)

lemma remaining_after_error:
  assumes "error_kind e \<noteq> WouldBlock"
  shows "finished P now t (after_error P snd_msg t enc w st ctrl e) =
    remaining P env snd_msg now t
      (w, st, if linux_like (pf_target P) \<and> (raw_os_error e = Some EIO \<or> raw_os_error e = Some EINVAL)
              then Counting enc ctrl e else Checking enc ctrl e)"
  using assms
  by (auto simp: after_error_def halt_offload_def try_then_def to_loop_def from_check_def Let_def
      split: sum.split)

text \<open>A step changes nothing about the result to come.\<close>

lemma remaining_step:
  "remaining P env snd_msg now t (send_step P env snd_msg now t c) = remaining P env snd_msg now t c"
proof (cases c)
  case (fields w st pc)
  show ?thesis
  proof (cases pc)
    case Begin
    then show ?thesis
      by (auto simp: fields unix_send_to_loop remaining_to_call split: sum.split)
  next
    case (Calling enc hdr ctrl)
    obtain w' r where call: "snd_msg w hdr = (w', r)" by (cases "snd_msg w hdr")
    show ?thesis
    proof (cases r)
      case (Inl e)
      consider "error_kind e = Interrupted" | "error_kind e = WouldBlock"
        | "error_kind e \<noteq> Interrupted" "error_kind e \<noteq> WouldBlock" by blast
      then show ?thesis
      proof cases
        case 3
        with remaining_after_error [OF 3(2), of P now t snd_msg enc w' st ctrl env] show ?thesis
          by (auto simp: fields Calling call Inl send_loop_step [of P snd_msg t enc w]
              simp del: remaining.simps(3,5))
      qed (simp_all add: fields Calling call Inl send_loop_step [of P snd_msg t enc w] after_error_def)
    qed (simp add: fields Calling call send_loop_step [of P snd_msg t enc w])
  qed (auto simp: fields remaining_to_call finished_def final_def to_loop_def from_check_def
      split: sum.split prod.split)
qed

definition send_steps ::
  "unix_platform \<Rightarrow> sock_env \<Rightarrow> 'w sendmsg \<Rightarrow> nat \<Rightarrow> transmit \<Rightarrow> nat \<Rightarrow> 'w \<times> unix_state \<times> send_pc \<Rightarrow>
   'w \<times> unix_state \<times> send_pc" where
  "send_steps P env snd_msg now t n = send_step P env snd_msg now t ^^ n"

lemma send_steps_simps:
  "send_steps P env snd_msg now t 0 c = c"
  "send_steps P env snd_msg now t (Suc n) c = send_steps P env snd_msg now t n (send_step P env snd_msg now t c)"
  by (simp_all add: send_steps_def funpow_swap1)

lemma remaining_steps:
  "remaining P env snd_msg now t (send_steps P env snd_msg now t n c) = remaining P env snd_msg now t c"
  by (induction n arbitrary: c) (simp_all add: send_steps_simps remaining_step)

text \<open>The thread can get there.\<close>

definition completes ::
  "unix_platform \<Rightarrow> sock_env \<Rightarrow> 'w sendmsg \<Rightarrow> nat \<Rightarrow> transmit \<Rightarrow> 'w \<times> unix_state \<times> send_pc \<Rightarrow>
   'w \<times> unix_state \<times> unit io \<times> unit io \<Rightarrow> bool" where
  "completes P env snd_msg now t c y \<longleftrightarrow>
     (\<exists>n. send_steps P env snd_msg now t n c = (case y of (w, st, r, r') \<Rightarrow> (w, st, Finished r r')))"

lemma completes_step:
  "completes P env snd_msg now t (send_step P env snd_msg now t c) y \<Longrightarrow> completes P env snd_msg now t c y"
  unfolding completes_def using send_steps_simps(2) by metis

lemma completes_Finished: "completes P env snd_msg now t (w, st, Finished r r') (w, st, r, r')"
  unfolding completes_def by (rule exI [of _ 0]) (simp add: send_steps_simps)

lemma completes_Returned: "completes P env snd_msg now t (w, st, Returned r) (final P now t (w, st, r))"
  by (rule completes_step) (simp add: final_def completes_Finished split: prod.split)

lemma completes_to_call:
  assumes "\<And>hdr ctrl. r = Inr (hdr, ctrl) \<Longrightarrow> completes P env snd_msg now t (w, st, Calling enc hdr ctrl) y"
    and "\<And>c. r = Inl c \<Longrightarrow> y = final P now t (w, st, Inl c)"
  shows "completes P env snd_msg now t (w, st, to_call enc r) y"
  using assms by (cases r) (auto simp: to_call_def completes_Returned)

lemma completes_Checking:
  assumes "\<not> (raw_os_error e = Some EINVAL \<and> \<not> us_sendmsg_einval st) \<Longrightarrow>
      y = final P now t (w, st, Inl (IoErr e))"
    and "raw_os_error e = Some EINVAL \<Longrightarrow> \<not> us_sendmsg_einval st \<Longrightarrow>
      completes P env snd_msg now t
        (w, st \<lparr> us_sendmsg_einval := True \<rparr>, to_call enc (prepare_msg P t ctrl enc True)) y"
  shows "completes P env snd_msg now t (w, st, Checking enc ctrl e) y"
proof (cases "raw_os_error e = Some EINVAL \<and> \<not> us_sendmsg_einval st")
  case True
  have "completes P env snd_msg now t (w, st, Marking enc ctrl) y"
    by (rule completes_step, simp, rule completes_step) (use assms(2) True in simp)
  then show ?thesis by (intro completes_step [of _ _ _ _ _ "(w, st, Checking enc ctrl e)"]) (use True in simp)
next
  case False
  then show ?thesis
    by (intro completes_step [of _ _ _ _ _ "(w, st, Checking enc ctrl e)"])
      (use False assms(1) completes_Returned in auto)
qed

lemma completes_error:
  assumes "snd_msg w hdr = (w', Inl e)" and "error_kind e \<noteq> Interrupted" and "error_kind e \<noteq> WouldBlock"
    and "\<And>c. halt_offload P e st = Inl c \<Longrightarrow> y = final P now t (w', st, Inl c)"
    and "\<And>st1. halt_offload P e st = Inr st1 \<Longrightarrow>
      completes P env snd_msg now t (w', st1, Checking enc ctrl e) y"
  shows "completes P env snd_msg now t (w, st, Calling enc hdr ctrl) y"
proof (cases "linux_like (pf_target P) \<and> (raw_os_error e = Some EIO \<or> raw_os_error e = Some EINVAL)")
  case True
  have "completes P env snd_msg now t (w', st, Counting enc ctrl e) y"
  proof (cases "max_gso_segments st")
    case (Inl c)
    then have "y = final P now t (w', st, Inl c)" using True assms(4) by (simp add: halt_offload_def try_then_def)
    then show ?thesis using Inl by (intro completes_step [of _ _ _ _ _ "(w', st, Counting enc ctrl e)"])
        (simp add: completes_Returned)
  next
    case (Inr n)
    then have *: "completes P env snd_msg now t
        (w', if 1 < n then st \<lparr> us_max_gso_segments := 1 \<rparr> else st, Checking enc ctrl e) y"
      using True assms(5) by (simp add: halt_offload_def try_then_def)
    show ?thesis
    proof (rule completes_step, cases "1 < n")
      case True
      with * have "completes P env snd_msg now t (w', st, Halting enc ctrl e) y"
        by (intro completes_step [of _ _ _ _ _ "(w', st, Halting enc ctrl e)"]) simp
      with True Inr show "completes P env snd_msg now t
          (send_step P env snd_msg now t (w', st, Counting enc ctrl e)) y" by simp
    qed (use * Inr in simp)
  qed
  then show ?thesis
    by (intro completes_step [of _ _ _ _ _ "(w, st, Calling enc hdr ctrl)"]) (use True assms(1-3) in auto)
next
  case False
  then have "completes P env snd_msg now t (w', st, Checking enc ctrl e) y"
    using assms(5) by (auto simp: halt_offload_def)
  then show ?thesis
    by (intro completes_step [of _ _ _ _ _ "(w, st, Calling enc hdr ctrl)"]) (use False assms(1-3) in auto)
qed

lemma loop_completes:
  fixes snd_msg :: "'w sendmsg"
  assumes "unix_send_loop P snd_msg t enc w st hdr ctrl = Some y"
  shows "completes P env snd_msg now t (w, st, Calling enc hdr ctrl) (final P now t y)"
proof (rule unix_send_loop.raw_induct
    [of "\<lambda>(((((((P, snd_msg), t), enc), w), st), hdr), ctrl) y.
       completes P env snd_msg now t (w, st, Calling enc hdr ctrl) (final P now t y)",
      OF _ assms, unfolded prod.case])
  fix rec :: "unix_platform \<Rightarrow> 'w sendmsg \<Rightarrow> transmit \<Rightarrow> bool \<Rightarrow> 'w \<Rightarrow> unix_state \<Rightarrow> msg_hdr \<Rightarrow> bytes \<Rightarrow>
      ('w \<times> unix_state \<times> unit io) option"
    and P and snd_msg :: "'w sendmsg" and t enc w st hdr ctrl y
  assume IH: "\<And>P snd_msg t enc w st hdr ctrl y. rec P snd_msg t enc w st hdr ctrl = Some y \<Longrightarrow>
      completes P env snd_msg now t (w, st, Calling enc hdr ctrl) (final P now t y)"
    and y: "(case snd_msg w hdr of
        (w', Inl e) \<Rightarrow>
          if error_kind e = Interrupted then rec P snd_msg t enc w' st hdr ctrl
          else if error_kind e = WouldBlock then Some (w', st, Inl (IoErr e))
          else (case halt_offload P e st of
                  Inl c \<Rightarrow> Some (w', st, Inl c)
                | Inr st1 \<Rightarrow>
                    if raw_os_error e = Some EINVAL \<and> \<not> us_sendmsg_einval st1
                    then (let st2 = st1 \<lparr> us_sendmsg_einval := True \<rparr> in
                          case prepare_msg P t ctrl enc (us_sendmsg_einval st2) of
                            Inl c \<Rightarrow> Some (w', st2, Inl c)
                          | Inr (hdr', ctrl') \<Rightarrow> rec P snd_msg t enc w' st2 hdr' ctrl')
                    else Some (w', st1, Inl (IoErr e)))
      | (w', Inr n) \<Rightarrow> Some (w', st, Inr ())) = Some y"
  let ?c = "(w, st, Calling enc hdr ctrl)"
  obtain w' res where call: "snd_msg w hdr = (w', res)" by (cases "snd_msg w hdr")
  show "completes P env snd_msg now t ?c (final P now t y)"
  proof (cases res)
    case (Inr n)
    with y call show ?thesis
      by (intro completes_step [of _ _ _ _ _ ?c]) (auto simp: completes_Returned)
  next
    case (Inl e)
    consider "error_kind e = Interrupted" | "error_kind e = WouldBlock" |
      "error_kind e \<noteq> Interrupted" "error_kind e \<noteq> WouldBlock" by blast
    then show ?thesis
    proof cases
      case 3
      show ?thesis
      proof (rule completes_error [of snd_msg w hdr w' e])
        fix st1
        assume h: "halt_offload P e st = Inr st1"
        show "completes P env snd_msg now t (w', st1, Checking enc ctrl e) (final P now t y)"
          using y call Inl 3 h
          by (intro completes_Checking completes_to_call)
            (auto split: if_splits sum.splits prod.splits dest: IH)
      qed (use y call Inl 3 in auto)
    next
      case 1
      with y call Inl show ?thesis
        by (intro completes_step [of _ _ _ _ _ ?c]) (auto dest: IH)
    next
      case 2
      with y call Inl show ?thesis
        by (intro completes_step [of _ _ _ _ _ ?c]) (auto simp: completes_Returned)
    qed
  qed
qed

lemma send_completes:
  "unix_send P env snd_msg t w st = Some y \<Longrightarrow>
   completes P env snd_msg now t (w, st, Begin) (final P now t y)"
  by (rule completes_step)
    (auto simp: unix_send_def completes_Returned to_call_def split: sum.splits dest: loop_completes)

text \<open>
  C29. A thread that is never preempted does exactly what the sequential send does: it reaches its
  end with a result if and only if the sequential send returns that result, in the same state
  of the socket and of the outside world.
\<close>

theorem lone_thread_is_send:
  assumes "multi_send P"
  shows "unix_socket_send P env snd_msg now t w st = Some (w', st', r') \<longleftrightarrow>
    (\<exists>n r. send_steps P env snd_msg now t n (w, st, Begin) = (w', st', Finished r r'))"
proof -
  have try_eq: "unix_try_send P env snd_msg t w st = unix_send P env snd_msg t w st"
    using assms by (simp add: unix_try_send_def multi_send_def)
  have eq: "unix_socket_send P env snd_msg now t w st = Some (w', st', r') \<longleftrightarrow>
      (\<exists>r. remaining P env snd_msg now t (w, st, Begin) = Some (w', st', r, r'))"
    by (cases "unix_send P env snd_msg t w st")
      (auto simp: unix_socket_send_def try_eq finished_def final_def)
  show ?thesis
  proof
    assume "unix_socket_send P env snd_msg now t w st = Some (w', st', r')"
    with eq obtain r y where "unix_send P env snd_msg t w st = Some y" "final P now t y = (w', st', r, r')"
      by (auto simp: finished_def)
    then have "completes P env snd_msg now t (w, st, Begin) (w', st', r, r')"
      using send_completes by metis
    then show "\<exists>n r. send_steps P env snd_msg now t n (w, st, Begin) = (w', st', Finished r r')"
      by (auto simp: completes_def)
  next
    assume "\<exists>n r. send_steps P env snd_msg now t n (w, st, Begin) = (w', st', Finished r r')"
    then obtain n r where "send_steps P env snd_msg now t n (w, st, Begin) = (w', st', Finished r r')"
      by blast
    from remaining_steps [of P env snd_msg now t n "(w, st, Begin)", unfolded this]
    show "unix_socket_send P env snd_msg now t w st = Some (w', st', r')"
      unfolding eq by (metis remaining.simps(9))
  qed
qed

section \<open>What a thread knows while the others move\<close>

text \<open>The control buffer left by a first attempt that carried the type-of-service byte.\<close>

definition first_ctrl :: "unix_platform \<Rightarrow> transmit \<Rightarrow> bool \<Rightarrow> bytes \<Rightarrow> bool" where
  "first_ctrl P t enc ctrl \<longleftrightarrow> (\<exists>h. prepare_msg P t (replicate LEN 0) enc False = Inr (h, ctrl))"

text \<open>A header that carries the datagram, with or without the type-of-service byte.\<close>

definition carries :: "unix_platform \<Rightarrow> transmit \<Rightarrow> bool \<Rightarrow> bool \<Rightarrow> msg_hdr \<Rightarrow> bool" where
  "carries P t enc einval h \<longleftrightarrow>
     mh_name h = Some (tx_destination t) \<and> mh_iov h = tx_contents t \<and>
     control_messages (pf_abi P) h = Some (datagram_messages P enc einval t)"

definition told_ok :: "unit io \<Rightarrow> bool" where
  "told_ok r \<longleftrightarrow> r = Inr () \<or> (\<exists>e. r = Inl (IoErr e) \<and> error_kind e = WouldBlock)"

fun pc_ok :: "unix_platform \<Rightarrow> sock_env \<Rightarrow> transmit \<Rightarrow> bool \<Rightarrow> send_pc \<Rightarrow> bool" where
  "pc_ok P env t flag Begin \<longleftrightarrow> True"
| "pc_ok P env t flag (Calling enc hdr ctrl) \<longleftrightarrow>
     encode_src_ip_of P env = Inr enc \<and>
     (carries P t enc False hdr \<or> flag \<and> carries P t enc True hdr) \<and>
     (flag \<or> first_ctrl P t enc ctrl)"
| "pc_ok P env t flag (Counting enc ctrl e) \<longleftrightarrow>
     encode_src_ip_of P env = Inr enc \<and> (flag \<or> first_ctrl P t enc ctrl)"
| "pc_ok P env t flag (Halting enc ctrl e) \<longleftrightarrow>
     encode_src_ip_of P env = Inr enc \<and> (flag \<or> first_ctrl P t enc ctrl)"
| "pc_ok P env t flag (Checking enc ctrl e) \<longleftrightarrow>
     encode_src_ip_of P env = Inr enc \<and> (flag \<or> first_ctrl P t enc ctrl)"
| "pc_ok P env t flag (Marking enc ctrl) \<longleftrightarrow> encode_src_ip_of P env = Inr enc \<and> first_ctrl P t enc ctrl"
| "pc_ok P env t flag (Preparing enc ctrl) \<longleftrightarrow>
     encode_src_ip_of P env = Inr enc \<and> flag \<and> first_ctrl P t enc ctrl"
| "pc_ok P env t flag (Returned r) \<longleftrightarrow> no_crash r"
| "pc_ok P env t flag (Finished r r') \<longleftrightarrow> no_crash r \<and> told_ok r'"

definition thread_ok :: "unix_platform \<Rightarrow> sock_env \<Rightarrow> 'w \<times> unix_state \<Rightarrow> send_thread \<Rightarrow> bool" where
  "thread_ok P env ws th \<longleftrightarrow>
     transmit_ok (th_transmit th) \<and> pc_ok P env (th_transmit th) (us_sendmsg_einval (snd ws)) (th_pc th)"

text \<open>What any step may do to the shared state.\<close>

definition socket_rely :: "'w \<times> unix_state \<Rightarrow> 'w \<times> unix_state \<Rightarrow> bool" where
  "socket_rely ws ws' \<longleftrightarrow>
     (us_sendmsg_einval (snd ws) \<longrightarrow> us_sendmsg_einval (snd ws')) \<and>
     us_max_gso_segments (snd ws') \<in> {1, us_max_gso_segments (snd ws)} \<and>
     us_gro_segments (snd ws') = us_gro_segments (snd ws) \<and>
     us_may_fragment (snd ws') = us_may_fragment (snd ws) \<and>
     us_apple_fast_path (snd ws') = us_apple_fast_path (snd ws)"

lemma pc_ok_mono: "pc_ok P env t flag pc \<Longrightarrow> (flag \<Longrightarrow> flag') \<Longrightarrow> pc_ok P env t flag' pc"
  by (cases pc) auto

lemma send_outcome_parts:
  assumes "send_outcome P now t st r = (st', r')"
  shows "\<exists>l. st' = st \<lparr> us_log := l \<rparr>" and "no_crash r \<Longrightarrow> told_ok r'"
proof -
  have "\<exists>l. st = st \<lparr> us_log := l \<rparr>" by (rule exI [of _ "us_log st"]) simp
  with assms show "\<exists>l. st' = st \<lparr> us_log := l \<rparr>"
    by (auto simp: send_outcome_def split: sum.splits io_failure.splits if_splits)
  show "no_crash r \<Longrightarrow> told_ok r'"
    using assms by (auto simp: send_outcome_def told_ok_def split: sum.splits io_failure.splits if_splits)
qed

lemma pc_ok_first_call:
  assumes "platform_ok P" and "transmit_ok t" and "encode_src_ip_of P env = Inr enc"
  shows "pc_ok P env t flag (to_call enc (prepare_msg P t (replicate LEN 0) enc flag))"
proof -
  obtain h ctrl where h: "prepare_msg P t (replicate LEN 0) enc flag = Inr (h, ctrl)" "carries P t enc flag h"
    using prepare_msg_zero [OF assms(1,2)] unfolding carries_def by blast
  then have "flag \<or> first_ctrl P t enc ctrl" unfolding first_ctrl_def by (cases flag) auto
  with h assms(3) show ?thesis by (cases flag) (auto simp: to_call_def)
qed

lemma pc_ok_second_call:
  assumes "platform_ok P" and "transmit_ok t" and "encode_src_ip_of P env = Inr enc" and "first_ctrl P t enc ctrl"
  shows "pc_ok P env t True (to_call enc (prepare_msg P t ctrl enc True))"
proof -
  obtain h where "prepare_msg P t (replicate LEN 0) enc False = Inr (h, ctrl)"
    using assms(4) by (auto simp: first_ctrl_def)
  from prepare_msg_again [OF assms(1,2) this] assms(3) show ?thesis
    by (auto simp: to_call_def carries_def)
qed

lemma send_step_ok:
  assumes P: "platform_ok P" and t: "transmit_ok t" and st: "unix_state_ok st"
    and pc: "pc_ok P env t (us_sendmsg_einval st) pc"
    and step: "send_step P env snd_msg now t (w, st, pc) = (w', st', pc')"
  shows "unix_state_ok st' \<and> pc_ok P env t (us_sendmsg_einval st') pc' \<and> socket_rely (w, st) (w', st')"
proof (cases pc)
  case Begin
  with step st pc_ok_first_call [OF P t] show ?thesis
    by (auto simp: socket_rely_def split: sum.split)
next
  case (Calling enc hdr ctrl)
  with step st pc show ?thesis
    by (auto simp: socket_rely_def split: prod.splits sum.splits if_splits)
next
  case (Returned r)
  obtain st1 r1 where o: "send_outcome P now t st r = (st1, r1)" by (cases "send_outcome P now t st r")
  with step st pc Returned send_outcome_parts [OF o] show ?thesis
    by (auto simp: socket_rely_def)
next
  case (Preparing enc ctrl)
  with step st pc pc_ok_second_call [OF P t, of env enc ctrl] show ?thesis
    by (auto simp: socket_rely_def)
qed (use step st pc in \<open>auto simp: socket_rely_def max_gso_segments_ok split: if_splits\<close>)

definition socket_inv :: "unix_platform \<Rightarrow> 'w \<times> unix_state \<Rightarrow> bool" where
  "socket_inv P ws \<longleftrightarrow> platform_ok P \<and> unix_state_ok (snd ws)"

lemma send_turn_ok:
  assumes "socket_inv P ws" and "thread_ok P env ws th"
    and "send_turn P env snd_msg now th ws = (ws', th')"
  shows "socket_inv P ws' \<and> thread_ok P env ws' th' \<and> socket_rely ws ws'"
proof -
  obtain w st where ws: "ws = (w, st)" by (cases ws)
  obtain w' st' pc' where s: "send_step P env snd_msg now (th_transmit th) (w, st, th_pc th) = (w', st', pc')"
    using prod_cases3 by blast
  then have r: "ws' = (w', st')" "th' = th \<lparr> th_pc := pc' \<rparr>" using assms(3) by (simp_all add: send_turn_def ws)
  with send_step_ok [OF _ _ _ _ s] assms(1,2) show ?thesis by (simp add: ws thread_ok_def socket_inv_def)
qed

lemma socket_rely_steps:
  "socket_rely ws ws"
  "socket_rely ws ws' \<Longrightarrow> socket_rely ws' ws'' \<Longrightarrow> socket_rely ws ws''"
  "thread_ok P env ws th \<Longrightarrow> socket_rely ws ws' \<Longrightarrow> thread_ok P env ws' th"
  by (auto simp: socket_rely_def thread_ok_def intro: pc_ok_mono)

interpretation senders: shared_state "send_turn P env snd_msg" "\<lambda>_. True" "socket_inv P"
  "thread_ok P env" socket_rely for P env and snd_msg :: "'w sendmsg"
  by unfold_locales (rule send_turn_ok socket_rely_steps; assumption)+

definition starting :: "send_thread list \<Rightarrow> bool" where
  "starting ths \<longleftrightarrow> (\<forall>th \<in> set ths. transmit_ok (th_transmit th) \<and> th_pc th = Begin)"

lemma starting_ok: "starting ths \<Longrightarrow> \<forall>th \<in> set ths. thread_ok P env ws th"
  by (auto simp: starting_def thread_ok_def)

text \<open>
  C27. However the sends of several threads interleave: the state stays well formed, a remembered
  rejection is not forgotten and offload only ever goes down; no thread panics; a thread calls
  the system only with its own destination and payload and the control messages of its own
  datagram, in full or without the type-of-service byte; and it reports nothing but success or
  a full buffer.
\<close>

theorem concurrent_sends_safe:
  assumes "platform_ok P" and "unix_state_ok st" and "starting ths"
    and "run_threads P env snd_msg sched ((w, st), ths) = ((w', st'), ths')" and "th \<in> set ths'"
  shows "unix_state_ok st' \<and> (us_sendmsg_einval st \<longrightarrow> us_sendmsg_einval st') \<and>
    us_max_gso_segments st' \<in> {1, us_max_gso_segments st} \<and>
    (case th_pc th of
       Calling enc hdr ctrl \<Rightarrow>
         carries P (th_transmit th) enc False hdr \<or> us_sendmsg_einval st' \<and> carries P (th_transmit th) enc True hdr
     | Returned r \<Rightarrow> no_crash r
     | Finished r r' \<Rightarrow> r' = Inr () \<or> (\<exists>e. r' = Inl (IoErr e) \<and> error_kind e = WouldBlock)
     | _ \<Rightarrow> True)"
proof -
  have "senders.all_ok P env ((w, st), ths)"
    using assms(1-3) starting_ok by (simp add: senders.all_ok_def socket_inv_def)
  note ok = senders.interleave_ok [OF this _ assms(4)]
  then have "thread_ok P env (w', st') th" using assms(5) by (simp add: senders.all_ok_def)
  then have "case th_pc th of
       Calling enc hdr ctrl \<Rightarrow>
         carries P (th_transmit th) enc False hdr \<or> us_sendmsg_einval st' \<and> carries P (th_transmit th) enc True hdr
     | Returned r \<Rightarrow> no_crash r
     | Finished r r' \<Rightarrow> r' = Inr () \<or> (\<exists>e. r' = Inl (IoErr e) \<and> error_kind e = WouldBlock)
     | _ \<Rightarrow> True"
    by (cases "th_pc th") (auto simp: thread_ok_def told_ok_def)
  with ok show ?thesis by (simp add: senders.all_ok_def socket_inv_def socket_rely_def)
qed

section \<open>Bounded work\<close>

text \<open>
  The steps a thread still needs when its calls are not interrupted: a first attempt of six steps,
  the fallback, a second attempt. Once the rejection is known there is no second one.
\<close>

fun send_work :: "bool \<Rightarrow> send_pc \<Rightarrow> nat" where
  "send_work flag Begin = (if flag then 6 else 12)"
| "send_work flag (Calling enc hdr ctrl) = (if flag then 5 else 11)"
| "send_work flag (Counting enc ctrl e) = (if flag then 4 else 10)"
| "send_work flag (Halting enc ctrl e) = (if flag then 3 else 9)"
| "send_work flag (Checking enc ctrl e) = (if flag then 2 else 8)"
| "send_work flag (Marking enc ctrl) = 7"
| "send_work flag (Preparing enc ctrl) = (if flag then 6 else 12)"
| "send_work flag (Returned r) = 1"
| "send_work flag (Finished r r') = 0"

definition never_interrupted :: "'w sendmsg \<Rightarrow> bool" where
  "never_interrupted snd_msg \<longleftrightarrow> (\<forall>w h. \<not> interrupted (snd (snd_msg w h)))"

definition thread_work :: "'w \<times> unix_state \<Rightarrow> send_thread \<Rightarrow> nat" where
  "thread_work ws th = send_work (us_sendmsg_einval (snd ws)) (th_pc th)"

lemma send_work_to_call: "send_work flag (to_call enc r) \<le> (if flag then 5 else 11)"
  by (simp add: to_call_def split: sum.split prod.split)

lemma send_work_step:
  assumes "never_interrupted snd_msg"
    and "send_step P env snd_msg now t (w, st, pc) = (w', st', pc')"
  shows "send_work (us_sendmsg_einval st') pc' \<le> send_work (us_sendmsg_einval st) pc - 1"
proof (cases pc)
  case (Calling enc hdr ctrl)
  obtain w1 r where call: "snd_msg w hdr = (w1, r)" by (cases "snd_msg w hdr")
  have "\<not> interrupted r" using assms(1) call by (metis never_interrupted_def snd_conv)
  then show ?thesis using assms(2) Calling call by (cases r) (auto simp: interrupted_def split: if_splits)
next
  case Begin
  then show ?thesis
    using assms(2) send_work_to_call [of "us_sendmsg_einval st"] by (auto split: sum.split)
next
  case (Preparing enc ctrl)
  then show ?thesis
    using assms(2) send_work_to_call [of "us_sendmsg_einval st"] by auto
next
  case (Returned r)
  then show ?thesis using assms(2) by (auto split: prod.splits)
qed (use assms(2) in \<open>auto split: sum.split\<close>)

lemma send_work_mono: "(flag \<Longrightarrow> flag') \<Longrightarrow> send_work flag' pc \<le> send_work flag pc"
  by (cases pc) auto

lemma thread_work_turn:
  assumes "never_interrupted snd_msg" and "send_turn P env snd_msg now th ws = (ws', th')"
  shows "thread_work ws' th' \<le> thread_work ws th - 1"
proof -
  obtain w' st' pc' where
    s: "send_step P env snd_msg now (th_transmit th) (fst ws, snd ws, th_pc th) = (w', st', pc')"
    using prod_cases3 by blast
  from send_work_step [OF assms(1) s] s assms(2) show ?thesis
    by (auto simp: send_turn_def thread_work_def)
qed

lemma thread_work_rely: "socket_rely ws ws' \<Longrightarrow> thread_work ws' th \<le> thread_work ws th"
  by (auto simp: thread_work_def socket_rely_def intro: send_work_mono)

definition prompt_inv :: "unix_platform \<Rightarrow> 'w sendmsg \<Rightarrow> 'w \<times> unix_state \<Rightarrow> bool" where
  "prompt_inv P snd_msg ws \<longleftrightarrow> socket_inv P ws \<and> never_interrupted snd_msg"

lemma prompt_turn:
  "prompt_inv P snd_msg ws \<Longrightarrow> thread_ok P env ws th \<Longrightarrow> send_turn P env snd_msg now th ws = (ws', th') \<Longrightarrow>
   prompt_inv P snd_msg ws' \<and> thread_ok P env ws' th' \<and> socket_rely ws ws'"
  "prompt_inv P snd_msg ws \<Longrightarrow> thread_ok P env ws th \<Longrightarrow> send_turn P env snd_msg now th ws = (ws', th') \<Longrightarrow>
   thread_work ws' th' \<le> thread_work ws th - 1"
  using send_turn_ok [of P ws env th snd_msg now ws' th'] thread_work_turn [of snd_msg P env now th ws ws' th']
  by (simp_all add: prompt_inv_def)

interpretation prompt: wait_free "send_turn P env snd_msg" "\<lambda>_. True" "prompt_inv P snd_msg"
  "thread_ok P env" socket_rely thread_work for P env and snd_msg :: "'w sendmsg"
  by unfold_locales (rule prompt_turn thread_work_rely socket_rely_steps; assumption)+


section \<open>A rejection seen by two threads\<close>

lemma alone_send:
  "alone (send_turn P env snd_msg) (replicate n now) (th, (w, st)) =
   (case send_steps P env snd_msg now (th_transmit th) n (w, st, th_pc th) of
      (w', st', pc') \<Rightarrow> (th \<lparr> th_pc := pc' \<rparr>, (w', st')))"
proof (induction n arbitrary: th w st)
  case (Suc n)
  obtain w1 st1 pc1 where s:
    "send_step P env snd_msg now (th_transmit th) (w, st, th_pc th) = (w1, st1, pc1)"
    using prod_cases3 by blast
  with Suc.IH [of "th \<lparr> th_pc := pc1 \<rparr>" w1 st1] show ?case
    by (simp add: send_turn_def send_steps_simps)
qed (simp add: send_steps_simps)

text \<open>A thread that runs undisturbed from some point on reaches the result that was left to compute.\<close>

lemma run_to_end:
  assumes "completes P env snd_msg now (th_transmit (ths ! i)) (w, st, th_pc (ths ! i))
      (w', st', r, r')"
    and "i < length ths"
  shows "\<exists>n. run_threads P env snd_msg (replicate n (i, now)) ((w, st), ths) =
    ((w', st'), ths[i := (ths ! i) \<lparr> th_pc := Finished r r' \<rparr>])"
proof -
  obtain n where "send_steps P env snd_msg now (th_transmit (ths ! i)) n
      (w, st, th_pc (ths ! i)) = (w', st', Finished r r')"
    using assms(1) by (auto simp: completes_def)
  then have "alone (send_turn P env snd_msg) (replicate n now) (ths ! i, (w, st)) =
      ((ths ! i) \<lparr> th_pc := Finished r r' \<rparr>, (w', st'))"
    by (simp add: alone_send)
  from interleave_alone [OF assms(2) this] show ?thesis by auto
qed

text \<open>A send that prepared its header before the rejection became known, and fails after.\<close>

lemma late_rejection:
  assumes "unix_state_ok st" and "us_sendmsg_einval st" and "snd_msg w hdr = (w', Inl (Os EINVAL))"
  shows "\<exists>st'. completes P env snd_msg now t (w, st, Calling enc hdr ctrl)
    (w', st', Inl (IoErr (Os EINVAL)), Inr ())"
proof -
  obtain st1 where "unix_send_loop P snd_msg t enc w st hdr ctrl = Some (w', st1, Inl (IoErr (Os EINVAL)))"
    using assms by (auto simp: send_loop_step [of P snd_msg t enc w] after_error_einval halt_offload_ok)
  from loop_completes [OF this, of env now] show ?thesis
    by (auto simp: final_def send_outcome_def)
qed

definition new_thread :: "transmit \<Rightarrow> send_thread" where
  "new_thread t = \<lparr> th_transmit = t, th_pc = Begin \<rparr>"

text \<open>
  C30. Two concurrent sends can lose a datagram that no sequential order of the two loses. On a
  system that refuses the type-of-service byte, sent one after the other both datagrams are
  delivered; but when the second send has prepared its header before the first one is refused,
  and is refused itself after the first one has recorded that, it takes the refusal for
  one that has been dealt with, does not try again without the byte, and its caller is told
  that all is well.
\<close>

theorem concurrent_fallback_drops:
  assumes "platform_ok P" and "transmit_ok t1" and "transmit_ok t2" and "unix_state_ok st"
    and "\<not> us_sendmsg_einval st" and "dest_is_ipv4 t1" and "dest_is_ipv4 t2" and "multi_send P"
    and "encode_src_ip_of P env = Inr enc" and "refuses_tos P snd_msg"
  shows "(\<exists>sched w' st'. run_threads P env snd_msg sched ((w, st), [new_thread t1, new_thread t2]) =
      ((w', st'),
       [(new_thread t1) \<lparr> th_pc := Finished (Inr ()) (Inr ()) \<rparr>,
        (new_thread t2) \<lparr> th_pc := Finished (Inl (IoErr (Os EINVAL))) (Inr ()) \<rparr>])) \<and>
    (\<forall>w1 st1. unix_state_ok st1 \<longrightarrow> (\<exists>w2 st2. unix_send P env snd_msg t2 w1 st1 = Some (w2, st2, Inr ())))"
proof -
  let ?th1 = "new_thread t1" and ?th2 = "new_thread t2"
  obtain h2 c2 where h2: "prepare_msg P t2 (replicate LEN 0) enc False = Inr (h2, c2)"
    "control_messages (pf_abi P) h2 = Some (datagram_messages P enc False t2)"
    using prepare_msg_zero [OF assms(1,3)] by blast
  let ?th2' = "?th2 \<lparr> th_pc := Calling enc h2 c2 \<rparr>"
  have s1: "run_threads P env snd_msg [(1, now)] ((w, st), [?th1, ?th2]) = ((w, st), [?th1, ?th2'])"
    using assms(5,9) h2(1) by (simp add: turn_def send_turn_def new_thread_def to_call_def)
  obtain w1 st1 where r1: "unix_send P env snd_msg t1 w st = Some (w1, st1, Inr ())"
    and st1: "unix_state_ok st1" "us_sendmsg_einval st1"
    using raw_send_falls_back [OF assms(1,2,4,5,6,8,9,10), of w] assms(4) by fastforce
  have "completes P env snd_msg now t1 (w, st, Begin) (w1, st1, Inr (), Inr ())"
    using send_completes [OF r1, of now] by (simp add: final_def send_outcome_def)
  then obtain n1 where s2: "run_threads P env snd_msg (replicate n1 (0, now)) ((w, st), [?th1, ?th2']) =
      ((w1, st1), [?th1 \<lparr> th_pc := Finished (Inr ()) (Inr ()) \<rparr>, ?th2'])"
    using run_to_end [of P env snd_msg now "[?th1, ?th2']" 0 w st w1 st1 "Inr ()" "Inr ()"]
    by (auto simp: new_thread_def)
  obtain w2 where "snd_msg w1 h2 = (w2, Inl (Os EINVAL))"
    using refuses_tosD(1) [OF assms(10) h2(2) tos_only_first(1) [OF assms(1,7,8)]] by blast
  from late_rejection [where P = P and env = env and t = t2 and now = now and enc = enc and ctrl = c2
      and snd_msg = snd_msg and w = w1 and hdr = h2, OF st1 this] obtain st2 where
    "completes P env snd_msg now t2 (w1, st1, Calling enc h2 c2)
       (w2, st2, Inl (IoErr (Os EINVAL)), Inr ())" by blast
  then obtain n2 where s3: "run_threads P env snd_msg (replicate n2 (1, now))
      ((w1, st1), [?th1 \<lparr> th_pc := Finished (Inr ()) (Inr ()) \<rparr>, ?th2']) =
      ((w2, st2), [?th1 \<lparr> th_pc := Finished (Inr ()) (Inr ()) \<rparr>,
                   ?th2 \<lparr> th_pc := Finished (Inl (IoErr (Os EINVAL))) (Inr ()) \<rparr>])"
    using run_to_end [of P env snd_msg now "[?th1 \<lparr> th_pc := Finished (Inr ()) (Inr ()) \<rparr>, ?th2']" 1
        w1 st1 w2 st2 "Inl (IoErr (Os EINVAL))" "Inr ()"]
    by (auto simp: new_thread_def)
  have "run_threads P env snd_msg ([(1, now)] @ replicate n1 (0, now) @ replicate n2 (1, now)) ((w, st), [?th1, ?th2]) =
      ((w2, st2), [?th1 \<lparr> th_pc := Finished (Inr ()) (Inr ()) \<rparr>,
                   ?th2 \<lparr> th_pc := Finished (Inl (IoErr (Os EINVAL))) (Inr ()) \<rparr>])"
    using s1 s2 s3 by (simp only: interleave_simps(3))
  moreover have "\<exists>w2 st2. unix_send P env snd_msg t2 w1 st1 = Some (w2, st2, Inr ())"
    if "unix_state_ok st1" for w1 st1
    using raw_send_falls_back [OF assms(1,3) that _ assms(7,8,9,10), of w1]
      raw_rejection_remembered [OF assms(1,3) _ assms(7,8,9,10), of st1 w1]
    by (cases "us_sendmsg_einval st1") fast+
  ultimately show ?thesis by blast
qed

section \<open>Once the rejection is known\<close>

text \<open>The window of the race is the first rejection: a send that begins after it loses nothing.\<close>

definition settled_inv :: "unix_platform \<Rightarrow> sock_env \<Rightarrow> 'w sendmsg \<Rightarrow> 'w \<times> unix_state \<Rightarrow> bool" where
  "settled_inv P env snd_msg ws \<longleftrightarrow>
     platform_ok P \<and> multi_send P \<and> (\<exists>enc. encode_src_ip_of P env = Inr enc) \<and>
     refuses_tos P snd_msg \<and> us_sendmsg_einval (snd ws)"

fun settled_pc :: "unix_platform \<Rightarrow> transmit \<Rightarrow> send_pc \<Rightarrow> bool" where
  "settled_pc P t Begin \<longleftrightarrow> True"
| "settled_pc P t (Calling enc hdr ctrl) \<longleftrightarrow> carries P t enc True hdr"
| "settled_pc P t (Returned r) \<longleftrightarrow> r = Inr ()"
| "settled_pc P t (Finished r r') \<longleftrightarrow> r = Inr () \<and> r' = Inr ()"
| "settled_pc P t _ \<longleftrightarrow> False"

definition settled_thread :: "unix_platform \<Rightarrow> 'w \<times> unix_state \<Rightarrow> send_thread \<Rightarrow> bool" where
  "settled_thread P ws th \<longleftrightarrow>
     transmit_ok (th_transmit th) \<and> dest_is_ipv4 (th_transmit th) \<and> settled_pc P (th_transmit th) (th_pc th)"

lemma settled_step:
  assumes P: "platform_ok P" "multi_send P" "encode_src_ip_of P env = Inr enc" "refuses_tos P snd_msg"
    and st: "us_sendmsg_einval st" and t: "transmit_ok t" "dest_is_ipv4 t" and pc: "settled_pc P t pc"
    and step: "send_step P env snd_msg now t (w, st, pc) = (w', st', pc')"
  shows "us_sendmsg_einval st' \<and> settled_pc P t pc'"
proof (cases pc)
  case Begin
  obtain h ctrl where "prepare_msg P t (replicate LEN 0) enc True = Inr (h, ctrl)" "carries P t enc True h"
    using prepare_msg_zero [OF P(1) t(1)] unfolding carries_def by blast
  with step Begin st P(3) show ?thesis by (auto simp: to_call_def)
next
  case (Calling enc' hdr ctrl)
  then have "control_messages (pf_abi P) hdr = Some (datagram_messages P enc' True t)"
    using pc by (simp add: carries_def)
  from refuses_tosD(2) [OF P(4) this tos_only_first(2) [OF P(1) t(2) P(2)]] obtain w1 n
    where "snd_msg w hdr = (w1, Inr n)" by blast
  with step Calling st show ?thesis by auto
qed (use step st pc in \<open>auto simp: send_outcome_def split: prod.splits\<close>)

lemma settled_turn:
  assumes "settled_inv P env snd_msg ws" and "settled_thread P ws th"
    and "send_turn P env snd_msg now th ws = (ws', th')"
  shows "settled_inv P env snd_msg ws' \<and> settled_thread P ws' th'"
proof -
  obtain w' st' pc' where
    s: "send_step P env snd_msg now (th_transmit th) (fst ws, snd ws, th_pc th) = (w', st', pc')"
    using prod_cases3 by blast
  then have "ws' = (w', st')" "th' = th \<lparr> th_pc := pc' \<rparr>" using assms(3) by (simp_all add: send_turn_def)
  with settled_step [OF _ _ _ _ _ _ _ _ s] assms(1,2) show ?thesis
    by (auto simp: settled_inv_def settled_thread_def)
qed

interpretation settled: shared_state "send_turn P env snd_msg" "\<lambda>_. True" "settled_inv P env snd_msg"
  "settled_thread P" "\<lambda>ws ws'. True" for P env and snd_msg :: "'w sendmsg"
  by unfold_locales (blast dest: settled_turn, simp_all add: settled_thread_def)

theorem settled_sends_deliver:
  assumes "settled_inv P env snd_msg (w, st)"
    and "\<forall>th \<in> set ths. transmit_ok (th_transmit th) \<and> dest_is_ipv4 (th_transmit th) \<and> th_pc th = Begin"
    and "run_threads P env snd_msg sched ((w, st), ths) = (ws', ths')" and "th \<in> set ths'"
    and "th_pc th = Finished r r'"
  shows "r = Inr ()"
proof -
  have "settled.all_ok P env snd_msg ((w, st), ths)"
    using assms(1,2) by (simp add: settled.all_ok_def settled_thread_def)
  from settled.interleave_ok [OF this _ assms(3)] assms(4,5) show ?thesis
    by (auto simp: settled.all_ok_def settled_thread_def)
qed

section \<open>Concrete instances\<close>

text \<open>A system that takes every datagram.\<close>

definition taking_system :: "unit sendmsg" where
  "taking_system w h = (w, Inr (length (mh_iov h)))"

lemma taking_system_facts: "never_interrupted taking_system" "multi_send linux_x86_64"
  "starting [new_thread example_transmit]"
  using example_facts
  by (simp_all add: never_interrupted_def taking_system_def interrupted_def starting_def new_thread_def)

theorem lone_thread_is_send_witness:
  "\<forall>w' st' r'. unix_socket_send linux_x86_64 example_env (rejects_tos linux_x86_64) 0 example_transmit [] example_state =
     Some (w', st', r') \<longleftrightarrow>
   (\<exists>n r. send_steps linux_x86_64 example_env (rejects_tos linux_x86_64) 0 example_transmit n
     ([], example_state, Begin) = (w', st', Finished r r'))"
  by (intro allI, rule lone_thread_is_send [OF taking_system_facts(2)])

theorem concurrent_sends_safe_witness:
  "\<exists>w' st' th. run_threads linux_x86_64 example_env taking_system [(0, 0), (0, 0)]
     (((), example_state), [new_thread example_transmit]) = ((w', st'), [th]) \<and>
     unix_state_ok st' \<and> (\<forall>r. th_pc th = Returned r \<longrightarrow> no_crash r)"
proof -
  obtain w' st' ths' where run: "run_threads linux_x86_64 example_env taking_system [(0, 0), (0, 0)]
     (((), example_state), [new_thread example_transmit]) = ((w', st'), ths')"
    using prod_cases3 by (metis surj_pair)
  then obtain th where th: "ths' = [th]" using interleave_length [OF run] by (cases ths') auto
  from concurrent_sends_safe [OF linux_x86_64_ok example_facts(2) taking_system_facts(3) run, of th]
  show ?thesis using run by (auto simp: th)
qed


theorem concurrent_fallback_drops_witness:
  "\<exists>sched w' st'. run_threads linux_x86_64 example_env (rejects_tos linux_x86_64) sched
      (([], example_state), [new_thread example_transmit, new_thread example_transmit]) =
    ((w', st'),
     [(new_thread example_transmit) \<lparr> th_pc := Finished (Inr ()) (Inr ()) \<rparr>,
      (new_thread example_transmit) \<lparr> th_pc := Finished (Inl (IoErr (Os EINVAL))) (Inr ()) \<rparr>])"
  by (rule concurrent_fallback_drops [THEN conjunct1, OF linux_x86_64_ok example_facts(1,1,2,3,4,4,5,6) rejects_tos_refuses])

end
