(* ===== verification/UdpOpen.thy ===== *)
theory UdpOpen
  imports UdpSystem
begin

text \<open>
  What an opened socket of \<^verbatim>\<open>patches/noq-udp\<close> offers: the outcome of opening a Unix socket on Linux and
  a Windows socket in closed form (which refusals are fatal, which only switch a feature off),
  the accessors of the three ports and their buffer sizes, and the symbols that the Apple port
  looks up once per process.
\<close>

section \<open>Accessors\<close>

definition gro_segments :: "unix_state \<Rightarrow> nat" where
  "gro_segments st = us_gro_segments st"

definition may_fragment :: "unix_state \<Rightarrow> bool" where
  "may_fragment st = us_may_fragment st"

definition is_apple_fast_path_enabled :: "unix_state \<Rightarrow> bool" where
  "is_apple_fast_path_enabled st = us_apple_fast_path st"

text \<open>Windows promises a constant number of received segments.\<close>

definition win_gro_segments :: "win_state \<Rightarrow> nat" where
  "win_gro_segments st = 64"

definition win_may_fragment :: "win_state \<Rightarrow> bool" where
  "win_may_fragment st = ws_may_fragment st"

text \<open>The minimal port sends and receives one datagram per call.\<close>

definition posix_max_gso_segments :: "posix_state \<Rightarrow> nat" where
  "posix_max_gso_segments st = 1"

definition posix_gro_segments :: "posix_state \<Rightarrow> nat" where
  "posix_gro_segments st = 1"

definition posix_may_fragment :: "posix_state \<Rightarrow> bool" where
  "posix_may_fragment st = True"

text \<open>
  The buffer sizes of a socket are those of the system, through \<^verbatim>\<open>socket2\<close>, whose four calls are
  a parameter; none of the ports keeps a copy.
\<close>

record 'w buffer_calls =
  bc_set_send :: "'w \<Rightarrow> nat \<Rightarrow> 'w \<times> (io_error + unit)"
  bc_set_recv :: "'w \<Rightarrow> nat \<Rightarrow> 'w \<times> (io_error + unit)"
  bc_send :: "'w \<Rightarrow> io_error + nat"
  bc_recv :: "'w \<Rightarrow> io_error + nat"

datatype buffer_request = SetSendBuffer nat | SetRecvBuffer nat | SendBuffer | RecvBuffer

datatype buffer_answer = BufferSet "io_error + unit" | BufferSize "io_error + nat"

definition socket_buffer :: "'w buffer_calls \<Rightarrow> buffer_request \<Rightarrow> 'w \<Rightarrow> 'w \<times> buffer_answer" where
  "socket_buffer calls rq w =
     (case rq of
        SetSendBuffer n \<Rightarrow> (case bc_set_send calls w n of (w', r) \<Rightarrow> (w', BufferSet r))
      | SetRecvBuffer n \<Rightarrow> (case bc_set_recv calls w n of (w', r) \<Rightarrow> (w', BufferSet r))
      | SendBuffer \<Rightarrow> (w, BufferSize (bc_send calls w))
      | RecvBuffer \<Rightarrow> (w, BufferSize (bc_recv calls w)))"

text \<open>The Windows and the minimal port have the same four functions.\<close>

definition win_socket_buffer :: "'w buffer_calls \<Rightarrow> buffer_request \<Rightarrow> 'w \<Rightarrow> 'w \<times> buffer_answer" where
  "win_socket_buffer calls rq w = socket_buffer calls rq w"

definition posix_socket_buffer :: "'w buffer_calls \<Rightarrow> buffer_request \<Rightarrow> 'w \<Rightarrow> 'w \<times> buffer_answer" where
  "posix_socket_buffer calls rq w = socket_buffer calls rq w"

section \<open>Opening on Linux\<close>

text \<open>The assertions at the start of \<^verbatim>\<open>new\<close>.\<close>

definition unix_fits :: "unix_platform \<Rightarrow> bool" where
  "unix_fits P \<longleftrightarrow>
     abi_cmsg_space (pf_abi P) (c_size (int_type (pf_le P))) + cmsg_platform_space P \<le> LEN \<and>
     pf_cmsghdr_align P \<le> 8"

text \<open>
  The calls that must not be refused, in their order, each as a function of the system's answer: an
  error is fatal; \<^term>\<open>Inr False\<close> is an option that the system does not know, which leaves the
  socket with possible fragmentation.
\<close>

definition mandatory :: "io_error + 'a \<Rightarrow> io_error + bool" where
  "mandatory r = map_sum id (\<lambda>_. True) r"

definition linux_required :: "sock_env \<Rightarrow> bool \<Rightarrow> (io_error + bool) list" where
  "linux_required env v4 =
     (if v4
      then [opt_supported env IP_MTU_DISCOVER IP_PMTUDISC_PROBE,
            mandatory (opt_result env IP_PKTINFO OPTION_ON)]
      else [mandatory (se_only_v6 env),
            opt_supported env IP_MTU_DISCOVER IP_PMTUDISC_PROBE,
            opt_supported env IPV6_MTU_DISCOVER IPV6_PMTUDISC_PROBE,
            mandatory (opt_result env IPV6_RECVPKTINFO OPTION_ON),
            mandatory (opt_result env IPV6_RECVTCLASS OPTION_ON),
            opt_supported env IPV6_DONTFRAG OPTION_ON])"

fun first_refusal :: "(io_error + 'a) list \<Rightarrow> io_error option" where
  "first_refusal [] = None"
| "first_refusal (Inl e # rs) = Some e"
| "first_refusal (Inr x # rs) = first_refusal rs"

definition linux_opened :: "sock_env \<Rightarrow> bool \<Rightarrow> bool \<Rightarrow> nat \<Rightarrow> unix_state" where
  "linux_opened env v4 gso now =
     \<lparr> us_log = error_log_new now,
       us_max_gso_segments =
         (if gso \<and> opt_result env UDP_SEGMENT (OptInt 1500) = Inr () then 64 else 1),
       us_gro_segments = (if opt_result env UDP_GRO OPTION_ON = Inr () then 64 else 1),
       us_may_fragment = (Inr False \<in> set (linux_required env v4)),
       us_sendmsg_einval = False, us_apple_fast_path = False \<rparr>"

lemma mandatory_simps [simp]: "mandatory (Inl e) = Inl e" "mandatory (Inr x) = Inr True"
  by (simp_all add: mandatory_def)

text \<open>The result of a sequence of calls, without its trace.\<close>

lemma snd_sockop_bind:
  "snd (sockop_bind m f tr) =
     (case snd (m tr) of Inl e \<Rightarrow> Inl e | Inr x \<Rightarrow> snd (f x (fst (m tr))))"
  by (simp add: sockop_bind_def split: prod.split sum.split)

lemma snd_sockop_catch: "snd (sockop_catch m tr) = Inr (snd (m tr))"
  by (simp add: sockop_catch_def split: prod.split)

lemma recv_tos_linux:
  "linux_like (pf_target P) \<Longrightarrow> snd (recv_tos_option P env v4 tr) =
     (if v4 then Inr () else map_sum id (\<lambda>_. ()) (se_only_v6 env))"
  by (cases "se_only_v6 env"; cases "pf_target P")
     (auto simp: recv_tos_option_def snd_sockop_bind snd_sockop_catch target_defs)

lemma linux_options_v4:
  "snd (linux_options env True tr) =
     (case opt_supported env IP_MTU_DISCOVER IP_PMTUDISC_PROBE of
        Inl e \<Rightarrow> Inl e
      | Inr s1 \<Rightarrow> (case opt_result env IP_PKTINFO OPTION_ON of
          Inl e \<Rightarrow> Inl e
        | Inr _ \<Rightarrow> Inr (\<not> s1, if opt_result env UDP_GRO OPTION_ON = Inr () then 64 else 1)))"
  by (simp add: linux_options_def snd_sockop_bind snd_sockop_catch split: sum.split)

lemma linux_options_v6:
  "snd (linux_options env False tr) =
     (case opt_supported env IP_MTU_DISCOVER IP_PMTUDISC_PROBE of
        Inl e \<Rightarrow> Inl e
      | Inr s1 \<Rightarrow> (case opt_supported env IPV6_MTU_DISCOVER IPV6_PMTUDISC_PROBE of
          Inl e \<Rightarrow> Inl e
        | Inr s2 \<Rightarrow> Inr (\<not> s1 \<or> \<not> s2,
            if opt_result env UDP_GRO OPTION_ON = Inr () then 64 else 1)))"
  by (simp add: linux_options_def snd_sockop_bind snd_sockop_catch split: sum.split)

lemma ipv6_options_linux:
  "linux_like (pf_target P) \<Longrightarrow> snd (ipv6_options P env v4 mf tr) =
     (if v4 then Inr mf
      else case opt_result env IPV6_RECVPKTINFO OPTION_ON of
        Inl e \<Rightarrow> Inl e
      | Inr _ \<Rightarrow> (case opt_result env IPV6_RECVTCLASS OPTION_ON of
          Inl e \<Rightarrow> Inl e
        | Inr _ \<Rightarrow> (case opt_supported env IPV6_DONTFRAG OPTION_ON of
            Inl e \<Rightarrow> Inl e
          | Inr s \<Rightarrow> Inr (mf \<or> \<not> s))))"
  by (cases "pf_target P")
     (auto simp: ipv6_options_def snd_sockop_bind target_defs split: sum.split)

lemma platform_max_gso_linux:
  "linux_like (pf_target P) \<Longrightarrow> snd (platform_max_gso P env (Some gso) tr) =
     Inr (Some gso, if gso \<and> opt_result env UDP_SEGMENT (OptInt 1500) = Inr () then 64 else 1)"
  by (simp add: platform_max_gso_def linux_max_gso_result kernel_supported_once_def opt_result_def
      split: option.split)

lemma linux_no_other_options:
  assumes "linux_like (pf_target P)"
  shows "dontfrag_option P env v4 mf = sockop_return mf"
    and "recvdstaddr_option P env v4 = sockop_return ()"
  using assms by (cases "pf_target P";
    simp add: dontfrag_option_def recvdstaddr_option_def target_defs)+

lemma unix_new_fits:
  "unix_fits P \<Longrightarrow> snd (unix_new P env once now tr) =
     map_sum IoErr id (snd (unix_open P env once now tr))"
  by (auto simp: unix_new_def unix_fits_def split: prod.split sum.split)


section \<open>The symbols of the Apple fast path\<close>

text \<open>
  An address looked up with \<^verbatim>\<open>dlsym\<close> (a parameter; zero means that there is no such symbol) is kept
  in a \<^verbatim>\<open>OnceLock\<close> for the life of the process, zero included. The result is the content of the
  lock afterwards and the address.
\<close>

definition resolve_symbol ::
  "(string \<Rightarrow> nat) \<Rightarrow> string \<Rightarrow> nat option \<Rightarrow> nat option \<times> nat option" where
  "resolve_symbol dlsym name lock =
     (let addr = (case lock of Some a \<Rightarrow> a | None \<Rightarrow> dlsym name)
      in (Some addr, if addr \<noteq> 0 then Some addr else None))"

record apple_symbols =
  as_sendmsg_x :: "nat option"
  as_recvmsg_x :: "nat option"

text \<open>The code at an address, to which \<^verbatim>\<open>transmute\<close> gives a type, is a parameter.\<close>

definition sendmsg_x_fn ::
  "(string \<Rightarrow> nat) \<Rightarrow> (nat \<Rightarrow> 'w sendmsg_x) \<Rightarrow> apple_symbols \<Rightarrow>
   apple_symbols \<times> 'w sendmsg_x option" where
  "sendmsg_x_fn dlsym code sy =
     (case resolve_symbol dlsym ''sendmsg_x'' (as_sendmsg_x sy) of
        (lock, addr) \<Rightarrow> (sy \<lparr> as_sendmsg_x := lock \<rparr>, map_option code addr))"

definition recvmsg_x_fn ::
  "(string \<Rightarrow> nat) \<Rightarrow> (nat \<Rightarrow> 'w recvmmsg) \<Rightarrow> apple_symbols \<Rightarrow>
   apple_symbols \<times> 'w recvmmsg option" where
  "recvmsg_x_fn dlsym code sy =
     (case resolve_symbol dlsym ''recvmsg_x'' (as_recvmsg_x sy) of
        (lock, addr) \<Rightarrow> (sy \<lparr> as_recvmsg_x := lock \<rparr>, map_option code addr))"

text \<open>
  The first call of the process decides: whatever the dynamic linker would say later, and whichever
  of the two symbols is asked for in between, the answer stays the same.
\<close>

lemma resolve_symbol_stable:
  "resolve_symbol dlsym name lock = (lock', addr) \<Longrightarrow> resolve_symbol dlsym' name lock' = (lock', addr)"
  by (auto simp: resolve_symbol_def Let_def split: if_splits)

lemma apple_symbols_stable:
  assumes "sendmsg_x_fn dlsym code sy = (sy1, f)" and "recvmsg_x_fn dlsym1 code1 sy1 = (sy2, g)"
  shows "sendmsg_x_fn dlsym2 code sy2 = (sy2, f)" and "recvmsg_x_fn dlsym2 code1 sy2 = (sy2, g)"
  using assms
  by (auto simp: sendmsg_x_fn_def recvmsg_x_fn_def resolve_symbol_def Let_def split: if_splits
      option.splits)

text \<open>
  A system without the symbols at the first send: every later transmit of a socket that still has
  its fast path takes the slow one, and the socket goes back to one segment per call.
\<close>

lemma missing_symbol_is_final:
  assumes "sendmsg_x_fn dlsym code sy = (sy', None)" and "us_apple_fast_path st"
    and "sendmsg_x_batch P t (us_sendmsg_einval st) = Inr hdrs"
  shows "apple_try_send P (snd (sendmsg_x_fn dlsym' code sy')) snd_msg t w st =
    send_single P snd_msg t w (disable_apple_fast_path st)"
proof -
  have "snd (sendmsg_x_fn dlsym' code sy') = None"
    using assms(1) by (auto simp: sendmsg_x_fn_def resolve_symbol_def Let_def split: if_splits
        option.splits)
  with assms(2,3) show ?thesis
    by (simp add: apple_try_send_def send_via_sendmsg_x_def resolve_apple_fast_fn_def)
qed

section \<open>Opening on Windows\<close>

text \<open>The assertions at the start of \<^verbatim>\<open>new\<close>.\<close>

definition win_fits :: "win_platform \<Rightarrow> bool" where
  "win_fits P \<longleftrightarrow>
     win_cmsg_space (wp_types P) (c_size (wp_in6_pktinfo P)) + win_cmsg_space (wp_types P) 4 +
       win_cmsg_space (wp_types P) 4 \<le> CMSG_LEN \<and>
     unat (w_hdr_align (wp_types P)) \<le> 8"

definition win_supported :: "win_env \<Rightarrow> sockopt \<Rightarrow> io_error + bool" where
  "win_supported env opt =
     (case opt_result (we_sock env) opt OPTION_ON of
        Inr _ \<Rightarrow> Inr True
      | Inl e \<Rightarrow> if is_unsupported_error e then Inr False else Inl e)"

text \<open>Whether a socket of this address takes IPv4 datagrams: an IPv6 socket does unless it is
  restricted to IPv6.\<close>

definition win_dual :: "win_env \<Rightarrow> bool \<Rightarrow> bool" where
  "win_dual env v6 \<longleftrightarrow> \<not> v6 \<or> se_only_v6 (we_sock env) = Inr False"

definition win_required :: "win_env \<Rightarrow> bool \<Rightarrow> (io_error + bool) list" where
  "win_required env v6 =
     (if v6 then [mandatory (se_only_v6 (we_sock env))] else []) @
     [if has_wsarecvmsg env then Inr True else Inl no_wsarecvmsg] @
     (if win_dual env v6 then map (win_supported env) [IP_DONTFRAGMENT, IP_PKTINFO, IP_RECVECN] else []) @
     (if v6 then map (win_supported env) [IPV6_DONTFRAG, IPV6_PKTINFO, IPV6_RECVECN] else [])"

text \<open>A feature of one protocol is on unless that protocol is used and the option is unknown.\<close>

definition win_opened :: "win_env \<Rightarrow> bool \<Rightarrow> nat \<Rightarrow> win_state" where
  "win_opened env v6 now =
     (let on4 = (\<lambda>opt. win_dual env v6 \<longrightarrow> win_supported env opt = Inr True);
          on6 = (\<lambda>opt. v6 \<longrightarrow> win_supported env opt = Inr True)
      in \<lparr> ws_log = error_log_new now, ws_max_gso_segments = win_max_gso env,
           ws_may_fragment = (\<not> on4 IP_DONTFRAGMENT \<or> \<not> on6 IPV6_DONTFRAG),
           ws_ecn_v4_enabled = on4 IP_RECVECN, ws_ecn_v6_enabled = on6 IPV6_RECVECN,
           ws_pktinfo_v4_enabled = (\<not> is_wine env \<and> on4 IP_PKTINFO),
           ws_pktinfo_v6_enabled = (\<not> is_wine env \<and> on6 IPV6_PKTINFO) \<rparr>)"

lemma win_option_result: "snd (win_option env opt tr) = win_supported env opt"
  by (simp add: win_option_def win_supported_def snd_sockop_bind snd_sockop_catch split: sum.split)

lemma win_options_result:
  "snd (win_ipv4_options env tr) =
     (case first_refusal (map (win_supported env) [IP_DONTFRAGMENT, IP_PKTINFO, IP_RECVECN]) of
        Some e \<Rightarrow> Inl e
      | None \<Rightarrow> Inr (win_supported env IP_DONTFRAGMENT = Inr True, win_supported env IP_PKTINFO = Inr True,
          win_supported env IP_RECVECN = Inr True))"
  "snd (win_ipv6_options env tr) =
     (case first_refusal (map (win_supported env) [IPV6_DONTFRAG, IPV6_PKTINFO, IPV6_RECVECN]) of
        Some e \<Rightarrow> Inl e
      | None \<Rightarrow> Inr (win_supported env IPV6_DONTFRAG = Inr True, win_supported env IPV6_PKTINFO = Inr True,
          win_supported env IPV6_RECVECN = Inr True))"
  by (simp_all add: win_ipv4_options_def win_ipv6_options_def snd_sockop_bind win_option_result split: sum.split)

lemma first_refusal_append:
  "first_refusal (xs @ ys) = (case first_refusal xs of Some e \<Rightarrow> Some e | None \<Rightarrow> first_refusal ys)"
  by (induction xs rule: first_refusal.induct) simp_all

lemma win_new_fits: "win_fits P \<Longrightarrow> snd (win_new P env now tr) = map_sum IoErr id (snd (win_open env now tr))"
  by (auto simp: win_new_def win_fits_def Let_def split: prod.split sum.split)

text \<open>
  Opening a socket on Windows. With the control buffer large enough for the assertions, opening
  fails exactly when the system has no \<^verbatim>\<open>WSARecvMsg\<close>, or refuses one of the options with an error that
  does not say that it is unknown, and then with the first such error; an unknown option switches
  off its own feature, for its own protocol, and nothing else. The two \<^verbatim>\<open>SIO_UDP\<close> controls never
  matter.
\<close>

theorem win_open_exact:
  assumes "win_fits P" and "se_set_nonblocking (we_sock env) = None"
    and "se_local_addr (we_sock env) = Inr addr"
  shows "snd (win_new P env now tr) =
    (case first_refusal (win_required env (\<not> is_socket_v4 addr)) of
       Some e \<Rightarrow> Inl (IoErr e)
     | None \<Rightarrow> Inr (win_opened env (\<not> is_socket_v4 addr) now))"
proof (cases addr)
  case (SocketV4 a p)
  then show ?thesis
    by (simp add: win_new_fits [OF assms(1)] win_open_def snd_sockop_bind snd_sockop_catch disable_udp_ioctl_def assms
        win_options_result win_required_def win_opened_def win_dual_def win_initial_state_def first_refusal_append Let_def
        split: option.split sum.split)
next
  case (SocketV6 g p fi si)
  then show ?thesis
    by (cases "se_only_v6 (we_sock env)")
      (simp_all add: win_new_fits [OF assms(1)] win_open_def snd_sockop_bind snd_sockop_catch disable_udp_ioctl_def assms
        win_options_result win_required_def win_opened_def win_dual_def win_initial_state_def first_refusal_append Let_def
        split: option.split sum.split)
qed

end
