(* ===== verification/UdpBatch.thy ===== *)
theory UdpBatch
  imports UdpSystem
begin

text \<open>
  The receive operation of \<^verbatim>\<open>patches/noq-udp\<close> on Linux as a whole: however often the system
  interrupts the call, a batch of datagrams ends up in the caller's metadata slots, in order, each
  with its own sender, length and control items.
\<close>

text \<open>A datagram that the system hands over: its sender, its length and what is attached to it.\<close>

record datagram =
  dg_name :: sockaddr
  dg_len :: nat
  dg_items :: "rx_item list"

text \<open>A header filled in for it, with a control buffer of \<open>N\<close> bytes.\<close>

definition filled_in :: "unix_platform \<Rightarrow> nat \<Rightarrow> datagram \<Rightarrow> recv_hdr \<times> nat \<Rightarrow> bool" where
  "filled_in P N d hl \<longleftrightarrow>
     rh_name (fst hl) = dg_name d \<and> snd hl = dg_len d \<and>
     (\<forall>i \<in> set (dg_items d). rx_item_ok P i) \<and> rx_space P (dg_items d) \<le> N \<and>
     (\<exists>e. push_all (pf_abi P) (map (rx_message P) (dg_items d)) (encoder_new (pf_abi P) (control_hdr N)) = Inr e \<and>
        rh_hdr (fst hl) = encoder_finish (pf_abi P) e)"

text \<open>The reference: its metadata, if the sender's address is of the internet families.\<close>

definition datagram_meta :: "unix_platform \<Rightarrow> datagram \<Rightarrow> recv_meta io" where
  "datagram_meta P d =
     try_then (decode_socket_addr (pf_le P) (dg_name d)) (\<lambda>addr.
       Inr (rx_meta addr (dg_len d)
         (fold (rx_meaning (pf_le P)) (dg_items d) (control_metadata_new (dg_len d)))))"

fun readable :: "unix_platform \<Rightarrow> datagram list \<Rightarrow> recv_meta list \<times> unit io" where
  "readable P [] = ([], Inr ())"
| "readable P (d # ds) =
     (case datagram_meta P d of
        Inl e \<Rightarrow> ([], Inl e)
      | Inr m \<Rightarrow> (case readable P ds of (ms, r) \<Rightarrow> (m # ms, r)))"

lemma filled_in_decode:
  assumes "platform_ok P" and "\<not> apple_fast P" and "N < 2 ^ 31" and "filled_in P N d hl"
  shows "decode_recv P (rh_name (fst hl)) (rh_hdr (fst hl)) (snd hl) = Some (datagram_meta P d)"
proof -
  obtain e where e: "push_all (pf_abi P) (map (rx_message P) (dg_items d))
      (encoder_new (pf_abi P) (control_hdr N)) = Inr e" "rh_hdr (fst hl) = encoder_finish (pf_abi P) e"
    using assms(4) by (auto simp: filled_in_def)
  have "\<forall>i \<in> set (dg_items d). rx_item_ok P i" "rx_space P (dg_items d) \<le> N"
    using assms(4) by (simp_all add: filled_in_def)
  from received_metadata [OF assms(1,2) this assms(3), of "dg_name d" "dg_len d"] e assms(4)
  show ?thesis by (auto simp: filled_in_def datagram_meta_def)
qed

text \<open>The loop over the batch stores the readable ones from its index on.\<close>

lemma decode_batch_readable:
  assumes "platform_ok P" and "\<not> apple_fast P" and "N < 2 ^ 31"
    and "list_all2 (filled_in P N) ds got" and "i + length got \<le> length metas"
  shows "decode_batch P i got metas =
    Some (case readable P ds of (ms, r) \<Rightarrow> (take i metas @ ms @ drop (i + length ms) metas, r))"
  using assms(4,5)
proof (induction ds got arbitrary: i metas rule: list_all2_induct)
  case Nil
  then show ?case by simp
next
  case (Cons d ds hl got)
  obtain h len where hl: "hl = (h, len)" by (cases hl)
  have dec: "decode_recv P (rh_name h) (rh_hdr h) len = Some (datagram_meta P d)"
    using filled_in_decode [OF assms(1-3) Cons.hyps(1)] by (simp add: hl)
  show ?case
  proof (cases "datagram_meta P d")
    case (Inl e)
    then show ?thesis by (simp add: hl dec)
  next
    case (Inr m)
    obtain ms r where ms: "readable P ds = (ms, r)" by (cases "readable P ds")
    have i: "i < length metas" using Cons.prems by simp
    have "decode_batch P (Suc i) got (metas[i := m]) =
        Some (take (Suc i) (metas[i := m]) @ ms @ drop (Suc i + length ms) (metas[i := m]), r)"
      using Cons.IH [of "Suc i" "metas[i := m]"] Cons.prems ms by simp
    then show ?thesis
      using i by (simp add: hl dec Inr ms take_Suc_conv_app_nth)
  qed
qed

lemma readable_length: "length (fst (readable P ds)) \<le> length ds"
  by (induction ds) (auto split: sum.split prod.split)

text \<open>
  C23. Receiving a batch. When the system, after being interrupted any number of times, fills in
  headers for some datagrams, no more than there are slots, then the operation returns and stores
  the metadata of each datagram, as a reference computes it from what is attached to that datagram,
  into the slots from the first on, in order, and leaves the other slots as they were. It reports
  their number; a sender outside the internet families ends the batch with its error, with the
  datagrams before it stored.
\<close>

theorem recv_batch_exact:
  assumes "platform_ok P" and "linux_like (pf_target P)" and "N < 2 ^ 31"
    and "\<forall>k < n. interrupted (snd (nth_call (\<lambda>w. rcv_mmsg w (map (prepare_recv junk) (take (BATCH_SIZE P) caps))) w k))"
    and "nth_call (\<lambda>w. rcv_mmsg w (map (prepare_recv junk) (take (BATCH_SIZE P) caps))) w n = (w', Inr got)"
    and "list_all2 (filled_in P N) ds got" and "length got \<le> length metas"
  shows "unix_recv P rcv_mmsg rcv_msg junk caps metas w =
    Some (w', fst (readable P ds) @ drop (length (fst (readable P ds))) metas,
      try_then (snd (readable P ds)) (\<lambda>_. Inr (length ds)))"
proof -
  have t: "\<not> apple_fast P" "\<not> apple (pf_target P)" "\<not> solarish (pf_target P)"
    "pf_target P \<notin> {OpenBSD, NetBSD, DragonFly, Redox}"
    using assms(2) by (cases "pf_target P"; simp add: target_defs apple_fast_def)+
  let ?call = "\<lambda>w. rcv_mmsg w (map (prepare_recv junk) (take (BATCH_SIZE P) caps))"
  have "\<not> interrupted (snd (nth_call ?call w n))" by (simp add: assms(5) interrupted_def)
  from retry_found [OF this] assms(4) have "retry_if_interrupted ?call w = Some (w', Inr got)"
    by (simp add: assms(5))
  moreover have "decode_batch P 0 got metas =
      Some (case readable P ds of (ms, r) \<Rightarrow> (ms @ drop (length ms) metas, r))"
    using decode_batch_readable [OF assms(1) t(1) assms(3,6), of 0 metas] assms(7) by simp
  moreover have "length got = length ds" using list_all2_lengthD [OF assms(6)] by simp
  ultimately show ?thesis
    using t(2-4) by (simp add: unix_recv_def recv_via_recvmmsg_def Let_def split: prod.split)
qed

text \<open>One interruption, then a segmented datagram into the first of two slots.\<close>

definition example_datagram :: datagram where
  "example_datagram = \<lparr> dg_name = Sockaddr_in 0 0, dg_len = 3600, dg_items = [Rx_Tos 2, Rx_Gro 1200] \<rparr>"

theorem recv_batch_exact_witness:
  "\<exists>h m. unix_recv linux_x86_64 (\<lambda>w hs. (Suc w, if w = 0 then Inl (Os EINTR) else Inr [(h, 3600)]))
      (\<lambda>w h. (w, h, Inl (Os EAGAIN))) [] [4000] [recv_meta_default, recv_meta_default] 0 =
    Some (2, [m, recv_meta_default], Inr 1) \<and> rm_stride m = 1200 \<and> rm_len m = 3600 \<and> rm_ecn m = Some Ect0"
proof -
  let ?P = linux_x86_64 and ?d = example_datagram
  have P: "linux_like (pf_target ?P)" "\<not> apple_fast ?P" "pf_le ?P"
    by (simp_all add: linux_x86_64_def Let_def target_defs apple_fast_def)
  have items: "\<forall>i \<in> set (dg_items ?d). rx_item_ok ?P i"
    using P(1) by (simp add: example_datagram_def)
  have sp: "rx_space ?P (dg_items ?d) \<le> LEN" "LEN < 2 ^ 31"
    by (simp_all add: example_datagram_def rx_space_def linux_x86_64_def Let_def LEN_def round_up_nat_def)
  obtain e where e: "push_all (pf_abi ?P) (map (rx_message ?P) (dg_items ?d))
      (encoder_new (pf_abi ?P) (control_hdr LEN)) = Inr e"
    using received_metadata [OF linux_x86_64_ok P(2) items sp] by blast
  let ?h = "\<lparr> rh_hdr = encoder_finish (pf_abi ?P) e, rh_name = Sockaddr_in 0 0, rh_capacity = 4000,
    rh_truncated = False \<rparr>"
  let ?rcv = "\<lambda>w hs. (Suc w, if w = 0 then Inl (Os EINTR) else Inr [(?h, 3600)]) :: nat \<times> (io_error + (recv_hdr \<times> nat) list)"
  have filled: "list_all2 (filled_in ?P LEN) [?d] [(?h, 3600)]"
    using e items sp(1) by (simp add: filled_in_def) (simp add: example_datagram_def)
  have "unix_recv ?P ?rcv (\<lambda>w h. (w, h, Inl (Os EAGAIN))) [] [4000] [recv_meta_default, recv_meta_default] 0 =
    Some (2, fst (readable ?P [?d]) @ drop (length (fst (readable ?P [?d]))) [recv_meta_default, recv_meta_default],
      try_then (snd (readable ?P [?d])) (\<lambda>_. Inr (length [?d])))"
    by (rule recv_batch_exact [OF linux_x86_64_ok P(1) sp(2) _ _ filled, where n = 1])
      (simp_all add: interrupted_def)
  then show ?thesis
    using P(3) by (intro exI [of _ ?h])
      (simp add: example_datagram_def datagram_meta_def rx_meta_def control_metadata_new_def
        int_as_usize_def ecn_from_bits_def)
qed

end
