(* ===== verification/Spec2Isabelle.thy ===== *)
theory Spec2Isabelle
  imports IrohEndToEnd KeyFile ClientSetup Pairing TransportShow IrohKeepalive Relay ServerTasks TrustThreads UdpThreads UdpOpen UdpBatch
begin

text \<open>
  A verification of joycast (\<^verbatim>\<open>src/src\<close>), a program that forwards the input of a game
  controller from a client machine to a server machine, which replays it on a virtual device,
  and of the UDP socket layer that the repository carries in a patched version
  (\<^verbatim>\<open>src/patches/noq-udp\<close>) for the Iroh crate. Paths below are relative to \<^verbatim>\<open>src/src\<close>, in the
  second part to \<^verbatim>\<open>src/patches/noq-udp/src\<close>.

  \<^bold>\<open>The program.\<close> A client (\<^verbatim>\<open>client.rs\<close>) opens an input device, describes it as metadata
  (\<^verbatim>\<open>device.rs\<close>), and introduces itself to a server with a handshake, over plain UDP datagrams or
  as length-prefixed frames on a stream of an Iroh connection. The server (\<^verbatim>\<open>server.rs\<close>) asks its
  authorization store (\<^verbatim>\<open>trust.rs\<close>) about the client's id. An unknown client is registered as
  pending; an administrator approves it with a command (\<^verbatim>\<open>main.rs\<close>), which is another process that
  shares the store's JSON file. For an approved client the server keeps a session, which owns one
  virtual device, and replays the client's events on it. Sessions outlive connections; a reaper
  removes those that are idle for 15 minutes. The client remembers servers (\<^verbatim>\<open>history.rs\<close>),
  resolves targets (\<^verbatim>\<open>transport.rs\<close>), and waits for a lost device to come back. The service manager
  (\<^verbatim>\<open>service.rs\<close>) installs the server under systemd.

  \<^bold>\<open>Conventions.\<close> Integers of the wire and of devices are words of their width. An error is a
  value of \<open>failure + 'a\<close>: the chain of messages of an \<^verbatim>\<open>anyhow::Error\<close>, or a panic. Code outside
  the repository (evdev and uinput, postcard, serde_json, hex, iroh, clap, the clock, sockets, the
  file system's failures, the order of a \<^verbatim>\<open>HashMap\<close>) is a field of an environment record that is
  given to every call, so its answers may differ from call to call; \<open>codec_ok\<close>, \<open>trust_env_ok\<close> and
  \<open>history_env_ok\<close> state the documented laws that proofs use, and concrete environments show that
  they can hold. Strings are lists of characters, one per byte of the text; white space and letter
  case are those of ASCII. Log lines and prompts are left out, printed results are kept.

  \<^item> \<open>Prelude\<close>: results, strings, files, the process environment; the locales \<open>invariant_step\<close>
    (an invariant of a step function holds over runs), \<open>traced_step\<close> (what became true in a run has
    a step that caused it) and \<open>stream_codec\<close> (a writer and a reader of items on a stream).
  \<^item> \<open>Protocol\<close> (\<^verbatim>\<open>protocol.rs\<close>): the messages and the codec parameter.
  \<^item> \<open>Frame\<close> (\<^verbatim>\<open>read_frame\<close>, \<^verbatim>\<open>write_frame\<close> of \<^verbatim>\<open>server.rs\<close>): 32-bit big-endian lengths, short
    reads, broken writes, the limit of 10 MiB; an instance of \<open>stream_codec\<close>.
  \<^item> \<open>Trust\<close>, \<open>TrustSystem\<close>, \<open>TrustProps\<close> (\<^verbatim>\<open>trust.rs\<close>): the operations of one process; processes
    over one file as a step function, an instance of \<open>traced_step\<close> whose cause is an approval; the
    effect of each operation across processes, ambiguous prefixes. \<open>TrustThreads\<close>: each operation
    as its accesses, in any interleaving.
  \<^item> \<open>History\<close> (\<^verbatim>\<open>history.rs\<close>), \<open>Transport\<close> (\<^verbatim>\<open>transport.rs\<close>, with the standard library's parser
    of addresses), \<open>TransportShow\<close> (its printer, and that printed targets parse back), \<open>Device\<close> (\<^verbatim>\<open>device.rs\<close>): scan, classification, metadata, virtual devices.
  \<^item> \<open>Session\<close> (\<^verbatim>\<open>server.rs\<close>): the session map and the reaper; the locale \<open>gate\<close> states what a
    listener relies on from the store, and is interpreted on \<open>is_approved\<close> and \<open>register_pending\<close>.
  \<^item> \<open>Server\<close> (\<^verbatim>\<open>server.rs\<close>): configuration and key file, \<open>bind\<close>, the UDP handler
    (\<open>udp_datagram\<close>), the Iroh connection as a phase with its streams (\<open>iroh_read\<close>, \<open>iroh_serve\<close>),
    and \<open>server_step\<close>, one step of one of the running tasks or of a command line process.
  \<^item> \<open>ServerSystem\<close>: how a step may change sessions, bindings, device logs and the store, as four
    instances of \<open>traced_step\<close>; the refinement of the shared store. \<open>ServerProps\<close>: handshakes and the
    chain of authorization behind every input. \<open>ServerLife\<close>: how long sessions last. \<open>ServerIroh\<close>:
    the order of the Iroh protocol and streams of frames. \<open>KeyFile\<close>: the node id is the same at every start.
  \<^item> \<open>Client\<close>, \<open>ClientLoop\<close> (\<^verbatim>\<open>client.rs\<close>): identity, choice of target and device, reconnection, and
    both loops as step functions over the branches of their \<^verbatim>\<open>select!\<close>. \<open>ClientProps\<close>,
    \<open>ClientFlow\<close>, \<open>ClientSetup\<close>: one identity over all reconnections, what is sent and when, how a
    run ends, persistent id, servers by name.
  \<^item> \<open>Service\<close> (\<^verbatim>\<open>service.rs\<close>) and \<open>MainCli\<close> (\<^verbatim>\<open>main.rs\<close>): the service manager with its actions in
    order, and the dispatch of commands, whose administration part refines the store's operations.
  \<^item> \<open>EndToEnd\<close>, \<open>IrohEndToEnd\<close>: client and server together over UDP and over an Iroh stream, from
    the handshake of both ends to the replayed events. \<open>Pairing\<close>: the first refusal, the
    administrator's command in another process, and the session that the next try opens.
  \<^item> \<open>ClientTimers\<close>, \<open>Keepalive\<close>, \<open>IrohKeepalive\<close> (\<^verbatim>\<open>client.rs\<close>): the client loops on a clock, with the
    reconnect and keepalive timers and the limited waits; client, network and server as one step
    relation for datagrams and one for a stream, on which a frame is read when it is complete: the
    keepalives outlast the reaper on a timely network, and a client that was silent for longer
    than the idle limit never gets through again.
  \<^item> \<open>Relay\<close>: an abstract specification of the server as a small step relation over who may open a
    device, which devices exist and who is connected to which; every run of the server is a run of
    the relay, from which the order of each device's input follows.
  \<^item> \<open>Threads\<close>: programs that take turns on a shared state, with the locales \<open>shared_state\<close> (an
    invariant of the shared state and of every program under the steps of the others) and
    \<open>wait_free\<close> (a measure that the others cannot raise). \<open>ServerTasks\<close> (\<^verbatim>\<open>server.rs\<close>): the tasks of
    the server at the grain of their accesses to the store and of the sessions' mutex. A task alone
    is the handler of \<open>Server\<close>; in any interleaving the mutex excludes, nothing deadlocks and
    sessions stay authorized; a peer that does not read its acknowledgement freezes the rest.

  \<^bold>\<open>The UDP socket layer.\<close> A socket sends datagrams whose options (congestion codepoint, segment
  size, source address) travel as control messages beside the payload, and reads the metadata of
  received datagrams from such messages. Three ports share this interface: Unix (\<^verbatim>\<open>unix.rs\<close>, with
  \<^verbatim>\<open>linux.rs\<close> and, for one batch call of Apple's systems, \<^verbatim>\<open>apple_fast.rs\<close>), Windows
  (\<^verbatim>\<open>windows.rs\<close>) and a minimal one (\<^verbatim>\<open>posix_minimal.rs\<close>). Conditional compilation is a test of
  the target in a platform record, which also holds what the C library or the system headers
  provide: the macros, the numbers of the messages, the layout of structures. A system call is
  a function of a state of the outside world, of any type, so its answers are arbitrary.

  \<^item> \<open>UdpTypes\<close> (\<^verbatim>\<open>lib.rs\<close>): errors and their kinds, targets, codepoints, datagrams, the throttled
    error log (an instance of \<open>invariant_step\<close>), native integers as bytes.
  \<^item> \<open>Cmsg\<close> (\<^verbatim>\<open>cmsg/mod.rs\<close>): encoder, iterator and typed read over a record of operations; the
    locale \<open>cmsg_interface\<close> states the laws they rely on, and its lemmas show that what was pushed
    is what is visited, also when a buffer is written over. \<open>CmsgWindows\<close> (\<^verbatim>\<open>cmsg/windows.rs\<close>)
    proves the laws of the crate's own operations on 64-bit words, and when the walk of an
    arbitrary buffer ends; \<open>CmsgUnix\<close> (\<^verbatim>\<open>cmsg/unix.rs\<close>) shows the laws for the macros as Linux
    documents them.
  \<^item> \<open>UdpSocket\<close> (\<^verbatim>\<open>linux.rs\<close> and the option calls of \<^verbatim>\<open>unix.rs\<close>): option calls in their order,
    kernel releases, segmentation offload. \<open>UdpUnix\<close> and \<open>UdpRecv\<close> (\<^verbatim>\<open>unix.rs\<close>,
    \<^verbatim>\<open>posix_minimal.rs\<close>): opening, preparing, sending with its retries and its fallback,
    receiving and decoding. \<open>UdpApple\<close> (\<^verbatim>\<open>apple_fast.rs\<close>) and \<open>UdpWindows\<close> (\<^verbatim>\<open>windows.rs\<close>).
  \<^item> \<open>UdpUnixProps\<close>, \<open>UdpSendProps\<close>, \<open>UdpRecvProps\<close>, \<open>UdpAppleProps\<close>, \<open>UdpWindowsProps\<close>: headers
    carry exactly the messages of a reference list; a send returns, reports nothing but a full
    buffer, and survives the rejection of an option; received metadata is what the messages say;
    batches cut the payload without loss. \<open>UdpSystem\<close>: the states a socket can reach. \<open>UdpBatch\<close>: a
    batch of received datagrams and its metadata slots. \<open>UdpOpen\<close>: the accessors, what opening a
    socket on Linux or Windows needs and what it merely tries, the symbols that are looked up once.
  \<^item> \<open>UdpThreads\<close> (\<^verbatim>\<open>unix.rs\<close>): any number of threads sending over one socket, whose state is shared
    atomics; a step is one access, one system call or one locked update. A thread alone is the send
    of \<open>UdpUnix\<close>; no interleaving panics, every send finishes in a bounded number of its own steps;
    the fallback after a rejected option is lost when two threads are rejected at the same time.

  \<^bold>\<open>Atomicity.\<close> In \<open>Server\<close> one handler run is one step. \<open>ServerTasks\<close> splits it where the code awaits
  or takes a lock: there a revocation by another process can come between the query of the store
  and the opening of the session. \<open>Trust\<close> takes an operation of the store as one step;
  \<open>TrustThreads\<close> splits it into its read of the file, its store to memory and its commit, which any
  other operation may come between: the safety of approvals survives, a revocation need not.
  In \<open>UdpUnix\<close> one operation on a socket is one step;
  \<open>UdpThreads\<close> splits sending into its atomic accesses, in one order for all threads (the accesses
  are relaxed, but no decision of the code compares two of the fields).

  \<^bold>\<open>Termination.\<close> Every loop is a structural recursion or a step function over a list of inputs,
  except \<open>iroh_serve\<close>, which recurs while a read took bytes, with the remaining bytes as measure,
  \<open>chunks\<close> with the length of the list, and the loops of the socket layer that the code does not
  bound: retries and the walk of control messages are \<open>partial_function\<close>s whose value is
  \<^const>\<open>None\<close> when they go on forever, and theorems say when they return. No fuel is used.

  \<^bold>\<open>Bounds.\<close> The twelve steps within which a send finishes are those of two system calls with their
  bookkeeping, the most the code makes when the system does not interrupt. Each keepalive result asks
  that ten seconds, the slack of the client's loop and the latency of the network stay below the 900
  seconds of the reaper.

  \<^bold>\<open>Not modelled.\<close> The path from a datagram of the socket layer to a stream of an Iroh connection,
  which is the Iroh crate's; the schedulers of tokio and of the system (any schedule is allowed) and
  the order in which its mutex wakes tasks; log lines and the choice of a logging crate; the
  conversions of a socket into a \<^verbatim>\<open>UdpSockRef\<close>; threads that receive or that use the Apple and Windows
  ports at the same time; the crates' tests and benches; loss and reordering of datagrams other than
  as arbitrary inputs of the server.
\<close>

end
